(* ===== verification/Prelude.thy ===== *)
theory Prelude
  imports Main "HOL-Library.Multiset"
begin

text \<open>
  The prelude of the development: the exceptions the Python tools raise, the sum type in
  which every fallible operation returns, the sequencing of fallible operations, and the
  stable sort behind Python's \<open>sorted\<close> and \<open>list.sort\<close> together with the laws that the
  component theories use.  An exception is a value \<open>Inl e\<close>; a normal result is \<open>Inr x\<close>.
\<close>

section \<open>Exceptions and results\<close>

datatype exn =
    TraceReplayError string
  | ConvertError string
  | DemoError string
  | CorrelationError string
  | CompareError string
  | ValueError string
  | KeyError string
  | IndexError
  | TypeError
  | ZeroDivisionError
  | OverflowError
  | InvalidOperation

type_synonym 'a result = "exn + 'a"

named_theorems result_simps \<open>equations and inversions of the result operations\<close>
named_theorems order_laws \<open>laws of the comparison functions used as sort keys\<close>

definition bindR :: "'a result \<Rightarrow> ('a \<Rightarrow> 'b result) \<Rightarrow> 'b result" where
  "bindR r f = (case r of Inl e \<Rightarrow> Inl e | Inr x \<Rightarrow> f x)"

text \<open>A guard that raises: \<open>if c: raise e\<close>.\<close>

definition raise_if :: "bool \<Rightarrow> exn \<Rightarrow> unit result" where
  "raise_if c e = (if c then Inl e else Inr ())"

fun mapR :: "('a \<Rightarrow> 'b result) \<Rightarrow> 'a list \<Rightarrow> 'b list result" where
  "mapR f [] = Inr []"
| "mapR f (x # xs) = bindR (f x) (\<lambda>y. bindR (mapR f xs) (\<lambda>ys. Inr (y # ys)))"

text \<open>A loop that only checks its elements, in order: the first exception stops it.\<close>

fun checkR :: "('a \<Rightarrow> unit result) \<Rightarrow> 'a list \<Rightarrow> unit result" where
  "checkR f [] = Inr ()"
| "checkR f (x # xs) = bindR (f x) (\<lambda>_. checkR f xs)"

definition opt_or_raise :: "'a option \<Rightarrow> exn \<Rightarrow> 'a result" where
  "opt_or_raise r e = (case r of None \<Rightarrow> Inl e | Some x \<Rightarrow> Inr x)"

lemma bindR_Inl [simp, code]: "bindR (Inl e) f = Inl e"
  and bindR_Inr [simp, code]: "bindR (Inr x) f = f x"
  by (simp_all add: bindR_def)

lemma bindR_eq_Inr [result_simps]: "bindR r f = Inr y \<longleftrightarrow> (\<exists>x. r = Inr x \<and> f x = Inr y)"
  by (cases r) auto

lemma bindR_eq_Inl [result_simps]:
  "bindR r f = Inl e \<longleftrightarrow> r = Inl e \<or> (\<exists>x. r = Inr x \<and> f x = Inl e)"
  by (cases r) auto

text \<open>Eliminations for long chains of fallible steps.\<close>

lemma if_resE: "(if c then r else r') = Inr x \<Longrightarrow> (r = Inr x \<Longrightarrow> P) \<Longrightarrow> (r' = Inr x \<Longrightarrow> P) \<Longrightarrow> P"
  by (cases c) auto

lemma bindRE: "bindR r f = Inr y \<Longrightarrow> (\<And>x. r = Inr x \<Longrightarrow> f x = Inr y \<Longrightarrow> P) \<Longrightarrow> P"
  by (auto simp: bindR_eq_Inr)

lemma raise_if_eq_Inr [result_simps]: "raise_if c e = Inr u \<longleftrightarrow> \<not> c"
  by (simp add: raise_if_def)

lemma raise_if_eq_Inl [result_simps]: "raise_if c e = Inl d \<longleftrightarrow> c \<and> d = e"
  by (auto simp: raise_if_def)

lemma opt_or_raise_eq_Inr [result_simps]: "opt_or_raise r e = Inr x \<longleftrightarrow> r = Some x"
  by (cases r) (auto simp: opt_or_raise_def)

lemma opt_or_raise_eq_Inl [result_simps]: "opt_or_raise r e = Inl d \<longleftrightarrow> r = None \<and> d = e"
  by (cases r) (auto simp: opt_or_raise_def)

lemma mapR_eq_Inr [result_simps]: "mapR f xs = Inr ys \<longleftrightarrow> list_all2 (\<lambda>x y. f x = Inr y) xs ys"
  by (induction xs arbitrary: ys) (auto simp: result_simps list_all2_Cons1)

lemma mapR_Inr_total: "(\<And>x. x \<in> set xs \<Longrightarrow> f x = Inr (g x)) \<Longrightarrow> mapR f xs = Inr (map g xs)"
  by (induction xs) auto

lemma mapR_length: "mapR f xs = Inr ys \<Longrightarrow> length ys = length xs"
  by (auto simp: result_simps dest: list_all2_lengthD)

lemma mapR_mem: "mapR f xs = Inr ys \<Longrightarrow> y \<in> set ys \<Longrightarrow> \<exists>x \<in> set xs. f x = Inr y"
  by (auto simp: result_simps list_all2_conv_all_nth in_set_conv_nth Bex_def)

lemma mapR_src: "mapR f xs = Inr ys \<Longrightarrow> x \<in> set xs \<Longrightarrow> \<exists>y \<in> set ys. f x = Inr y"
  by (auto simp: result_simps list_all2_conv_all_nth in_set_conv_nth)

lemma mapR_total: "(\<And>x. x \<in> set xs \<Longrightarrow> \<exists>y. f x = Inr y) \<Longrightarrow> \<exists>ys. mapR f xs = Inr ys"
  by (induction xs) (fastforce simp: bindR_eq_Inr)+

lemma mapR_map_eq:
  "mapR f xs = Inr ys \<Longrightarrow> (\<And>x y. x \<in> set xs \<Longrightarrow> f x = Inr y \<Longrightarrow> g y = h x) \<Longrightarrow> map g ys = map h xs"
  by (induction xs arbitrary: ys) (auto simp: bindR_eq_Inr)

lemma checkR_eq_Inr [result_simps]: "checkR f xs = Inr u \<longleftrightarrow> (\<forall>x \<in> set xs. f x = Inr ())"
  by (induction xs) (auto simp: result_simps)

lemma checkR_eq_Inl:
  "checkR f xs = Inl e \<longleftrightarrow>
     (\<exists>ys x zs. xs = ys @ x # zs \<and> (\<forall>y \<in> set ys. f y = Inr ()) \<and> f x = Inl e)"
proof (induction xs)
  case Nil
  then show ?case by simp
next
  case (Cons x xs)
  show ?case
  proof (cases "f x")
    case (Inl d)
    then show ?thesis
      by (auto simp: Cons_eq_append_conv) force
  next
    case (Inr u)
    have "checkR f (x # xs) = Inl e \<longleftrightarrow> checkR f xs = Inl e"
      using Inr by simp
    also have "\<dots> \<longleftrightarrow> (\<exists>ys z zs. x # xs = ys @ z # zs \<and> (\<forall>y \<in> set ys. f y = Inr ()) \<and> f z = Inl e)"
      using Cons.IH Inr by (auto simp: Cons_eq_append_conv) (metis set_ConsD)+
    finally show ?thesis .
  qed
qed

lemma mapR_first_error:
  "i < length xs \<Longrightarrow> f (xs ! i) = Inl e \<Longrightarrow> (\<forall>j < i. \<exists>y. f (xs ! j) = Inr y) \<Longrightarrow> mapR f xs = Inl e"
proof (induction xs arbitrary: i)
  case (Cons x xs)
  show ?case
  proof (cases i)
    case (Suc k)
    obtain y where "f x = Inr y" using Cons.prems(3) Suc by auto
    moreover have "mapR f xs = Inl e"
      using Cons.prems Suc by (intro Cons.IH [of k]) auto
    ultimately show ?thesis by simp
  qed (use Cons.prems in simp)
qed simp

lemma mapR_Inl:
  "mapR f xs = Inl e \<Longrightarrow> \<exists>i < length xs. f (xs ! i) = Inl e \<and> (\<forall>j < i. \<exists>y. f (xs ! j) = Inr y)"
proof (induction xs)
  case (Cons x xs)
  show ?case
  proof (cases "f x")
    case (Inr y)
    then obtain i where "i < length xs" "f (xs ! i) = Inl e" "\<forall>j < i. \<exists>y. f (xs ! j) = Inr y"
      using Cons by (auto simp: result_simps)
    then show ?thesis using Inr by (intro exI [of _ "Suc i"]) (auto simp: less_Suc_eq_0_disj)
  qed (use Cons.prems in auto)
qed simp

section \<open>Python's stable sort\<close>

text \<open>
  \<open>sorted(xs)\<close> for a comparison \<open>lt\<close> (Python's \<open><\<close> on the keys): a stable sort.  Where
  \<open>lt\<close> is a strict weak order on the elements, as the locale below requires, every stable
  sort gives the same list, so the insertion sort here is CPython's result.
\<close>

fun py_insert :: "('a \<Rightarrow> 'a \<Rightarrow> bool) \<Rightarrow> 'a \<Rightarrow> 'a list \<Rightarrow> 'a list" where
  "py_insert lt x [] = [x]"
| "py_insert lt x (y # ys) = (if lt y x then y # py_insert lt x ys else x # y # ys)"

fun py_sorted :: "('a \<Rightarrow> 'a \<Rightarrow> bool) \<Rightarrow> 'a list \<Rightarrow> 'a list" where
  "py_sorted lt [] = []"
| "py_sorted lt (x # xs) = py_insert lt x (py_sorted lt xs)"

lemma mset_py_insert [simp]: "mset (py_insert lt x ys) = add_mset x (mset ys)"
  by (induction ys) auto

lemma mset_py_sorted [simp]: "mset (py_sorted lt xs) = mset xs"
  by (induction xs) auto

lemma set_py_sorted [simp]: "set (py_sorted lt xs) = set xs"
  by (metis mset_py_sorted set_mset_mset)

lemma length_py_sorted [simp]: "length (py_sorted lt xs) = length xs"
  by (metis mset_py_sorted size_mset)

lemma py_sorted_eq_Nil [simp]: "py_sorted lt xs = [] \<longleftrightarrow> xs = []"
  by (metis length_0_conv length_py_sorted)

lemma set_py_insert [simp]: "set (py_insert lt x ys) = insert x (set ys)"
  by (induction ys) auto

text \<open>\<open>min(xs, key=\<dots>)\<close>: the first element that no later one is less than.\<close>

fun min_from :: "('a \<Rightarrow> 'a \<Rightarrow> bool) \<Rightarrow> 'a \<Rightarrow> 'a list \<Rightarrow> 'a" where
  "min_from lt m [] = m"
| "min_from lt m (x # xs) = min_from lt (if lt x m then x else m) xs"

lemma min_from_mem: "min_from lt m xs \<in> insert m (set xs)"
proof (induction xs arbitrary: m)
  case (Cons x xs)
  then show ?case using Cons.IH [of x] Cons.IH [of m] by auto
qed simp

text \<open>
  The interface of a Python key comparison: on the values that satisfy \<open>ok\<close> (no NaN, say)
  it is a strict weak order.
\<close>

locale weak_order =
  fixes lt :: "'a \<Rightarrow> 'a \<Rightarrow> bool"
    and ok :: "'a \<Rightarrow> bool"
  assumes asym: "ok x \<Longrightarrow> ok y \<Longrightarrow> lt x y \<Longrightarrow> \<not> lt y x"
    and neg_trans: "ok x \<Longrightarrow> ok y \<Longrightarrow> ok z \<Longrightarrow> lt x z \<Longrightarrow> lt x y \<or> lt y z"
begin

lemma sorted_insert:
  assumes "sorted_wrt (\<lambda>a b. \<not> lt b a) ys" and "ok x" and "\<forall>y \<in> set ys. ok y"
  shows "sorted_wrt (\<lambda>a b. \<not> lt b a) (py_insert lt x ys)"
  using assms
proof (induction ys)
  case Nil
  then show ?case by simp
next
  case (Cons y ys)
  then have oks: "ok x" "ok y" "\<forall>z \<in> set ys. ok z" by auto
  show ?case
  proof (cases "lt y x")
    case True
    have "\<not> lt x y" using True oks asym by blast
    then show ?thesis using Cons True by auto
  next
    case False
    have "\<not> lt z x" if "z \<in> set ys" for z
      using that Cons.prems False oks neg_trans [of z y x] by auto
    then show ?thesis using Cons.prems False by auto
  qed
qed

lemma sorted_py_sorted:
  assumes "\<forall>x \<in> set xs. ok x"
  shows "sorted_wrt (\<lambda>a b. \<not> lt b a) (py_sorted lt xs)"
  using assms by (induction xs) (auto intro!: sorted_insert)

text \<open>Stability: the elements of one key class keep their order.\<close>

lemma filter_insert:
  assumes "ok x" and "\<forall>y \<in> set ys. ok y" and "ok k"
  shows "filter (\<lambda>y. \<not> lt k y \<and> \<not> lt y k) (py_insert lt x ys) =
         filter (\<lambda>y. \<not> lt k y \<and> \<not> lt y k) (x # ys)"
  using assms
proof (induction ys)
  case Nil
  then show ?case by simp
next
  case (Cons y ys)
  have "\<not> lt k x \<and> \<not> lt x k \<Longrightarrow> lt y x \<Longrightarrow> lt y k"
    using Cons.prems neg_trans [of y k x] by auto
  then show ?case using Cons by auto
qed

lemma stable_py_sorted:
  assumes "\<forall>x \<in> set xs. ok x" and "ok k"
  shows "filter (\<lambda>y. \<not> lt k y \<and> \<not> lt y k) (py_sorted lt xs) =
         filter (\<lambda>y. \<not> lt k y \<and> \<not> lt y k) xs"
  using assms by (induction xs) (auto simp: filter_insert)

lemma nth_py_sorted_mono:
  assumes "\<forall>x \<in> set xs. ok x" and "i \<le> j" and "j < length xs"
  shows "\<not> lt (py_sorted lt xs ! j) (py_sorted lt xs ! i)"
proof (cases "i = j")
  case True
  have "ok (py_sorted lt xs ! i)"
    using assms by (metis True length_py_sorted nth_mem set_py_sorted)
  then show ?thesis using True asym by blast
next
  case False
  then show ?thesis
    using sorted_py_sorted [OF assms(1)] assms(2,3)
    by (auto simp: sorted_wrt_iff_nth_less)
qed

lemma min_by_least:
  assumes "\<forall>x \<in> insert m (set xs). ok x" and "y \<in> insert m (set xs)"
  shows "\<not> lt y (min_from lt m xs)"
  using assms
proof (induction xs arbitrary: m y)
  case Nil
  then show ?case using asym by auto
next
  case (Cons x xs)
  let ?m = "if lt x m then x else m"
  have r: "min_from lt ?m xs \<in> insert ?m (set xs)" by (rule min_from_mem)
  have "\<forall>x \<in> insert ?m (set xs). ok x" using Cons.prems(1) by auto
  then have IH: "\<And>z. z \<in> insert ?m (set xs) \<Longrightarrow> \<not> lt z (min_from lt ?m xs)" by (rule Cons.IH)
  show ?case
  proof (cases "y \<in> insert ?m (set xs)")
    case True
    then show ?thesis using IH by simp
  next
    case False
    then have y: "ok y" "\<not> lt y ?m" "ok ?m" "ok (min_from lt ?m xs)"
      using Cons.prems r asym by (auto split: if_splits)
    then show ?thesis using IH [OF insertI1] neg_trans [of y ?m "min_from lt ?m xs"] by auto
  qed
qed

text \<open>Among equal keys \<open>min\<close> keeps the first.\<close>

lemma min_from_first:
  "\<forall>x \<in> insert m (set xs). ok x \<Longrightarrow>
     \<exists>ys zs. m # xs = ys @ min_from lt m xs # zs \<and> (\<forall>y \<in> set ys. lt (min_from lt m xs) y)"
proof (induction xs arbitrary: m)
  case (Cons x xs)
  let ?m = "if lt x m then x else m"
  obtain r where r: "r = min_from lt ?m xs" by blast
  have oks: "ok m" "ok x" "\<forall>z \<in> set xs. ok z" using Cons.prems by auto
  then have okr: "ok r" using min_from_mem [of lt ?m xs] r by (auto split: if_splits)
  obtain ys zs where d: "?m # xs = ys @ r # zs" "\<forall>y \<in> set ys. lt r y"
    using Cons.IH [of ?m] oks unfolding r by (cases "lt x m") auto
  have "\<exists>ys zs. m # x # xs = ys @ r # zs \<and> (\<forall>y \<in> set ys. lt r y)"
  proof (cases "lt x m")
    case True
    have "lt r m"
    proof (cases ys)
      case Nil
      then show ?thesis using d(1) True by auto
    next
      case (Cons y ys')
      then have "lt r x" using d True by auto
      then show ?thesis using neg_trans [of r m x] True asym oks okr by blast
    qed
    then show ?thesis using d True by (intro exI [of _ "m # ys"] exI [of _ zs]) auto
  next
    case False
    show ?thesis
    proof (cases ys)
      case Nil
      then show ?thesis using d(1) False by (intro exI [of _ "[]"] exI [of _ "x # xs"]) auto
    next
      case (Cons y ys')
      then have "lt r m" using d False by auto
      then have "lt r x" using neg_trans [of r x m] False oks okr by blast
      then show ?thesis using d Cons \<open>lt r m\<close> False by (intro exI [of _ "m # x # ys'"] exI [of _ zs]) auto
    qed
  qed
  then show ?case by (simp add: r)
qed (auto intro: exI [of _ "[]"])

lemma last_py_sorted_max:
  assumes "\<forall>x \<in> set xs. ok x" and "x \<in> set xs" and "i < length xs" and "i = length xs - 1"
  shows "\<not> lt (py_sorted lt xs ! i) x"
proof -
  obtain j where "j < length xs" "x = py_sorted lt xs ! j"
    using assms(2) by (metis in_set_conv_nth length_py_sorted set_py_sorted)
  then show ?thesis using nth_py_sorted_mono [OF assms(1), of j i] assms by auto
qed

end

text \<open>Tuples compare lexicographically; a key function pulls an order back.\<close>

definition lex_lt :: "('a \<Rightarrow> 'a \<Rightarrow> bool) \<Rightarrow> ('b \<Rightarrow> 'b \<Rightarrow> bool) \<Rightarrow> 'a \<times> 'b \<Rightarrow> 'a \<times> 'b \<Rightarrow> bool" where
  "lex_lt lt1 lt2 x y \<longleftrightarrow> lt1 (fst x) (fst y) \<or> \<not> lt1 (fst y) (fst x) \<and> lt2 (snd x) (snd y)"

lemma weak_order_lex:
  assumes "weak_order lt1 ok1" and "weak_order lt2 ok2"
  shows "weak_order (lex_lt lt1 lt2) (\<lambda>x. ok1 (fst x) \<and> ok2 (snd x))"
proof
  fix x y
  show "ok1 (fst x) \<and> ok2 (snd x) \<Longrightarrow> ok1 (fst y) \<and> ok2 (snd y) \<Longrightarrow> lex_lt lt1 lt2 x y \<Longrightarrow> \<not> lex_lt lt1 lt2 y x"
    using weak_order.asym [OF assms(1)] weak_order.asym [OF assms(2)] by (auto simp: lex_lt_def)
next
  fix x y z
  assume ok: "ok1 (fst x) \<and> ok2 (snd x)" "ok1 (fst y) \<and> ok2 (snd y)" "ok1 (fst z) \<and> ok2 (snd z)"
    and lt: "lex_lt lt1 lt2 x z"
  note n1 = weak_order.neg_trans [OF assms(1)] and a1 = weak_order.asym [OF assms(1)]
    and n2 = weak_order.neg_trans [OF assms(2)]
  show "lex_lt lt1 lt2 x y \<or> lex_lt lt1 lt2 y z"
  proof (cases "lt1 (fst x) (fst z)")
    case True
    then show ?thesis using n1 [of "fst x" "fst y" "fst z"] ok by (auto simp: lex_lt_def)
  next
    case False
    then have "\<not> lt1 (fst z) (fst x)" "lt2 (snd x) (snd z)" using lt by (auto simp: lex_lt_def)
    moreover have "lt2 (snd x) (snd y) \<or> lt2 (snd y) (snd z)" using n2 calculation ok by blast
    ultimately show ?thesis
      using n1 [of "fst z" "fst y" "fst x"] n1 [of "fst y" "fst x" "fst z"] n1 [of "fst z" "fst x" "fst y"]
        n1 [of "fst y" "fst z" "fst x"] n1 [of "fst x" "fst z" "fst y"] False ok
      unfolding lex_lt_def by blast
  qed
qed

lemma weak_order_key: "weak_order lt ok \<Longrightarrow> weak_order (\<lambda>x y. lt (f x) (f y)) (\<lambda>x. ok (f x))"
  unfolding weak_order_def by blast

lemma weak_order_cong:
  "weak_order lt ok \<Longrightarrow> (\<And>x y. ok x \<Longrightarrow> ok y \<Longrightarrow> lt' x y = lt x y) \<Longrightarrow> weak_order lt' ok"
  unfolding weak_order_def by blast

lemma weak_order_less: "weak_order ((<) :: 'a::linorder \<Rightarrow> 'a \<Rightarrow> bool) (\<lambda>_. True)"
  unfolding weak_order_def by (auto intro: less_trans)

section \<open>Association lists as Python dictionaries\<close>

text \<open>
  A Python dictionary keeps insertion order; assigning an existing key keeps its place.
  \<open>d.setdefault(k, []).append(v)\<close> (and \<open>defaultdict(list)\<close>) is \<open>dict_append\<close>.
\<close>

fun dict_set :: "('k \<times> 'v) list \<Rightarrow> 'k \<Rightarrow> 'v \<Rightarrow> ('k \<times> 'v) list" where
  "dict_set [] k v = [(k, v)]"
| "dict_set ((k', v') # d) k v = (if k' = k then (k, v) # d else (k', v') # dict_set d k v)"

fun dict_append :: "('k \<times> 'v list) list \<Rightarrow> 'k \<Rightarrow> 'v \<Rightarrow> ('k \<times> 'v list) list" where
  "dict_append [] k v = [(k, [v])]"
| "dict_append ((k', vs) # d) k v =
     (if k' = k then (k', vs @ [v]) # d else (k', vs) # dict_append d k v)"

definition group_by :: "('a \<Rightarrow> 'k) \<Rightarrow> 'a list \<Rightarrow> ('k \<times> 'a list) list" where
  "group_by key xs = foldl (\<lambda>d x. dict_append d (key x) x) [] xs"

lemma map_of_dict_set [simp]: "map_of (dict_set d k v) = (map_of d)(k \<mapsto> v)"
  by (induction d) auto

lemma keys_dict_set:
  "map fst (dict_set d k v) = map fst d @ (if k \<in> set (map fst d) then [] else [k])"
  by (induction d) (auto simp del: set_map simp: set_map [symmetric])

lemma keys_dict_append:
  "map fst (dict_append d k v) = map fst d @ (if k \<in> set (map fst d) then [] else [k])"
  by (induction d) (auto simp del: set_map simp: set_map [symmetric])

lemma map_of_dict_append:
  "map_of (dict_append d k v) =
     (map_of d)(k \<mapsto> (case map_of d k of None \<Rightarrow> [v] | Some vs \<Rightarrow> vs @ [v]))"
  by (induction d) (auto simp: fun_upd_twist)

lemma group_by_snoc: "group_by key (xs @ [x]) = dict_append (group_by key xs) (key x) x"
  by (simp add: group_by_def)

lemma group_by_Nil [simp]: "group_by key [] = []"
  by (simp add: group_by_def)

lemma set_keys_group_by: "set (map fst (group_by key xs)) = key ` set xs"
  by (induction xs rule: rev_induct) (auto simp: group_by_snoc keys_dict_append simp del: set_map)

lemma distinct_keys_group_by: "distinct (map fst (group_by key xs))"
  by (induction xs rule: rev_induct) (auto simp: group_by_snoc keys_dict_append simp del: set_map)

lemma map_of_group_by:
  "map_of (group_by key xs) k =
     (if k \<in> key ` set xs then Some (filter (\<lambda>x. key x = k) xs) else None)"
proof (induction xs rule: rev_induct)
  case Nil
  then show ?case by simp
next
  case (snoc x xs)
  have "filter (\<lambda>y. key y = k) xs = []" if "k \<notin> key ` set xs"
    using that by (auto simp: filter_empty_conv)
  then show ?case
    using snoc by (auto simp: group_by_snoc map_of_dict_append)
qed

end
