(* ===== verification/Rounding.thy ===== *)
theory Rounding
  imports Complex_Main Prelude
begin

text \<open>
  Rounding of exact rationals to a floating format, as CPython's two number types do it:
  \<open>float\<close> (binary64: base 2, 53 digits) and \<open>decimal.Decimal\<close> in the default context
  (base 10, 28 digits), both to nearest with ties to even.  The definitions compute; the
  locale \<open>rounding\<close> collects the laws of the format (monotonicity, exactness on the
  values of the format) that every numeric component uses.
\<close>

section \<open>Round half to even\<close>

definition rhe :: "rat \<Rightarrow> int" where
  "rhe x = (let f = \<lfloor>x\<rfloor>; r = x - of_int f in
     if r < 1/2 then f else if r > 1/2 then f + 1 else if even f then f else f + 1)"

lemma rhe_of_int [simp]: "rhe (of_int k) = k"
  by (simp add: rhe_def)

lemma rhe_numeral [simp]: "rhe 0 = 0" "rhe 1 = 1" "rhe (numeral n) = numeral n"
  using rhe_of_int [of 0] rhe_of_int [of 1] rhe_of_int [of "numeral n"] by simp_all

lemma rhe_bounds: "\<lfloor>x\<rfloor> \<le> rhe x" "rhe x \<le> \<lfloor>x\<rfloor> + 1"
  by (simp_all add: rhe_def Let_def)

lemma rhe_mono: "x \<le> y \<Longrightarrow> rhe x \<le> rhe y"
proof (cases "\<lfloor>x\<rfloor> = \<lfloor>y\<rfloor>")
  case True
  assume "x \<le> y"
  then show ?thesis using True by (auto simp: rhe_def Let_def)
next
  case False
  assume "x \<le> y"
  with False have "\<lfloor>x\<rfloor> + 1 \<le> \<lfloor>y\<rfloor>"
    using floor_mono [of x y] by linarith
  then show ?thesis using rhe_bounds [of x] rhe_bounds [of y] by linarith
qed

lemma rhe_ge: "of_int k \<le> x \<Longrightarrow> k \<le> rhe x"
  using rhe_mono [of "of_int k" x] by simp

lemma rhe_le: "x \<le> of_int k \<Longrightarrow> rhe x \<le> k"
  using rhe_mono [of x "of_int k"] by simp

lemma rhe_nonneg: "0 \<le> x \<Longrightarrow> 0 \<le> rhe x"
  using rhe_ge [of 0 x] by simp

lemma rhe_nearest: "\<bar>of_int (rhe x) - x\<bar> \<le> 1/2"
proof -
  have "of_int \<lfloor>x\<rfloor> \<le> x" "x < of_int \<lfloor>x\<rfloor> + 1" by linarith+
  then show ?thesis
    unfolding rhe_def Let_def by (auto simp: abs_le_iff; linarith)
qed

section \<open>The exponent of a rational\<close>

text \<open>The number of base-\<open>b\<close> digits of a positive integer.\<close>

function ndigits :: "int \<Rightarrow> int \<Rightarrow> int" where
  "ndigits b n = (if n \<le> 0 \<or> b \<le> 1 then 0 else 1 + ndigits b (n div b))"
  by pat_completeness auto
termination
proof (relation "measure (\<lambda>(b, n). nat n)")
  show "wf (measure (\<lambda>(b::int, n::int). nat n))" by simp
next
  fix b n :: int
  assume "\<not> (n \<le> 0 \<or> b \<le> 1)"
  then have "n div b < n" "0 < n" by (auto intro: int_div_less_self)
  then show "((b, n div b), b, n) \<in> measure (\<lambda>(b, n). nat n)" by simp
qed

declare ndigits.simps [simp del]

lemma ndigits_nonneg: "0 \<le> ndigits b n"
proof (induction b n rule: ndigits.induct)
  case (1 b n)
  show ?case
    by (subst ndigits.simps) (use "1.IH" in auto)
qed

lemma ndigits_bounds:
  assumes "2 \<le> b" and "0 < n"
  shows "0 < ndigits b n \<and> b ^ nat (ndigits b n - 1) \<le> n \<and> n < b ^ nat (ndigits b n)"
  using assms
proof (induction b n rule: ndigits.induct)
  case (1 b n)
  have unf: "ndigits b n = 1 + ndigits b (n div b)"
    using "1.prems" by (subst ndigits.simps) simp
  show ?case
  proof (cases "n < b")
    case True
    then have "ndigits b (n div b) = 0"
      using "1.prems" by (subst ndigits.simps) simp
    then show ?thesis using unf True "1.prems" by simp
  next
    case False
    let ?m = "n div b" let ?k = "nat (ndigits b (n div b))"
    have m: "0 < ?m" using False "1.prems" by (simp add: pos_imp_zdiv_pos_iff)
    have IH: "0 < ndigits b ?m" "b ^ (?k - 1) \<le> ?m" "?m < b ^ ?k"
      using "1.IH" "1.prems" m by (auto simp: nat_diff_distrib')
    have n: "n = b * ?m + n mod b" "0 \<le> n mod b" "n mod b < b"
      using "1.prems" by simp_all
    have "b ^ ?k = b * b ^ (?k - 1)"
      using IH(1) by (metis power_eq_if zero_less_nat_eq less_irrefl)
    also have "\<dots> \<le> b * ?m" using IH(2) "1.prems" by simp
    finally have lo: "b ^ ?k \<le> n" using n by linarith
    have "b * ?m + b \<le> b * b ^ ?k"
      using IH(3) "1.prems" by (metis distrib_left mult.right_neutral mult_left_mono
          add1_zle_eq order_trans zero_le_numeral)
    then have hi: "n < b ^ Suc ?k" using n unfolding power_Suc by linarith
    have "nat (ndigits b n) = Suc ?k" "nat (ndigits b n - 1) = ?k"
      using unf IH(1) by simp_all
    then show ?thesis using lo hi unf IH(1) by simp
  qed
qed

text \<open>\<open>rlog b x\<close> is the exponent \<open>e\<close> with \<open>b powi e \<le> x < b powi (e + 1)\<close>, for \<open>0 < x\<close>.\<close>

definition rlog :: "int \<Rightarrow> rat \<Rightarrow> int" where
  "rlog b x = (case quotient_of x of (n, d) \<Rightarrow>
     let e = ndigits b n - ndigits b d in if of_int b powi e \<le> x then e else e - 1)"

lemma rlog_bounds:
  assumes b: "2 \<le> b" and x: "0 < (x::rat)"
  shows "of_int b powi rlog b x \<le> x \<and> x < of_int b powi (rlog b x + 1)"
proof -
  obtain n d where q: "quotient_of x = (n, d)" by fastforce
  then have d: "0 < d" and xe: "x = of_int n / of_int d"
    using quotient_of_denom_pos quotient_of_div by blast+
  with x have n: "0 < n" by (simp add: zero_less_divide_iff)
  let ?p = "ndigits b n" let ?q = "ndigits b d"
  have B: "(0::rat) < of_int b" "of_int b \<noteq> (0::rat)" using b by simp_all
  have N: "0 < ?p" "b ^ nat (?p - 1) \<le> n" "n < b ^ nat ?p"
    and D: "0 < ?q" "b ^ nat (?q - 1) \<le> d" "d < b ^ nat ?q"
    using ndigits_bounds [OF b n] ndigits_bounds [OF b d] by auto
  have pw: "(of_int b :: rat) powi k = of_int (b ^ nat k)" if "0 \<le> k" for k
    using that by (simp add: power_int_def)
  have Nr: "(of_int b :: rat) powi (?p - 1) \<le> of_int n" "(of_int n :: rat) < of_int b powi ?p"
    using N by (simp_all add: pw del: of_int_power)
  have Dr: "(of_int b :: rat) powi (?q - 1) \<le> of_int d" "(of_int d :: rat) < of_int b powi ?q"
    using D by (simp_all add: pw del: of_int_power)
  have pos: "(0::rat) < of_int b powi k" for k using B by simp
  have hi: "x < of_int b powi (?p - ?q + 1)"
  proof -
    have "x < of_int b powi ?p / of_int b powi (?q - 1)"
      unfolding xe using Nr(2) Dr(1) d pos n
      by (intro frac_less) (auto intro: less_imp_le)
    also have "\<dots> = of_int b powi (?p - (?q - 1))"
      by (rule power_int_diff [symmetric]) (use B in simp)
    finally show ?thesis by (simp add: algebra_simps)
  qed
  have lo: "of_int b powi (?p - ?q - 1) \<le> x"
  proof -
    have "of_int b powi (?p - 1 - ?q) = of_int b powi (?p - 1) / (of_int b powi ?q :: rat)"
      by (rule power_int_diff) (use B in simp)
    also have "\<dots> \<le> x"
      unfolding xe using Nr(1) Dr(2) d pos n
      by (intro frac_le) (auto intro: less_imp_le)
    finally show ?thesis by (simp add: algebra_simps)
  qed
  show ?thesis
    using hi lo by (auto simp: rlog_def q Let_def not_le)
qed

section \<open>Rounding to a format\<close>

definition rexp :: "int \<Rightarrow> int \<Rightarrow> int \<Rightarrow> rat \<Rightarrow> int" where
  "rexp b p emin x = max (rlog b x - p + 1) emin"

definition rnd :: "int \<Rightarrow> int \<Rightarrow> int \<Rightarrow> rat \<Rightarrow> rat" where
  "rnd b p emin x =
     (if x \<le> 0 then 0
      else let u = of_int b powi rexp b p emin x in of_int (rhe (x / u)) * u)"

text \<open>The values of the format: at most \<open>p\<close> digits above the least exponent \<open>emin\<close>.\<close>

definition representable :: "int \<Rightarrow> int \<Rightarrow> int \<Rightarrow> rat \<Rightarrow> bool" where
  "representable b p emin x \<longleftrightarrow>
     (\<exists>m e. 0 \<le> m \<and> m < b ^ nat p \<and> emin \<le> e \<and> x = of_int m * of_int b powi e)"

locale rounding =
  fixes b p emin :: int
  assumes base: "2 \<le> b" and digits: "1 \<le> p"
begin

lemma B: "(1::rat) < of_int b" "(0::rat) < of_int b" "of_int b \<noteq> (0::rat)"
  using base by simp_all

lemma powi_pos: "(0::rat) < of_int b powi k"
  using B by simp

lemma powi_mono: "i \<le> j \<Longrightarrow> (of_int b :: rat) powi i \<le> of_int b powi j"
  using B by (intro power_int_increasing) simp_all

lemma powi_less: "(of_int b :: rat) powi i < of_int b powi j \<longleftrightarrow> i < j"
  using B power_int_strict_increasing [of i j "of_int b :: rat"] powi_mono [of j i]
  by (meson not_le)

lemma powi_int: "0 \<le> k \<Longrightarrow> (of_int b :: rat) powi k = of_int (b ^ nat k)"
  by (simp add: power_int_def)

lemma powi_ratio: "(of_int b :: rat) powi i / of_int b powi j = of_int b powi (i - j)"
  using B by (simp add: power_int_diff)

lemma rlog_mono: "0 < x \<Longrightarrow> x \<le> y \<Longrightarrow> rlog b x \<le> rlog b y"
proof -
  assume "0 < x" "x \<le> y"
  then have "(of_int b :: rat) powi rlog b x < of_int b powi (rlog b y + 1)"
    using rlog_bounds [OF base, of x] rlog_bounds [OF base, of y] by fastforce
  then show ?thesis by (simp add: powi_less)
qed

lemma rlog_less: "0 < x \<Longrightarrow> x < of_int b powi k \<Longrightarrow> rlog b x < k"
  using rlog_bounds [OF base, of x] powi_less [of "rlog b x" k] by fastforce

lemma rnd_nonneg: "0 \<le> rnd b p emin x"
  using powi_pos [THEN less_imp_le]
  by (auto simp: rnd_def Let_def intro!: rhe_nonneg mult_nonneg_nonneg divide_nonneg_nonneg)

lemma rnd_0 [simp]: "rnd b p emin 0 = 0"
  by (simp add: rnd_def)

lemma rnd_pos: "0 < x \<Longrightarrow> rnd b p emin x =
    of_int (rhe (x / of_int b powi rexp b p emin x)) * of_int b powi rexp b p emin x"
  by (simp add: rnd_def Let_def)

lemma rnd_le_powi:
  assumes "0 < x" and "x \<le> of_int b powi k" and "rexp b p emin x \<le> k"
  shows "rnd b p emin x \<le> of_int b powi k"
proof -
  let ?e = "rexp b p emin x"
  have "x / of_int b powi ?e \<le> of_int b powi (k - ?e)"
    using assms(2) powi_pos [of ?e] by (simp add: powi_ratio [symmetric] divide_right_mono)
  also have "\<dots> = of_int (b ^ nat (k - ?e))" using assms(3) by (simp add: powi_int)
  finally have "rhe (x / of_int b powi ?e) \<le> b ^ nat (k - ?e)" by (rule rhe_le)
  then have "of_int (rhe (x / of_int b powi ?e)) \<le> (of_int b :: rat) powi (k - ?e)"
    using assms(3) by (simp add: powi_int del: of_int_power)
  then have "rnd b p emin x \<le> of_int b powi (k - ?e) * of_int b powi ?e"
    using assms(1) powi_pos [of ?e] by (simp add: rnd_pos mult_right_mono)
  then show ?thesis using B by (simp flip: power_int_add)
qed

lemma rnd_ge_powi:
  assumes "0 < x" and "of_int b powi k \<le> x" and "rexp b p emin x \<le> k"
  shows "of_int b powi k \<le> rnd b p emin x"
proof -
  let ?e = "rexp b p emin x"
  have "of_int (b ^ nat (k - ?e)) = (of_int b :: rat) powi (k - ?e)"
    using assms(3) by (simp add: powi_int)
  also have "\<dots> \<le> x / of_int b powi ?e"
    using assms(2) powi_pos [of ?e] by (simp add: powi_ratio [symmetric] divide_right_mono)
  finally have "b ^ nat (k - ?e) \<le> rhe (x / of_int b powi ?e)" by (rule rhe_ge)
  then have "(of_int b :: rat) powi (k - ?e) \<le> of_int (rhe (x / of_int b powi ?e))"
    using assms(3) by (simp add: powi_int del: of_int_power)
  then have "of_int b powi (k - ?e) * of_int b powi ?e \<le> rnd b p emin x"
    using assms(1) powi_pos [of ?e] by (simp add: rnd_pos mult_right_mono)
  then show ?thesis using B by (simp flip: power_int_add)
qed

text \<open>Rounding is monotone.\<close>

lemma rnd_mono:
  assumes "x \<le> y"
  shows "rnd b p emin x \<le> rnd b p emin y"
proof (cases "0 < x")
  case False
  then show ?thesis using rnd_nonneg [of y] by (simp add: rnd_def)
next
  case True
  then have y: "0 < y" using assms by simp
  let ?ex = "rexp b p emin x" let ?ey = "rexp b p emin y"
  have le: "?ex \<le> ?ey" using rlog_mono [OF True assms] by (auto simp: rexp_def)
  show ?thesis
  proof (cases "?ex = ?ey")
    case eq: True
    have "rhe (x / of_int b powi ?ey) \<le> rhe (y / of_int b powi ?ey)"
      using assms powi_pos [of ?ey] by (intro rhe_mono) (simp add: divide_right_mono)
    then show ?thesis
      using True y eq powi_pos [of ?ey] by (simp add: rnd_pos mult_right_mono)
  next
    case False
    with le have "?ex < ?ey" by simp
    then have ey: "?ey = rlog b y - p + 1" "rlog b x < rlog b y"
      by (auto simp: rexp_def)
    have "x \<le> of_int b powi rlog b y"
    proof -
      have "x < of_int b powi (rlog b x + 1)" using rlog_bounds [OF base True] by simp
      also have "\<dots> \<le> of_int b powi rlog b y" using ey by (intro powi_mono) simp
      finally show ?thesis by simp
    qed
    then have "rnd b p emin x \<le> of_int b powi rlog b y"
      using True ey \<open>?ex < ?ey\<close> digits by (intro rnd_le_powi) auto
    also have "\<dots> \<le> rnd b p emin y"
      using y ey digits rlog_bounds [OF base y] by (intro rnd_ge_powi) auto
    finally show ?thesis .
  qed
qed

text \<open>A multiple of \<open>b powi e\<close> below \<open>b powi (p + e)\<close> is in the format and is not changed.\<close>

lemma rnd_exact:
  assumes "0 \<le> m" and "of_int m * of_int b powi e < (of_int b :: rat) powi (p + e)"
    and "emin \<le> e"
  shows "rnd b p emin (of_int m * of_int b powi e) = of_int m * of_int b powi e"
proof (cases "m = 0")
  case True
  then show ?thesis by simp
next
  case False
  let ?x = "of_int m * (of_int b :: rat) powi e"
  have pos: "0 < ?x" using assms(1) False powi_pos [of e] by simp
  let ?r = "rexp b p emin ?x"
  have "rlog b ?x < p + e" using rlog_less [OF pos assms(2)] .
  then have le: "?r \<le> e" using assms(3) by (auto simp: rexp_def)
  have "?x / of_int b powi ?r = of_int m * of_int b powi (e - ?r)"
    by (simp add: powi_ratio [symmetric])
  also have "\<dots> = of_int (m * b ^ nat (e - ?r))" using le by (simp add: powi_int)
  finally have "rhe (?x / of_int b powi ?r) = m * b ^ nat (e - ?r)" by (simp only: rhe_of_int)
  then have "rnd b p emin ?x = of_int (m * b ^ nat (e - ?r)) * of_int b powi ?r"
    using pos by (simp only: rnd_pos)
  also have "\<dots> = of_int m * (of_int b powi (e - ?r) * of_int b powi ?r)"
    using le by (simp add: powi_int)
  also have "\<dots> = ?x" using B by (simp flip: power_int_add)
  finally show ?thesis .
qed

lemma rnd_representable: "representable b p emin x \<Longrightarrow> rnd b p emin x = x"
proof -
  assume "representable b p emin x"
  then obtain m e where x: "0 \<le> m" "m < b ^ nat p" "emin \<le> e" "x = of_int m * of_int b powi e"
    by (auto simp: representable_def)
  have "of_int m < (of_int b :: rat) powi p"
    using x(2) digits by (simp add: powi_int del: of_int_power)
  then have "of_int m * of_int b powi e < (of_int b :: rat) powi p * of_int b powi e"
    using powi_pos [of e] by simp
  then have "of_int m * of_int b powi e < (of_int b :: rat) powi (p + e)"
    using B by (simp add: power_int_add)
  then show ?thesis using rnd_exact x by simp
qed

lemma rnd_int: "0 \<le> m \<Longrightarrow> m < b ^ nat p \<Longrightarrow> emin \<le> 0 \<Longrightarrow> rnd b p emin (of_int m) = of_int m"
  by (rule rnd_representable) (force simp: representable_def intro: exI [of _ "0::int"])

lemma rnd_le_int: "x \<le> of_int m \<Longrightarrow> 0 \<le> m \<Longrightarrow> m < b ^ nat p \<Longrightarrow> emin \<le> 0 \<Longrightarrow>
    rnd b p emin x \<le> of_int m"
  using rnd_mono [of x "of_int m"] by (simp add: rnd_int)

lemma rnd_ge_int: "of_int m \<le> x \<Longrightarrow> 0 \<le> m \<Longrightarrow> m < b ^ nat p \<Longrightarrow> emin \<le> 0 \<Longrightarrow>
    of_int m \<le> rnd b p emin x"
  using rnd_mono [of "of_int m" x] by (simp add: rnd_int)

lemma rnd_ge_power: "of_int b powi k \<le> x \<Longrightarrow> emin \<le> k \<Longrightarrow> of_int b powi k \<le> rnd b p emin x"
proof -
  assume a: "of_int b powi k \<le> x" "emin \<le> k"
  have "of_int 1 * of_int b powi k < (of_int b :: rat) powi (p + k)"
    using digits powi_less [of k "p + k"] by simp
  then have "rnd b p emin (of_int b powi k) = of_int b powi k"
    using rnd_exact [of 1 k] a by simp
  then show ?thesis using rnd_mono [OF a(1)] by simp
qed

text \<open>Rounding lands in the format, so rounding twice is rounding once.\<close>

lemma rhe_scaled_le:
  assumes "0 < x"
  shows "rhe (x / of_int b powi rexp b p emin x) \<le> b ^ nat p"
proof -
  let ?e = "rexp b p emin x"
  have "x < of_int b powi (rlog b x + 1)" using rlog_bounds [OF base assms] by simp
  also have "\<dots> \<le> of_int b powi (p + ?e)" by (rule powi_mono) (auto simp: rexp_def)
  finally have "x / of_int b powi ?e \<le> of_int b powi (p + ?e) / of_int b powi ?e"
    using powi_pos [of ?e] by (simp add: divide_right_mono)
  also have "\<dots> = of_int (b ^ nat p)" using digits by (simp add: powi_ratio powi_int)
  finally show ?thesis by (rule rhe_le)
qed

lemma rnd_in_format: "representable b p emin (rnd b p emin x)"
proof (cases "0 < x")
  case False
  then show ?thesis using base by (auto simp: representable_def rnd_def intro!: exI [of _ "0::int"] exI [of _ emin])
next
  case True
  let ?e = "rexp b p emin x" let ?n = "rhe (x / of_int b powi ?e)"
  have n: "0 \<le> ?n" "?n \<le> b ^ nat p"
    using True powi_pos [of ?e] rhe_scaled_le [OF True] by (auto intro!: rhe_nonneg)
  have e: "emin \<le> ?e" by (simp add: rexp_def)
  show ?thesis
  proof (cases "?n = b ^ nat p")
    case False
    then show ?thesis
      unfolding representable_def using True n e
      by (intro exI [of _ ?n] exI [of _ ?e]) (simp add: rnd_pos)
  next
    case eq: True
    have "rnd b p emin x = of_int b powi p * of_int b powi ?e"
      using True eq digits by (simp add: rnd_pos powi_int)
    also have "\<dots> = of_int 1 * of_int b powi (p + ?e)" using B by (simp add: power_int_add)
    finally have "rnd b p emin x = of_int 1 * of_int b powi (p + ?e)" .
    moreover have "1 < b ^ nat p" using base digits by (intro one_less_power) auto
    ultimately show ?thesis
      unfolding representable_def using e digits
      by (intro exI [of _ 1] exI [of _ "p + ?e"]) simp
  qed
qed

lemma rnd_idem [simp]: "rnd b p emin (rnd b p emin x) = rnd b p emin x"
  by (rule rnd_representable [OF rnd_in_format])

end

section \<open>Rounding a fraction with integers\<close>

text \<open>
  The same rounding as an integer algorithm, which is what the number types run: the
  fraction \<open>n / d\<close> (\<open>0 \<le> n\<close>, \<open>0 < d\<close>) to a mantissa and an exponent.
\<close>

definition rhe_div :: "int \<Rightarrow> int \<Rightarrow> int" where
  "rhe_div n d = (let q = n div d; r = n mod d in
     if 2 * r < d then q else if d < 2 * r then q + 1 else if even q then q else q + 1)"

text \<open>\<open>x * b ^ e\<close> for a possibly negative \<open>e\<close>, as a fraction.\<close>

definition frac_of :: "int \<Rightarrow> int \<Rightarrow> int \<Rightarrow> int \<times> int" where
  "frac_of b m e = (if 0 \<le> e then (m * b ^ nat e, 1) else (m, b ^ nat (- e)))"

definition frac_log :: "int \<Rightarrow> int \<Rightarrow> int \<Rightarrow> int" where
  "frac_log b n d = (let e = ndigits b n - ndigits b d in
     if (if 0 \<le> e then d * b ^ nat e \<le> n else d \<le> n * b ^ nat (- e)) then e else e - 1)"

definition round_frac :: "int \<Rightarrow> int \<Rightarrow> int \<Rightarrow> int \<Rightarrow> int \<Rightarrow> int \<times> int" where
  "round_frac b p emin n d =
     (if n = 0 then (0, 0)
      else let e = max (frac_log b n d - p + 1) emin;
               m = (if 0 \<le> e then rhe_div n (d * b ^ nat e) else rhe_div (n * b ^ nat (- e)) d)
           in if m = b ^ nat p then (b ^ nat (p - 1), e + 1) else (m, e))"

lemma rhe_div_rhe:
  assumes "0 < d"
  shows "rhe_div n d = rhe (of_int n / of_int d)"
proof -
  have f: "\<lfloor>(of_int n :: rat) / of_int d\<rfloor> = n div d" by (simp add: floor_divide_of_int_eq)
  have "(of_int n :: rat) = of_int (n div d * d + n mod d)" by simp
  then have "(of_int n :: rat) = of_int (n div d) * of_int d + of_int (n mod d)"
    by (simp only: of_int_add of_int_mult)
  then have r: "(of_int n :: rat) / of_int d - of_int (n div d) = of_int (n mod d) / of_int d"
    using assms by (simp add: field_simps)
  have c: "(of_int (n mod d) :: rat) / of_int d < 1/2 \<longleftrightarrow> 2 * (n mod d) < d"
    "1/2 < (of_int (n mod d) :: rat) / of_int d \<longleftrightarrow> d < 2 * (n mod d)"
  proof -
    have "(of_int (n mod d) :: rat) / of_int d < 1/2 \<longleftrightarrow> of_int (2 * (n mod d)) < (of_int d :: rat)"
      using assms by (simp add: field_simps)
    then show "(of_int (n mod d) :: rat) / of_int d < 1/2 \<longleftrightarrow> 2 * (n mod d) < d"
      by (simp only: of_int_less_iff)
    have "1/2 < (of_int (n mod d) :: rat) / of_int d \<longleftrightarrow> (of_int d :: rat) < of_int (2 * (n mod d))"
      using assms by (simp add: field_simps)
    then show "1/2 < (of_int (n mod d) :: rat) / of_int d \<longleftrightarrow> d < 2 * (n mod d)"
      by (simp only: of_int_less_iff)
  qed
  show ?thesis by (simp only: rhe_div_def rhe_def Let_def f r c)
qed

context rounding
begin

lemma frac_of_value:
  "frac_of b m e = (n, d) \<Longrightarrow> 0 < d \<and> (of_int n :: rat) / of_int d = of_int m * of_int b powi e"
  using base B by (auto simp: frac_of_def power_int_def divide_inverse power_inverse split: if_splits)

lemma rlog_unique:
  assumes "0 < x" and "of_int b powi l \<le> x" and "x < of_int b powi (l + 1)"
  shows "rlog b x = l"
proof -
  have "(of_int b :: rat) powi l < of_int b powi (rlog b x + 1)"
    and "(of_int b :: rat) powi rlog b x < of_int b powi (l + 1)"
    using assms rlog_bounds [OF base assms(1)] by linarith+
  then show ?thesis by (simp add: powi_less)
qed

lemma frac_ge_powi:
  assumes "0 < d"
  shows "(of_int b :: rat) powi e \<le> of_int n / of_int d \<longleftrightarrow>
    (if 0 \<le> e then d * b ^ nat e \<le> n else d \<le> n * b ^ nat (- e))"
proof -
  have D: "(0::rat) < of_int d" using assms by simp
  show ?thesis
  proof (cases "0 \<le> e")
    case True
    have "(of_int b :: rat) powi e \<le> of_int n / of_int d \<longleftrightarrow>
        (of_int (d * b ^ nat e) :: rat) \<le> of_int n"
      using D True by (simp add: powi_int pos_le_divide_eq mult.commute)
    then show ?thesis using True by (simp only: of_int_le_iff if_True)
  next
    case False
    have p: "(0::rat) < of_int b ^ nat (- e)" using B by simp
    have "(of_int b :: rat) powi e = 1 / of_int b ^ nat (- e)"
      using False by (simp add: power_int_def divide_inverse power_inverse)
    then have "(of_int b :: rat) powi e \<le> of_int n / of_int d \<longleftrightarrow>
        (of_int d :: rat) \<le> of_int (n * b ^ nat (- e))"
      using D p by (simp add: field_simps)
    then show ?thesis using False by (simp only: of_int_le_iff if_False)
  qed
qed

lemma frac_log_rlog:
  assumes n: "0 < n" and d: "0 < d"
  shows "frac_log b n d = rlog b (of_int n / of_int d)"
proof -
  let ?p = "ndigits b n" let ?q = "ndigits b d" let ?x = "(of_int n :: rat) / of_int d"
  have N: "0 < ?p" "b ^ nat (?p - 1) \<le> n" "n < b ^ nat ?p"
    and D: "0 < ?q" "b ^ nat (?q - 1) \<le> d" "d < b ^ nat ?q"
    using ndigits_bounds [OF base n] ndigits_bounds [OF base d] by auto
  have Nr: "(of_int b :: rat) powi (?p - 1) \<le> of_int n" "(of_int n :: rat) < of_int b powi ?p"
    using N by (simp_all add: powi_int del: of_int_power)
  have Dr: "(of_int b :: rat) powi (?q - 1) \<le> of_int d" "(of_int d :: rat) < of_int b powi ?q"
    using D by (simp_all add: powi_int del: of_int_power)
  have "?x < of_int b powi ?p / of_int b powi (?q - 1)"
    using Nr(2) Dr(1) d n powi_pos by (intro frac_less) (auto intro: less_imp_le)
  then have hi: "?x < of_int b powi (?p - ?q + 1)" by (simp add: powi_ratio algebra_simps)
  have "of_int b powi (?p - 1) / of_int b powi ?q \<le> ?x"
    using Nr(1) Dr(2) d n powi_pos by (intro frac_le) (auto intro: less_imp_le)
  then have lo: "of_int b powi (?p - ?q - 1) \<le> ?x" by (simp add: powi_ratio algebra_simps)
  have x: "0 < ?x" using n d by simp
  show ?thesis
    unfolding frac_log_def Let_def frac_ge_powi [OF d, symmetric]
    using hi lo rlog_unique [OF x] by (auto simp: not_le)
qed

text \<open>The integer algorithm refines the rounding of rationals.\<close>

lemma round_frac_rnd:
  assumes n: "0 \<le> n" and d: "0 < d" and r: "round_frac b p emin n d = (m, e)"
  shows "0 \<le> m \<and> m < b ^ nat p \<and> of_int m * of_int b powi e = rnd b p emin (of_int n / of_int d)"
proof (cases "n = 0")
  case True
  then show ?thesis using r base by (auto simp: round_frac_def)
next
  case False
  let ?x = "(of_int n :: rat) / of_int d" let ?e = "rexp b p emin ?x"
  have x: "0 < ?x" using n d False by simp
  have e: "max (frac_log b n d - p + 1) emin = ?e"
    using frac_log_rlog [of n d] n d False by (simp add: rexp_def)
  have m: "(if 0 \<le> ?e then rhe_div n (d * b ^ nat ?e) else rhe_div (n * b ^ nat (- ?e)) d) =
      rhe (?x / of_int b powi ?e)"
    using d base by (auto simp: rhe_div_rhe power_int_def divide_inverse power_inverse ac_simps)
  have b0: "0 \<le> rhe (?x / of_int b powi ?e)" using x powi_pos [of ?e] by (intro rhe_nonneg divide_nonneg_nonneg less_imp_le)
  have le: "rhe (?x / of_int b powi ?e) \<le> b ^ nat p" by (rule rhe_scaled_le [OF x])
  have rr: "rnd b p emin ?x = of_int (rhe (?x / of_int b powi ?e)) * of_int b powi ?e"
    by (rule rnd_pos [OF x])
  have up: "of_int (b ^ nat (p - 1)) * of_int b powi (?e + 1) = (of_int (b ^ nat p) :: rat) * of_int b powi ?e"
  proof -
    have "of_int (b ^ nat (p - 1)) * of_int b powi (?e + 1) = (of_int b :: rat) powi (p - 1) * of_int b powi (?e + 1)"
      using digits by (simp add: powi_int)
    also have "\<dots> = of_int b powi (p - 1 + (?e + 1))"
      by (rule power_int_add [symmetric]) (use B in simp)
    also have "\<dots> = of_int b powi (p + ?e)" by (simp add: algebra_simps)
    also have "\<dots> = of_int b powi p * of_int b powi ?e"
      by (rule power_int_add) (use B in simp)
    finally show ?thesis using digits by (simp add: powi_int)
  qed
  have lt: "b ^ nat (p - 1) < b ^ nat p" using base digits by (intro power_strict_increasing) auto
  show ?thesis
    using r False b0 le rr up lt base unfolding round_frac_def Let_def e m
    by (auto split: if_splits)
qed

end

end
