(* ===== verification/Py_Text.thy ===== *)
theory Py_Text
  imports Prelude "HOL-Library.Sublist"
begin

text \<open>
  The operations of Python's \<open>str\<close> and \<open>int\<close> that the tools use, on ASCII text (a character
  is a \<open>char\<close>): stripping, case mapping, joining, replacing, \<open>in\<close>, comparison, the literal
  syntax of \<open>int(text)\<close>, \<open>int(text, 0)\<close> and \<open>int(text, 16)\<close> as CPython's
  \<open>PyLong_FromString\<close> reads it, and the decimal and hexadecimal printing of integers, with
  the round trip between printing and parsing.
\<close>

section \<open>Characters\<close>

definition ccode :: "char \<Rightarrow> int" where
  "ccode c = of_char c"

definition dchar :: "int \<Rightarrow> char" where
  "dchar d = ''0123456789'' ! nat d"

definition is_digit :: "char \<Rightarrow> bool" where
  "is_digit c \<longleftrightarrow> 48 \<le> ccode c \<and> ccode c \<le> 57"

text \<open>\<open>str.isspace\<close> on ASCII: blank, tab to carriage return, and the four separators.\<close>

definition is_space :: "char \<Rightarrow> bool" where
  "is_space c \<longleftrightarrow> ccode c = 32 \<or> (9 \<le> ccode c \<and> ccode c \<le> 13) \<or> (28 \<le> ccode c \<and> ccode c \<le> 31)"

definition lower_char :: "char \<Rightarrow> char" where
  "lower_char c = (if 65 \<le> ccode c \<and> ccode c \<le> 90
     then (case c of Char b0 b1 b2 b3 b4 b5 b6 b7 \<Rightarrow> Char b0 b1 b2 b3 b4 True b6 b7) else c)"

definition upper_char :: "char \<Rightarrow> char" where
  "upper_char c = (if 97 \<le> ccode c \<and> ccode c \<le> 122
     then (case c of Char b0 b1 b2 b3 b4 b5 b6 b7 \<Rightarrow> Char b0 b1 b2 b3 b4 False b6 b7) else c)"

text \<open>The same tests on the bits of a character, for evaluation.\<close>

lemma is_digit_code [code]:
  "is_digit (Char b0 b1 b2 b3 b4 b5 b6 b7) \<longleftrightarrow> \<not> b7 \<and> \<not> b6 \<and> b5 \<and> b4 \<and> (\<not> b3 \<or> \<not> b2 \<and> \<not> b1)"
  by (cases b0; cases b1; cases b2; cases b3; cases b4; cases b5; cases b6; cases b7)
     (simp_all add: is_digit_def ccode_def of_char_def)

lemma is_space_code [code]:
  "is_space (Char b0 b1 b2 b3 b4 b5 b6 b7) \<longleftrightarrow> \<not> b7 \<and> \<not> b6 \<and>
     (if b5 then \<not> b4 \<and> \<not> b3 \<and> \<not> b2 \<and> \<not> b1 \<and> \<not> b0
      else b3 \<and> (if b4 then b2 else (if b2 then \<not> b1 else b1 \<or> b0)))"
  by (cases b0; cases b1; cases b2; cases b3; cases b4; cases b5; cases b6; cases b7)
     (simp_all add: is_space_def ccode_def of_char_def)

lemma lower_char_code [code]:
  "lower_char (Char b0 b1 b2 b3 b4 b5 b6 b7) = Char b0 b1 b2 b3 b4
     (b5 \<or> \<not> b7 \<and> b6 \<and> (b0 \<or> b1 \<or> b2 \<or> b3 \<or> b4) \<and> \<not> (b4 \<and> b3 \<and> (b2 \<or> b1 \<and> b0))) b6 b7"
  by (cases b0; cases b1; cases b2; cases b3; cases b4; cases b5; cases b6; cases b7)
     (simp_all add: lower_char_def ccode_def of_char_def)

definition py_lower :: "string \<Rightarrow> string" where
  "py_lower = map lower_char"

definition py_upper :: "string \<Rightarrow> string" where
  "py_upper = map upper_char"

definition py_strip :: "string \<Rightarrow> string" where
  "py_strip s = rev (dropWhile is_space (rev (dropWhile is_space s)))"

fun py_join :: "string \<Rightarrow> string list \<Rightarrow> string" where
  "py_join sep [] = []"
| "py_join sep [x] = x"
| "py_join sep (x # y # ys) = x @ sep @ py_join sep (y # ys)"

text \<open>\<open>s.replace(c, r)\<close> for a one-character \<open>c\<close>.\<close>

definition py_replace1 :: "char \<Rightarrow> string \<Rightarrow> string \<Rightarrow> string" where
  "py_replace1 c r s = concat (map (\<lambda>x. if x = c then r else [x]) s)"

fun starts_with :: "string \<Rightarrow> string \<Rightarrow> bool" where
  "starts_with [] s = True"
| "starts_with (p # ps) [] = False"
| "starts_with (p # ps) (c # cs) = (p = c \<and> starts_with ps cs)"

text \<open>\<open>sub in s\<close>.\<close>

fun py_in :: "string \<Rightarrow> string \<Rightarrow> bool" where
  "py_in sub [] = (sub = [])"
| "py_in sub (c # cs) = (starts_with sub (c # cs) \<or> py_in sub cs)"

text \<open>\<open>s < t\<close> on strings: code points, lexicographically.\<close>

fun str_lt :: "string \<Rightarrow> string \<Rightarrow> bool" where
  "str_lt s [] = False"
| "str_lt [] (d # ds) = True"
| "str_lt (c # cs) (d # ds) = (ccode c < ccode d \<or> (c = d \<and> str_lt cs ds))"

lemma starts_with_prefix: "starts_with p s \<longleftrightarrow> prefix p s"
  by (induction p s rule: starts_with.induct) auto

lemma py_in_sublist: "py_in sub s \<longleftrightarrow> sublist sub s"
  by (induction sub s rule: py_in.induct) (auto simp: starts_with_prefix sublist_Cons_right)

lemma ccode_range: "0 \<le> ccode c" "ccode c < 256"
  by (cases c; simp add: ccode_def of_char_def)+

lemma ccode_inj: "ccode c = ccode d \<longleftrightarrow> c = d"
  by (simp add: ccode_def)

lemma ccode_dchar: "0 \<le> d \<Longrightarrow> d \<le> 9 \<Longrightarrow> ccode (dchar d) = 48 + d"
proof -
  assume "0 \<le> d" "d \<le> 9"
  then have "d \<in> {0, 1, 2, 3, 4, 5, 6, 7, 8, 9}"
    unfolding insert_iff empty_iff by presburger
  then show ?thesis by (elim insertE emptyE) (simp_all add: dchar_def ccode_def)
qed

lemma is_digit_dchar: "0 \<le> d \<Longrightarrow> d \<le> 9 \<Longrightarrow> is_digit (dchar d)"
  by (simp add: is_digit_def ccode_dchar)

lemma digit_not_space: "is_digit c \<Longrightarrow> \<not> is_space c"
  by (auto simp: is_digit_def is_space_def)

lemma str_lt_asym: "str_lt s t \<Longrightarrow> \<not> str_lt t s"
  by (induction s t rule: str_lt.induct) auto

lemma str_lt_trichotomy: "str_lt s t \<or> s = t \<or> str_lt t s"
proof (induction s t rule: str_lt.induct)
  case (1 s)
  then show ?case by (cases s) simp_all
next
  case (3 c cs d ds)
  then show ?case using ccode_inj [of c d] by (cases "c = d") auto
qed simp

lemma str_lt_trans: "str_lt s t \<Longrightarrow> str_lt t u \<Longrightarrow> str_lt s u"
proof (induction s t arbitrary: u rule: str_lt.induct)
  case (2 d ds)
  then show ?case by (cases u) auto
next
  case (3 c cs d ds)
  then show ?case by (cases u) auto
qed simp

lemma str_lt_neg_trans: "str_lt x z \<Longrightarrow> str_lt x y \<or> str_lt y z"
  using str_lt_trichotomy str_lt_trans by metis

lemma py_strip_id: "s = [] \<or> (\<not> is_space (hd s) \<and> \<not> is_space (last s)) \<Longrightarrow> py_strip s = s"
proof (cases "s = []")
  case False
  assume "s = [] \<or> (\<not> is_space (hd s) \<and> \<not> is_space (last s))"
  with False have "dropWhile is_space s = s" "dropWhile is_space (rev s) = rev s"
    by (simp_all add: dropWhile_eq_self_iff hd_rev)
  then show ?thesis by (simp add: py_strip_def)
qed (simp add: py_strip_def)

section \<open>Printing integers\<close>

function dec_digits :: "int \<Rightarrow> string" where
  "dec_digits n = (if n < 10 then [dchar n] else dec_digits (n div 10) @ [dchar (n mod 10)])"
  by pat_completeness auto
termination
  by (relation "measure nat") auto

declare dec_digits.simps [simp del]

definition str_int :: "int \<Rightarrow> string" where
  "str_int n = (if n < 0 then ''-'' @ dec_digits (- n) else dec_digits n)"

definition str_nat :: "nat \<Rightarrow> string" where
  "str_nat n = str_int (int n)"

text \<open>The value of a string of decimal digits.\<close>

definition dval :: "string \<Rightarrow> int" where
  "dval s = foldl (\<lambda>a c. 10 * a + (ccode c - 48)) 0 s"

lemma dval_Nil [simp]: "dval [] = 0"
  by (simp add: dval_def)

lemma dval_snoc [simp]: "dval (s @ [c]) = 10 * dval s + (ccode c - 48)"
  by (simp add: dval_def)

lemma dval_nonneg: "\<forall>c \<in> set s. is_digit c \<Longrightarrow> 0 \<le> dval s"
  by (induction s rule: rev_induct) (auto simp: is_digit_def)

lemma dval_append: "dval (s @ t) = dval s * 10 ^ length t + dval t"
  by (induction t rule: rev_induct)
    (auto simp: dval_snoc algebra_simps simp flip: append_assoc)

lemma dec_digits_all: "0 \<le> n \<Longrightarrow> c \<in> set (dec_digits n) \<Longrightarrow> is_digit c"
proof (induction n rule: dec_digits.induct)
  case (1 n)
  show ?case
    using "1.prems" "1.IH"
    unfolding dec_digits.simps [of n] by (auto simp: is_digit_dchar split: if_splits)
qed

lemma dec_digits_nonempty [simp]: "dec_digits n \<noteq> []"
  by (subst dec_digits.simps) simp

lemma dval_dec_digits: "0 \<le> n \<Longrightarrow> dval (dec_digits n) = n"
proof (induction n rule: dec_digits.induct)
  case (1 n)
  show ?case
    using "1.prems" "1.IH"
    by (subst dec_digits.simps) (auto simp: ccode_dchar dval_def)
qed

lemma dec_digits_hd0: "0 < n \<Longrightarrow> hd (dec_digits n) \<noteq> CHR ''0''"
proof (induction n rule: dec_digits.induct)
  case (1 n)
  show ?case
  proof (cases "n < 10")
    case True
    then have "ccode (dchar n) = 48 + n" using "1.prems" by (intro ccode_dchar) auto
    then have "dchar n \<noteq> CHR ''0''" using "1.prems" by (auto simp: ccode_def)
    then show ?thesis using True by (subst dec_digits.simps) simp
  next
    case False
    then show ?thesis using "1.IH" by (subst dec_digits.simps) simp
  qed
qed

section \<open>Parsing integers\<close>

definition digit_value :: "char \<Rightarrow> int option" where
  "digit_value c =
     (if is_digit c then Some (ccode c - 48)
      else if 97 \<le> ccode c \<and> ccode c \<le> 122 then Some (ccode c - 87)
      else if 65 \<le> ccode c \<and> ccode c \<le> 90 then Some (ccode c - 55)
      else None)"

text \<open>
  The digit loop of \<open>PyLong_FromString\<close>: \<open>us\<close> says that an underscore (or the end) may not
  come next, which also rejects the empty digit string and a leading underscore.
\<close>

fun int_digits :: "int \<Rightarrow> bool \<Rightarrow> int \<Rightarrow> string \<Rightarrow> int option" where
  "int_digits b us acc [] = (if us then None else Some acc)"
| "int_digits b us acc (c # cs) =
     (if c = CHR ''_'' then (if us then None else int_digits b True acc cs)
      else case digit_value c of
        None \<Rightarrow> None
      | Some d \<Rightarrow> if d < b then int_digits b False (acc * b + d) cs else None)"

definition split_sign :: "string \<Rightarrow> bool \<times> string" where
  "split_sign s = (case s of
      [] \<Rightarrow> (False, [])
    | c # cs \<Rightarrow> if c = CHR ''-'' then (True, cs) else if c = CHR ''+'' then (False, cs) else (False, s))"

text \<open>\<open>sys.int_info.default_max_str_digits\<close>, for bases that are not powers of two.\<close>

definition too_long :: "string \<Rightarrow> bool" where
  "too_long s \<longleftrightarrow> 4300 < length (filter (\<lambda>c. c \<noteq> CHR ''_'') s)"

definition prefix_base :: "string \<Rightarrow> int option" where
  "prefix_base s = (case s of
      z # c # _ \<Rightarrow>
        if z \<noteq> CHR ''0'' then None
        else if c = CHR ''x'' \<or> c = CHR ''X'' then Some 16
        else if c = CHR ''o'' \<or> c = CHR ''O'' then Some 8
        else if c = CHR ''b'' \<or> c = CHR ''B'' then Some 2
        else None
    | _ \<Rightarrow> None)"

text \<open>The digits after a base prefix: one underscore may follow the prefix.\<close>

definition prefixed_body :: "string \<Rightarrow> string" where
  "prefixed_body s = (case drop 2 s of c # cs \<Rightarrow> if c = CHR ''_'' then cs else c # cs | [] \<Rightarrow> [])"

definition signed :: "bool \<Rightarrow> int option \<Rightarrow> int option" where
  "signed neg r = map_option (\<lambda>n. if neg then - n else n) r"

text \<open>\<open>int(text)\<close>, \<open>int(text, 16)\<close> and \<open>int(text, 0)\<close>; \<open>None\<close> is ValueError.\<close>

definition py_int10 :: "string \<Rightarrow> int option" where
  "py_int10 text = (case split_sign (py_strip text) of (neg, s) \<Rightarrow>
     if too_long s then None else signed neg (int_digits 10 True 0 s))"

definition py_int16 :: "string \<Rightarrow> int option" where
  "py_int16 text = (case split_sign (py_strip text) of (neg, s) \<Rightarrow>
     signed neg (int_digits 16 True 0 (if prefix_base s = Some 16 then prefixed_body s else s)))"

definition py_int0 :: "string \<Rightarrow> int option" where
  "py_int0 text = (case split_sign (py_strip text) of (neg, s) \<Rightarrow>
     (case prefix_base s of
        Some b \<Rightarrow> signed neg (int_digits b True 0 (prefixed_body s))
      | None \<Rightarrow>
          if too_long s then None
          else case int_digits 10 True 0 s of
            None \<Rightarrow> None
          | Some n \<Rightarrow> if s \<noteq> [] \<and> hd s = CHR ''0'' \<and> n \<noteq> 0 then None else signed neg (Some n)))"

lemma digit_value_digit: "is_digit c \<Longrightarrow> digit_value c = Some (ccode c - 48)"
  by (simp add: digit_value_def)

lemma digit_not_underscore: "is_digit c \<Longrightarrow> c \<noteq> CHR ''_''"
  by (auto simp: is_digit_def ccode_def)

lemma int_digits_dec:
  assumes "\<forall>c \<in> set s. is_digit c" and "s \<noteq> [] \<or> \<not> us"
  shows "int_digits 10 us acc s = Some (acc * 10 ^ length s + dval s)"
  using assms
proof (induction s arbitrary: us acc)
  case Nil
  then show ?case by simp
next
  case (Cons c cs)
  then have c: "is_digit c" by simp
  have "int_digits 10 us acc (c # cs) = int_digits 10 False (acc * 10 + (ccode c - 48)) cs"
    using c digit_not_underscore [OF c] by (simp add: digit_value_digit is_digit_def)
  also have "\<dots> = Some ((acc * 10 + (ccode c - 48)) * 10 ^ length cs + dval cs)"
    using Cons by simp
  also have "\<dots> = Some (acc * 10 ^ length (c # cs) + dval (c # cs))"
    using dval_append [of "[c]" cs] by (simp add: algebra_simps dval_def)
  finally show ?case .
qed

lemma split_sign_digits: "s \<noteq> [] \<Longrightarrow> is_digit (hd s) \<Longrightarrow> split_sign s = (False, s)"
  by (cases s) (auto simp: split_sign_def is_digit_def ccode_def)

lemma strip_digits: "\<forall>c \<in> set s. is_digit c \<Longrightarrow> py_strip s = s"
  by (rule py_strip_id) (cases "s = []", auto simp: digit_not_space)

text \<open>Printing then parsing an integer gives it back.\<close>

lemma prefix_base_digits: "\<forall>c \<in> set s. is_digit c \<Longrightarrow> prefix_base s = None"
  by (auto simp: prefix_base_def is_digit_def ccode_def split: list.splits)

lemma dec_digits_zero: "dec_digits 0 = ''0''"
  by (subst dec_digits.simps) (simp add: ccode_inj [symmetric] ccode_dchar, simp add: ccode_def)

lemma py_int0_dec_digits:
  assumes "0 \<le> n" and "\<not> too_long (dec_digits n)"
  shows "py_int0 (dec_digits n) = Some n"
proof -
  have all: "\<forall>c \<in> set (dec_digits n). is_digit c" using dec_digits_all assms by blast
  have "is_digit (hd (dec_digits n))" using all by simp
  then have sp: "split_sign (py_strip (dec_digits n)) = (False, dec_digits n)"
    using all by (simp add: strip_digits split_sign_digits)
  have v: "int_digits 10 True 0 (dec_digits n) = Some n"
    using int_digits_dec [OF all, of True 0] assms by (simp add: dval_dec_digits)
  have "hd (dec_digits n) = CHR ''0'' \<Longrightarrow> n = 0"
    using dec_digits_hd0 [of n] assms by fastforce
  then show ?thesis
    using sp v assms prefix_base_digits [OF all] by (auto simp: py_int0_def signed_def)
qed

lemma py_int10_dec_digits:
  assumes "0 \<le> n" and "\<not> too_long (dec_digits n)"
  shows "py_int10 (dec_digits n) = Some n"
proof -
  have all: "\<forall>c \<in> set (dec_digits n). is_digit c" using dec_digits_all assms by blast
  have "is_digit (hd (dec_digits n))" using all by simp
  then have sp: "split_sign (py_strip (dec_digits n)) = (False, dec_digits n)"
    using all by (simp add: strip_digits split_sign_digits)
  have v: "int_digits 10 True 0 (dec_digits n) = Some n"
    using int_digits_dec [OF all, of True 0] assms by (simp add: dval_dec_digits)
  then show ?thesis using sp assms by (simp add: py_int10_def signed_def)
qed

lemma length_dec_digits: "0 \<le> n \<Longrightarrow> n < 10 ^ k \<Longrightarrow> 0 < k \<Longrightarrow> length (dec_digits n) \<le> k"
proof (induction n arbitrary: k rule: dec_digits.induct)
  case (1 n)
  show ?case
  proof (cases "n < 10")
    case True
    then show ?thesis using "1.prems" by (subst dec_digits.simps) simp
  next
    case False
    then obtain j where k: "k = Suc j" "0 < j"
      using "1.prems" by (cases k; cases "k - 1") auto
    have "n div 10 < 10 ^ j"
      using "1.prems" k by (simp add: div_less_iff_less_mult mult.commute)
    then have "length (dec_digits (n div 10)) \<le> j"
      using "1.IH" False k by simp
    then show ?thesis using False k by (subst dec_digits.simps) simp
  qed
qed

section \<open>Hexadecimal printing\<close>

definition hex_char :: "int \<Rightarrow> char" where
  "hex_char d = ''0123456789ABCDEF'' ! nat d"

function hex_digits :: "int \<Rightarrow> string" where
  "hex_digits n = (if n < 16 then [hex_char n] else hex_digits (n div 16) @ [hex_char (n mod 16)])"
  by pat_completeness auto
termination
  by (relation "measure nat") auto

declare hex_digits.simps [simp del]

text \<open>\<open>f"0x{value:0{width}X}"\<close>: the sign, then zeros up to the width, then the digits.\<close>

definition format_hex :: "int \<Rightarrow> nat \<Rightarrow> string" where
  "format_hex v width =
     (let sg = (if v < 0 then ''-'' else ''''); ds = hex_digits \<bar>v\<bar>
      in ''0x'' @ sg @ replicate (width - length sg - length ds) (CHR ''0'') @ ds)"

definition hval :: "string \<Rightarrow> int" where
  "hval s = foldl (\<lambda>a c. a * 16 + the (digit_value c)) 0 s"

definition is_hex :: "char \<Rightarrow> bool" where
  "is_hex c \<longleftrightarrow> c \<noteq> CHR ''_'' \<and> (case digit_value c of None \<Rightarrow> False | Some d \<Rightarrow> 0 \<le> d \<and> d < 16)"

lemma hex_char_value: "0 \<le> d \<Longrightarrow> d < 16 \<Longrightarrow> digit_value (hex_char d) = Some d"
proof -
  assume "0 \<le> d" "d < 16"
  then have "d \<in> {0, 1, 2, 3, 4, 5, 6, 7, 8, 9, 10, 11, 12, 13, 14, 15}"
    unfolding insert_iff empty_iff by presburger
  then show ?thesis
    by (elim insertE emptyE) (simp_all add: hex_char_def digit_value_def is_digit_def ccode_def)
qed

lemma is_hex_char: "0 \<le> d \<Longrightarrow> d < 16 \<Longrightarrow> is_hex (hex_char d)"
proof -
  assume a: "0 \<le> d" "d < 16"
  have "hex_char d \<noteq> CHR ''_''"
    using hex_char_value [OF a] by (auto simp: digit_value_def is_digit_def ccode_def)
  then show ?thesis using a by (simp add: is_hex_def hex_char_value)
qed

lemma hex_digits_all: "0 \<le> n \<Longrightarrow> c \<in> set (hex_digits n) \<Longrightarrow> is_hex c"
proof (induction n rule: hex_digits.induct)
  case (1 n)
  show ?case
    using "1.prems" "1.IH"
    unfolding hex_digits.simps [of n] by (auto simp: is_hex_char split: if_splits)
qed

lemma hval_hex_digits: "0 \<le> n \<Longrightarrow> hval (hex_digits n) = n"
proof (induction n rule: hex_digits.induct)
  case (1 n)
  show ?case
    using "1.prems" "1.IH"
    by (subst hex_digits.simps) (auto simp: hval_def hex_char_value)
qed

lemma hval_zeros: "hval (replicate k (CHR ''0'') @ s) = hval s"
  by (induction k) (auto simp: hval_def digit_value_def is_digit_def ccode_def)

lemma int_digits_hex:
  assumes "\<forall>c \<in> set s. is_hex c" and "s \<noteq> [] \<or> \<not> us"
  shows "int_digits 16 us acc s = Some (foldl (\<lambda>a c. a * 16 + the (digit_value c)) acc s)"
  using assms by (induction s arbitrary: us acc) (auto simp: is_hex_def split: option.splits)

lemma hex_digits_nonempty [simp]: "hex_digits n \<noteq> []"
  by (subst hex_digits.simps) simp

lemma dropWhile_hd: "dropWhile P s \<noteq> [] \<Longrightarrow> \<not> P (hd (dropWhile P s))"
  by (induction s) auto

lemma py_strip_idem [simp]: "py_strip (py_strip s) = py_strip s"
proof (rule py_strip_id)
  let ?a = "dropWhile is_space s" let ?b = "dropWhile is_space (rev ?a)"
  have "?b \<noteq> [] \<longrightarrow> hd (rev ?b) = hd ?a \<and> ?a \<noteq> []"
  proof
    assume b: "?b \<noteq> []"
    then obtain u where u: "rev ?a = u @ ?b" by (metis takeWhile_dropWhile_id)
    then have "?a = rev ?b @ rev u" by (metis rev_append rev_rev_ident)
    then show "hd (rev ?b) = hd ?a \<and> ?a \<noteq> []" using b by (metis hd_append2 rev_is_Nil_conv append_is_Nil_conv)
  qed
  then show "py_strip s = [] \<or> (\<not> is_space (hd (py_strip s)) \<and> \<not> is_space (last (py_strip s)))"
    using dropWhile_hd [of is_space s] dropWhile_hd [of is_space "rev ?a"]
    unfolding py_strip_def by (metis last_rev rev_is_Nil_conv)
qed

text \<open>Reading back a printed address with \<open>int(text, 0)\<close>.\<close>

lemma py_int0_format_hex:
  assumes "0 \<le> n"
  shows "py_int0 (format_hex n w) = Some n"
proof -
  let ?b = "replicate (w - length (hex_digits n)) (CHR ''0'') @ hex_digits n"
  have f: "format_hex n w = ''0x'' @ ?b" using assms by (simp add: format_hex_def Let_def)
  have z: "is_hex (CHR ''0'')" by (simp add: is_hex_def digit_value_def is_digit_def ccode_def)
  have all: "\<forall>c \<in> set ?b. is_hex c"
    using hex_digits_all [OF assms] z by auto
  have nsp: "\<not> is_space (last ?b)"
  proof -
    have "is_hex (last ?b)" using all by (metis append_is_Nil_conv hex_digits_nonempty last_in_set)
    then show ?thesis
      by (auto simp: is_hex_def is_space_def digit_value_def is_digit_def split: if_splits)
  qed
  have st: "py_strip (''0x'' @ ?b) = ''0x'' @ ?b"
    using nsp by (intro py_strip_id) (auto simp: is_space_def ccode_def)
  have hd: "?b = c # cs \<Longrightarrow> c \<noteq> CHR ''_''" for c cs
    using all by (metis is_hex_def list.set_intros(1))
  have pb: "prefixed_body (''0x'' @ ?b) = ?b"
    using hd by (auto simp: prefixed_body_def split: list.splits)
  have ne: "?b \<noteq> []" by simp
  have "int_digits 16 True 0 ?b = Some n"
    unfolding hval_def [symmetric] int_digits_hex [OF all disjI1 [OF ne], of True 0]
    by (simp only: hval_zeros hval_hex_digits [OF assms])
  then show ?thesis
    unfolding f by (simp add: py_int0_def st pb split_sign_def prefix_base_def signed_def
        del: append_Cons append.simps) (simp add: split_sign_def prefix_base_def signed_def pb [simplified])
qed

section \<open>Splitting\<close>

text \<open>\<open>text.split()\<close>: the maximal runs of characters that are not white space.\<close>

fun split_ws :: "string \<Rightarrow> string \<Rightarrow> string list" where
  "split_ws acc [] = (if acc = [] then [] else [rev acc])"
| "split_ws acc (c # cs) =
     (if is_space c then (if acc = [] then split_ws [] cs else rev acc # split_ws [] cs)
      else split_ws (c # acc) cs)"

definition py_split :: "string \<Rightarrow> string list" where
  "py_split s = split_ws [] s"

text \<open>\<open>text.split(sep)\<close> and \<open>text.split(sep, 1)\<close> for a one-character separator.\<close>

fun split_char :: "char \<Rightarrow> string \<Rightarrow> string list" where
  "split_char sep [] = [[]]"
| "split_char sep (c # cs) = (if c = sep then [] # split_char sep cs
     else case split_char sep cs of [] \<Rightarrow> [[c]] | t # ts \<Rightarrow> (c # t) # ts)"

definition split_once :: "char \<Rightarrow> string \<Rightarrow> string \<times> string" where
  "split_once sep s = (takeWhile (\<lambda>c. c \<noteq> sep) s, drop 1 (dropWhile (\<lambda>c. c \<noteq> sep) s))"

lemma split_ws_word:
  "\<forall>c \<in> set w. \<not> is_space c \<Longrightarrow> split_ws acc (w @ s) = split_ws (rev w @ acc) s"
  by (induction w arbitrary: acc) auto

lemma py_split_join:
  "\<forall>w \<in> set ws. w \<noteq> [] \<and> (\<forall>c \<in> set w. \<not> is_space c) \<Longrightarrow> py_split (py_join '' '' ws) = ws"
  unfolding py_split_def
proof (induction ws rule: induct_list012)
  case (2 x)
  then show ?case using split_ws_word [of x "[]" "[]"] by simp
next
  case (3 x y zs)
  have sp: "is_space (CHR '' '')" by (simp add: is_space_def ccode_def)
  have "split_ws [] (x @ '' '' @ py_join '' '' (y # zs)) = split_ws (rev x) ('' '' @ py_join '' '' (y # zs))"
    using "3.prems" split_ws_word [of x "[]"] by simp
  then show ?case using 3 sp by simp
qed simp

lemma split_once_join: "sep \<notin> set k \<Longrightarrow> split_once sep (k @ sep # v) = (k, v)"
proof -
  assume "sep \<notin> set k"
  then have "takeWhile (\<lambda>c. c \<noteq> sep) (k @ sep # v) = k" "dropWhile (\<lambda>c. c \<noteq> sep) (k @ sep # v) = sep # v"
    by (induction k) auto
  then show ?thesis by (simp add: split_once_def)
qed

lemma str_int_inj: "0 \<le> a \<Longrightarrow> 0 \<le> b \<Longrightarrow> str_int a = str_int b \<Longrightarrow> a = b"
  using dval_dec_digits by (metis not_less str_int_def)

lemma str_int_digits: "0 \<le> n \<Longrightarrow> c \<in> set (str_int n) \<Longrightarrow> is_digit c"
  using dec_digits_all [of n c] by (simp add: str_int_def)

lemma str_int_nonempty [simp]: "str_int n \<noteq> []"
  by (simp add: str_int_def)

lemma py_strip_word: "\<forall>c \<in> set s. \<not> is_space c \<Longrightarrow> py_strip s = s"
  by (rule py_strip_id) (cases "s = []", auto)

end
