(* ===== verification/Py_Float.thy ===== *)
theory Py_Float
  imports Rounding Py_Text
begin

text \<open>
  Python's \<open>float\<close>: IEEE binary64 with round-to-nearest-even, as CPython 3.12 (the version
  the repository's workflow pins) computes it.  A finite value is its sign, an integer
  mantissa and a binary exponent; arithmetic computes the exact result as a fraction and
  rounds it once with \<open>Rounding.round_frac\<close>; comparisons with NaN are false.  \<open>float(text)\<close>
  rounds the decimal literal correctly and \<open>f"{x:.3f}"\<close> prints the exact value to three
  places, half to even, as CPython's \<open>dtoa\<close> does.  The laws relate every operation to the
  rounding of rationals: monotonicity, exact integers, and printing followed by parsing.
\<close>

section \<open>Values and order\<close>

datatype pyfloat = FNan | FInf bool | Fin bool int int

text \<open>\<open>b64\<close> is the rounding of a nonnegative rational to the format (without a largest value).\<close>

definition b64 :: "rat \<Rightarrow> rat" where
  "b64 = rnd 2 53 (- 1074)"

interpretation b64: rounding 2 53 "- 1074"
  by unfold_locales simp_all

definition b64_bound :: rat where
  "b64_bound = 2 powi 1024"

text \<open>The value nearest to \<open>n / d\<close> (\<open>0 \<le> n\<close>, \<open>0 < d\<close>) with the sign, or an infinity.\<close>

definition mk_float :: "bool \<Rightarrow> int \<Rightarrow> int \<Rightarrow> pyfloat" where
  "mk_float s n d = (case round_frac 2 53 (- 1074) n d of (m, e) \<Rightarrow>
     if m \<noteq> 0 \<and> 1024 < ndigits 2 m + e then FInf s else Fin s m e)"

definition not_nan :: "pyfloat \<Rightarrow> bool" where
  "not_nan x \<longleftrightarrow> x \<noteq> FNan"

fun is_finite :: "pyfloat \<Rightarrow> bool" where
  "is_finite (Fin s m e) = True"
| "is_finite _ = False"

text \<open>The position of a value on the extended line: the sign of an infinity, then the value.\<close>

fun fclass :: "pyfloat \<Rightarrow> int" where
  "fclass FNan = 0"
| "fclass (FInf s) = (if s then - 1 else 1)"
| "fclass (Fin s m e) = 0"

definition mag :: "int \<Rightarrow> int \<Rightarrow> rat" where
  "mag m e = of_int m * 2 powi e"

fun fval :: "pyfloat \<Rightarrow> rat" where
  "fval (Fin s m e) = (if s then - mag m e else mag m e)"
| "fval _ = 0"

text \<open>Two finite values over their smaller exponent, as signed integers.\<close>

definition aligned :: "bool \<Rightarrow> int \<Rightarrow> int \<Rightarrow> int \<Rightarrow> int" where
  "aligned s m e k = (if s then - m else m) * 2 ^ nat (e - k)"

fun fin_lt :: "pyfloat \<Rightarrow> pyfloat \<Rightarrow> bool" where
  "fin_lt (Fin s m e) (Fin t n f) = (aligned s m e (min e f) < aligned t n f (min e f))"
| "fin_lt _ _ = False"

fun fin_eq :: "pyfloat \<Rightarrow> pyfloat \<Rightarrow> bool" where
  "fin_eq (Fin s m e) (Fin t n f) = (aligned s m e (min e f) = aligned t n f (min e f))"
| "fin_eq _ _ = True"

definition f_lt :: "pyfloat \<Rightarrow> pyfloat \<Rightarrow> bool" where
  "f_lt x y \<longleftrightarrow> x \<noteq> FNan \<and> y \<noteq> FNan \<and>
     (fclass x < fclass y \<or> (fclass x = fclass y \<and> fin_lt x y))"

definition f_eq :: "pyfloat \<Rightarrow> pyfloat \<Rightarrow> bool" where
  "f_eq x y \<longleftrightarrow> x \<noteq> FNan \<and> y \<noteq> FNan \<and> fclass x = fclass y \<and> fin_eq x y"

definition f_le :: "pyfloat \<Rightarrow> pyfloat \<Rightarrow> bool" where
  "f_le x y \<longleftrightarrow> f_lt x y \<or> f_eq x y"

definition f_zero :: pyfloat where
  "f_zero = Fin False 0 0"

lemma aligned_value:
  "k \<le> e \<Longrightarrow> (of_int (aligned s m e k) :: rat) * 2 powi k = fval (Fin s m e)"
proof -
  assume k: "k \<le> e"
  have "(2::rat) powi (e - k) = 2 ^ nat (e - k)" using k by (simp add: power_int_def)
  moreover have "(2::rat) powi e = 2 powi (e - k) * 2 powi k" by (simp flip: power_int_add)
  ultimately show ?thesis by (simp add: aligned_def mag_def)
qed

lemma aligned_cmp:
  "aligned s m e (min e f) < aligned t n f (min e f) \<longleftrightarrow> fval (Fin s m e) < fval (Fin t n f)"
  "aligned s m e (min e f) = aligned t n f (min e f) \<longleftrightarrow> fval (Fin s m e) = fval (Fin t n f)"
proof -
  let ?k = "min e f"
  have p: "(0::rat) < 2 powi ?k" by simp
  have "fval (Fin s m e) < fval (Fin t n f) \<longleftrightarrow>
      (of_int (aligned s m e ?k) :: rat) * 2 powi ?k < of_int (aligned t n f ?k) * 2 powi ?k"
    by (simp only: aligned_value min.cobounded1 min.cobounded2)
  then show "aligned s m e ?k < aligned t n f ?k \<longleftrightarrow> fval (Fin s m e) < fval (Fin t n f)"
    using p by (simp only: mult_less_cancel_right_pos of_int_less_iff)
  have "fval (Fin s m e) = fval (Fin t n f) \<longleftrightarrow>
      (of_int (aligned s m e ?k) :: rat) * 2 powi ?k = of_int (aligned t n f ?k) * 2 powi ?k"
    by (simp only: aligned_value min.cobounded1 min.cobounded2)
  then show "aligned s m e ?k = aligned t n f ?k \<longleftrightarrow> fval (Fin s m e) = fval (Fin t n f)"
    using p by simp
qed

lemma fin_cmp_val:
  "fin_lt (Fin s m e) (Fin t n f) \<longleftrightarrow> fval (Fin s m e) < fval (Fin t n f)"
  "fin_eq (Fin s m e) (Fin t n f) \<longleftrightarrow> fval (Fin s m e) = fval (Fin t n f)"
  by (simp_all only: fin_lt.simps fin_eq.simps aligned_cmp)

text \<open>The order in terms of values.\<close>

lemma f_lt_val: "f_lt x y \<longleftrightarrow> x \<noteq> FNan \<and> y \<noteq> FNan \<and>
    (fclass x < fclass y \<or> (fclass x = fclass y \<and> fval x < fval y))"
  by (cases x; cases y) (simp_all add: f_lt_def fin_cmp_val del: fin_lt.simps(1))

lemma f_eq_val: "f_eq x y \<longleftrightarrow> x \<noteq> FNan \<and> y \<noteq> FNan \<and> fclass x = fclass y \<and> fval x = fval y"
  by (cases x; cases y) (simp_all add: f_eq_def fin_cmp_val del: fin_eq.simps(1))

lemma f_le_val: "f_le x y \<longleftrightarrow> x \<noteq> FNan \<and> y \<noteq> FNan \<and>
    (fclass x < fclass y \<or> (fclass x = fclass y \<and> fval x \<le> fval y))"
  by (auto simp: f_le_def f_lt_val f_eq_val)

lemmas f_cmp = f_lt_val f_eq_val f_le_val

lemma f_lt_irrefl [simp]: "\<not> f_lt x x"
  by (simp add: f_cmp)

lemma f_le_refl: "not_nan x \<Longrightarrow> f_le x x"
  by (simp add: f_cmp not_nan_def)

lemma f_le_not_lt: "not_nan x \<Longrightarrow> not_nan y \<Longrightarrow> f_le x y \<longleftrightarrow> \<not> f_lt y x"
  by (auto simp: f_cmp not_nan_def)

lemma f_le_trans: "f_le x y \<Longrightarrow> f_le y z \<Longrightarrow> f_le x z"
  by (auto simp: f_cmp)

lemma f_le_not_nan: "f_le x y \<Longrightarrow> not_nan x \<and> not_nan y"
  by (auto simp: f_cmp not_nan_def)

lemma f_lt_imp_le: "f_lt x y \<Longrightarrow> f_le x y"
  by (simp add: f_le_def)

lemma not_nan_simps [simp]: "not_nan (Fin s m e)" "not_nan (FInf s)" "\<not> not_nan FNan"
  by (simp_all add: not_nan_def)

interpretation float_order: weak_order f_lt not_nan
  by unfold_locales (auto simp: f_cmp not_nan_def)

section \<open>Arithmetic\<close>

text \<open>The result of an operation whose exact value is \<open>n / d\<close>; an exact zero is positive.\<close>

definition of_frac :: "int \<Rightarrow> int \<Rightarrow> pyfloat" where
  "of_frac n d = (if n < 0 then mk_float True (- n) d else mk_float False n d)"

text \<open>\<open>m * 2 ^ e\<close> as a fraction, rounded.\<close>

definition mk_scaled :: "bool \<Rightarrow> int \<Rightarrow> int \<Rightarrow> pyfloat" where
  "mk_scaled s m e = (case frac_of 2 m e of (n, d) \<Rightarrow> mk_float s n d)"

definition of_scaled :: "int \<Rightarrow> int \<Rightarrow> pyfloat" where
  "of_scaled m e = (if m < 0 then mk_scaled True (- m) e else mk_scaled False m e)"

fun f_neg :: "pyfloat \<Rightarrow> pyfloat" where
  "f_neg FNan = FNan"
| "f_neg (FInf s) = FInf (\<not> s)"
| "f_neg (Fin s m e) = Fin (\<not> s) m e"

fun f_abs :: "pyfloat \<Rightarrow> pyfloat" where
  "f_abs FNan = FNan"
| "f_abs (FInf s) = FInf False"
| "f_abs (Fin s m e) = Fin False m e"

fun f_add :: "pyfloat \<Rightarrow> pyfloat \<Rightarrow> pyfloat" where
  "f_add FNan y = FNan"
| "f_add (FInf s) y = (case y of FNan \<Rightarrow> FNan | FInf t \<Rightarrow> if s = t then FInf s else FNan
                         | Fin t n f \<Rightarrow> FInf s)"
| "f_add (Fin s m e) y = (case y of FNan \<Rightarrow> FNan | FInf t \<Rightarrow> FInf t
     | Fin t n f \<Rightarrow>
         (let k = min e f in
          if s = t then mk_scaled s (m * 2 ^ nat (e - k) + n * 2 ^ nat (f - k)) k
          else of_scaled (aligned s m e k + aligned t n f k) k))"

definition f_sub :: "pyfloat \<Rightarrow> pyfloat \<Rightarrow> pyfloat" where
  "f_sub x y = f_add x (f_neg y)"

fun f_mul :: "pyfloat \<Rightarrow> pyfloat \<Rightarrow> pyfloat" where
  "f_mul FNan y = FNan"
| "f_mul (FInf s) y = (case y of FNan \<Rightarrow> FNan | FInf t \<Rightarrow> FInf (s \<noteq> t)
                         | Fin t n f \<Rightarrow> if n = 0 then FNan else FInf (s \<noteq> t))"
| "f_mul (Fin s m e) y = (case y of FNan \<Rightarrow> FNan
     | FInf t \<Rightarrow> if m = 0 then FNan else FInf (s \<noteq> t)
     | Fin t n f \<Rightarrow> mk_scaled (s \<noteq> t) (m * n) (e + f))"

text \<open>Python's \<open>/\<close>: a zero divisor raises, whatever the dividend.\<close>

definition div_fin :: "bool \<Rightarrow> int \<Rightarrow> int \<Rightarrow> int \<Rightarrow> int \<Rightarrow> pyfloat" where
  "div_fin s m e n f = (let k = min e f in mk_float s (m * 2 ^ nat (e - k)) (n * 2 ^ nat (f - k)))"

fun f_div :: "pyfloat \<Rightarrow> pyfloat \<Rightarrow> pyfloat result" where
  "f_div x FNan = Inr FNan"
| "f_div x (FInf t) = Inr (case x of Fin s m e \<Rightarrow> Fin (s \<noteq> t) 0 0 | _ \<Rightarrow> FNan)"
| "f_div x (Fin t n f) =
     (if n = 0 then Inl ZeroDivisionError
      else Inr (case x of FNan \<Rightarrow> FNan | FInf s \<Rightarrow> FInf (s \<noteq> t)
                 | Fin s m e \<Rightarrow> div_fin (s \<noteq> t) m e n f))"

text \<open>
  \<open>float(n)\<close> for an int: OverflowError above the range.  The mixed int and float operators
  of Python convert the int this way first.
\<close>

definition float_of_int :: "int \<Rightarrow> pyfloat result" where
  "float_of_int n = (case of_frac n 1 of FInf s \<Rightarrow> Inl OverflowError | x \<Rightarrow> Inr x)"

text \<open>
  \<open>int(round(x))\<close> (half to even), \<open>math.ceil(x)\<close> and \<open>int(x)\<close>; infinities and NaN raise.
\<close>

fun int_by :: "(int \<Rightarrow> int \<Rightarrow> int) \<Rightarrow> pyfloat \<Rightarrow> int result" where
  "int_by g FNan = Inl (ValueError ''cannot convert float NaN to integer'')"
| "int_by g (FInf s) = Inl OverflowError"
| "int_by g (Fin s m e) = (case frac_of 2 (if s then - m else m) e of (n, d) \<Rightarrow> Inr (g n d))"

definition round_to_int :: "pyfloat \<Rightarrow> int result" where
  "round_to_int = int_by rhe_div"

definition ceil_to_int :: "pyfloat \<Rightarrow> int result" where
  "ceil_to_int = int_by (\<lambda>n d. - ((- n) div d))"

definition trunc_to_int :: "pyfloat \<Rightarrow> int result" where
  "trunc_to_int = int_by (\<lambda>n d. if n < 0 then - ((- n) div d) else n div d)"

text \<open>\<open>max(xs)\<close> and \<open>min(xs)\<close>: the first element no later one is greater (less) than.\<close>

fun fmax_from :: "pyfloat \<Rightarrow> pyfloat list \<Rightarrow> pyfloat" where
  "fmax_from m [] = m"
| "fmax_from m (x # xs) = fmax_from (if f_lt m x then x else m) xs"

fun fmin_from :: "pyfloat \<Rightarrow> pyfloat list \<Rightarrow> pyfloat" where
  "fmin_from m [] = m"
| "fmin_from m (x # xs) = fmin_from (if f_lt x m then x else m) xs"

definition py_max :: "pyfloat list \<Rightarrow> pyfloat result" where
  "py_max xs = (case xs of [] \<Rightarrow> Inl (ValueError ''max() arg is an empty sequence'')
                 | x # ys \<Rightarrow> Inr (fmax_from x ys))"

definition py_min :: "pyfloat list \<Rightarrow> pyfloat result" where
  "py_min xs = (case xs of [] \<Rightarrow> Inl (ValueError ''min() arg is an empty sequence'')
                 | x # ys \<Rightarrow> Inr (fmin_from x ys))"

text \<open>
  \<open>sum(xs)\<close> of floats in CPython 3.12: Neumaier's compensated summation, starting from the
  integer 0; the compensation is added at the end when it is finite and not zero.
\<close>

fun f_is_zero :: "pyfloat \<Rightarrow> bool" where
  "f_is_zero (Fin s m e) = (m = 0)"
| "f_is_zero _ = False"

definition sum_step :: "pyfloat \<times> pyfloat \<Rightarrow> pyfloat \<Rightarrow> pyfloat \<times> pyfloat" where
  "sum_step st x = (case st of (f, c) \<Rightarrow>
     let t = f_add f x in
     (t, f_add c (if f_le (f_abs x) (f_abs f) then f_add (f_sub f t) x
                  else f_add (f_sub x t) f)))"

definition sum_finish :: "pyfloat \<times> pyfloat \<Rightarrow> pyfloat" where
  "sum_finish st = (case st of (f, c) \<Rightarrow>
     if \<not> f_is_zero c \<and> is_finite c then f_add f c else f)"

definition py_fsum :: "pyfloat list \<Rightarrow> pyfloat" where
  "py_fsum xs = (case xs of [] \<Rightarrow> f_zero
     | x # ys \<Rightarrow> sum_finish (foldl sum_step (f_add f_zero x, f_zero) ys))"

text \<open>A literal of the source, such as \<open>100.0\<close> or \<open>0.65\<close> (\<open>flit 65 100\<close>).\<close>

definition flit :: "int \<Rightarrow> int \<Rightarrow> pyfloat" where
  "flit n d = of_frac n d"

section \<open>Printing\<close>

definition pad0 :: "nat \<Rightarrow> string \<Rightarrow> string" where
  "pad0 k s = replicate (k - length s) (CHR ''0'') @ s"

definition fixed :: "nat \<Rightarrow> int \<Rightarrow> string" where
  "fixed k n = dec_digits (n div 10 ^ k) @ ''.'' @ pad0 k (dec_digits (n mod 10 ^ k))"

text \<open>\<open>f"{x:.kf}"\<close> for \<open>0 < k\<close>.\<close>

fun fmt_fixed :: "nat \<Rightarrow> pyfloat \<Rightarrow> string" where
  "fmt_fixed k FNan = ''nan''"
| "fmt_fixed k (FInf s) = (if s then ''-inf'' else ''inf'')"
| "fmt_fixed k (Fin s m e) =
     (if s then ''-'' else '''') @
     (case frac_of 2 m e of (n, d) \<Rightarrow> fixed k (rhe_div (n * 10 ^ k) d))"

definition fmt3 :: "pyfloat \<Rightarrow> string" where
  "fmt3 x = fmt_fixed 3 x"

section \<open>Parsing\<close>

text \<open>
  \<open>float(text)\<close>: surrounding blanks, underscores between digits, a sign, then a decimal
  literal with optional point and exponent, or inf, infinity or nan in any case.
  \<open>None\<close> is ValueError.
\<close>

fun drop_underscores :: "char option \<Rightarrow> string \<Rightarrow> string option" where
  "drop_underscores prev [] = (if prev = Some (CHR ''_'') then None else Some [])"
| "drop_underscores prev (c # cs) =
     (if c = CHR ''_'' then
        (case prev of None \<Rightarrow> None
         | Some p \<Rightarrow> if is_digit p then drop_underscores (Some c) cs else None)
      else if prev = Some (CHR ''_'') \<and> \<not> is_digit c then None
      else map_option ((#) c) (drop_underscores (Some c) cs))"

definition exp_part :: "string \<Rightarrow> int option" where
  "exp_part s = (case s of [] \<Rightarrow> Some 0
    | e # r \<Rightarrow> if e \<noteq> CHR ''e'' \<and> e \<noteq> CHR ''E'' then None
        else case split_sign r of (neg, ds) \<Rightarrow>
          if ds = [] \<or> \<not> list_all is_digit ds then None
          else Some (if neg then - dval ds else dval ds))"

definition frac_split :: "string \<Rightarrow> string \<times> string" where
  "frac_split s = (case s of [] \<Rightarrow> ([], [])
    | c # r \<Rightarrow> if c = CHR ''.'' then (takeWhile is_digit r, dropWhile is_digit r) else ([], s))"

text \<open>A decimal literal as coefficient and power of ten.\<close>

definition dec_literal :: "string \<Rightarrow> (int \<times> int) option" where
  "dec_literal s =
     (let ip = takeWhile is_digit s; (fp, rest) = frac_split (dropWhile is_digit s) in
      if ip = [] \<and> fp = [] then None
      else map_option (\<lambda>e. (dval (ip @ fp), e - int (length fp))) (exp_part rest))"

definition parse_float :: "string \<Rightarrow> pyfloat option" where
  "parse_float text = (case drop_underscores None (py_strip text) of None \<Rightarrow> None
    | Some t \<Rightarrow> (case split_sign t of (neg, s) \<Rightarrow>
        if py_lower s = ''inf'' \<or> py_lower s = ''infinity'' then Some (FInf neg)
        else if py_lower s = ''nan'' then Some FNan
        else map_option (\<lambda>(c, e). case frac_of 10 c e of (n, d) \<Rightarrow> mk_float neg n d) (dec_literal s)))"

section \<open>Laws of rounding\<close>

text \<open>The values a computation yields: magnitudes of the format, below the overflow bound.\<close>

fun wf_float :: "pyfloat \<Rightarrow> bool" where
  "wf_float (Fin s m e) = (0 \<le> m \<and> mag m e < b64_bound \<and> b64 (mag m e) = mag m e)"
| "wf_float _ = True"

text \<open>\<open>x\<close> is \<open>\<plusminus>q\<close> rounded to the format.\<close>

definition rounds_to :: "bool \<Rightarrow> rat \<Rightarrow> pyfloat \<Rightarrow> bool" where
  "rounds_to s q x \<longleftrightarrow>
     (if b64 q < b64_bound then \<exists>m e. x = Fin s m e \<and> 0 \<le> m \<and> mag m e = b64 q else x = FInf s)"

lemma b64_mono: "x \<le> y \<Longrightarrow> b64 x \<le> b64 y"
  unfolding b64_def by (rule b64.rnd_mono)

lemma b64_nonneg [simp]: "0 \<le> b64 x"
  unfolding b64_def by (rule b64.rnd_nonneg)

lemma b64_idem [simp]: "b64 (b64 x) = b64 x"
  unfolding b64_def by (rule b64.rnd_idem)

lemma b64_0 [simp]: "b64 0 = 0"
  unfolding b64_def by (rule b64.rnd_0)

lemma b64_int: "0 \<le> m \<Longrightarrow> m < 2 ^ 53 \<Longrightarrow> b64 (of_int m) = of_int m"
  unfolding b64_def by (rule b64.rnd_int) simp_all

lemma b64_1 [simp]: "b64 1 = 1"
  using b64_int [of 1] by simp

lemma mag_nonneg: "0 \<le> m \<Longrightarrow> 0 \<le> mag m e"
  by (simp add: mag_def)

lemma mag_pos: "0 < m \<Longrightarrow> 0 < mag m e"
  by (simp add: mag_def)

lemma mag_0 [simp]: "mag 0 e = 0"
  by (simp add: mag_def)

lemma frac_of_mag: "frac_of 2 m e = (n, d) \<Longrightarrow> 0 < d \<and> (of_int n :: rat) / of_int d = mag m e"
  using b64.frac_of_value by (simp add: mag_def)

lemma frac_of_nonneg: "frac_of b m e = (n, d) \<Longrightarrow> 0 \<le> m \<Longrightarrow> 0 \<le> b \<Longrightarrow> 0 \<le> n"
  by (auto simp: frac_of_def split: if_splits)

lemma overflow_test:
  assumes "0 < m"
  shows "1024 < ndigits 2 m + e \<longleftrightarrow> b64_bound \<le> mag m e"
proof -
  let ?k = "ndigits 2 m"
  have k: "0 < ?k" "2 ^ nat (?k - 1) \<le> m" "m < 2 ^ nat ?k"
    using ndigits_bounds [of 2 m] assms by auto
  have "(of_int (2 ^ nat (?k - 1)) :: rat) \<le> of_int m" using k(2) by (simp only: of_int_le_iff)
  then have lo: "(2::rat) powi (?k - 1) \<le> of_int m" using k(1) by (simp add: power_int_def)
  have "(of_int m :: rat) < of_int (2 ^ nat ?k)" using k(3) by (simp only: of_int_less_iff)
  then have hi: "(of_int m :: rat) < 2 powi ?k" using k(1) by (simp add: power_int_def)
  have lo': "2 powi (?k - 1 + e) \<le> mag m e" using lo by (simp add: mag_def power_int_add)
  have hi': "mag m e < 2 powi (?k + e)" using hi by (simp add: mag_def power_int_add)
  show ?thesis
  proof
    assume "1024 < ?k + e"
    then have "b64_bound \<le> 2 powi (?k - 1 + e)"
      unfolding b64_bound_def using b64.powi_mono [of 1024 "?k - 1 + e"] by simp
    then show "b64_bound \<le> mag m e" using lo' by simp
  next
    assume "b64_bound \<le> mag m e"
    then have "(2::rat) powi 1024 < 2 powi (?k + e)" using hi' by (simp add: b64_bound_def)
    then show "1024 < ?k + e" using b64.powi_less [of 1024 "?k + e"] by simp
  qed
qed

lemma bound_pos: "0 < b64_bound"
  by (simp add: b64_bound_def)

text \<open>The integer algorithm of the operations rounds the exact value.\<close>

lemma mk_float_rounds:
  assumes "0 \<le> n" and "0 < d"
  shows "rounds_to s (of_int n / of_int d) (mk_float s n d)"
proof -
  obtain m e where r: "round_frac 2 53 (- 1074) n d = (m, e)" by fastforce
  then have m: "0 \<le> m" "mag m e = b64 (of_int n / of_int d)"
    using b64.round_frac_rnd [OF assms r] by (simp_all add: mag_def b64_def)
  show ?thesis
  proof (cases "m = 0")
    case True
    then show ?thesis using r m bound_pos by (auto simp: rounds_to_def mk_float_def mag_def)
  next
    case False
    then show ?thesis
      using r m overflow_test [of m e] by (auto simp: rounds_to_def mk_float_def not_less)
  qed
qed

lemma mk_scaled_rounds: "0 \<le> m \<Longrightarrow> rounds_to s (mag m e) (mk_scaled s m e)"
proof -
  assume m: "0 \<le> m"
  obtain n d where f: "frac_of 2 m e = (n, d)" by fastforce
  then show ?thesis
    using mk_float_rounds [of n d s] frac_of_mag [OF f] frac_of_nonneg [OF f m]
    by (simp add: mk_scaled_def)
qed

lemma mag_pow: "k \<le> e \<Longrightarrow> mag (m * 2 ^ nat (e - k)) k = mag m e"
proof -
  assume k: "k \<le> e"
  have "(2::rat) powi (e - k) = 2 ^ nat (e - k)" using k by (simp add: power_int_def)
  moreover have "(2::rat) powi e = 2 powi (e - k) * 2 powi k" by (simp flip: power_int_add)
  ultimately show ?thesis by (simp add: mag_def)
qed

lemma mag_minus: "mag (- m) e = - mag m e"
  by (simp add: mag_def)

lemma mag_add: "mag (a + b) e = mag a e + mag b e"
  by (simp add: mag_def algebra_simps)

lemma mag_mult: "mag (m * n) (e + f) = mag m e * mag n f"
  by (simp add: mag_def power_int_add)

lemma f_add_same:
  "0 \<le> m \<Longrightarrow> 0 \<le> n \<Longrightarrow> rounds_to s (mag m e + mag n f) (f_add (Fin s m e) (Fin s n f))"
proof -
  assume a: "0 \<le> m" "0 \<le> n"
  let ?k = "min e f"
  have "mag (m * 2 ^ nat (e - ?k) + n * 2 ^ nat (f - ?k)) ?k = mag m e + mag n f"
    by (simp add: mag_add mag_pow)
  then show ?thesis
    using mk_scaled_rounds [of "m * 2 ^ nat (e - ?k) + n * 2 ^ nat (f - ?k)" s ?k] a
    by (simp add: Let_def)
qed

lemma f_mul_rounds:
  "0 \<le> m \<Longrightarrow> 0 \<le> n \<Longrightarrow> rounds_to (s \<noteq> t) (mag m e * mag n f) (f_mul (Fin s m e) (Fin t n f))"
  using mk_scaled_rounds [of "m * n" "s \<noteq> t" "e + f"] by (simp add: mag_mult)

lemma div_fin_rounds:
  "0 \<le> m \<Longrightarrow> 0 < n \<Longrightarrow> rounds_to s (mag m e / mag n f) (div_fin s m e n f)"
proof -
  assume a: "0 \<le> m" "0 < n"
  let ?k = "min e f" let ?a = "m * 2 ^ nat (e - ?k)" let ?b = "n * 2 ^ nat (f - ?k)"
  have "(of_int ?a :: rat) / of_int ?b = mag ?a ?k / mag ?b ?k" by (simp add: mag_def)
  also have "\<dots> = mag m e / mag n f" by (simp only: mag_pow min.cobounded1 min.cobounded2)
  finally show ?thesis
    using mk_float_rounds [of ?a ?b s] a by (simp add: div_fin_def Let_def)
qed

lemma wf_rounds: "rounds_to s q x \<Longrightarrow> wf_float x"
  by (auto simp: rounds_to_def split: if_splits)

lemma not_nan_rounds: "rounds_to s q x \<Longrightarrow> not_nan x"
  by (auto simp: rounds_to_def split: if_splits)

lemma wf_mk_float: "0 \<le> n \<Longrightarrow> 0 < d \<Longrightarrow> wf_float (mk_float s n d)"
  using mk_float_rounds wf_rounds by blast

lemma not_nan_mk_float: "0 \<le> n \<Longrightarrow> 0 < d \<Longrightarrow> not_nan (mk_float s n d)"
  using mk_float_rounds not_nan_rounds by blast

lemma wf_of_frac: "0 < d \<Longrightarrow> wf_float (of_frac n d)"
  by (simp add: of_frac_def wf_mk_float)

lemma wf_mk_scaled: "0 \<le> m \<Longrightarrow> wf_float (mk_scaled s m e)"
  using mk_scaled_rounds wf_rounds by blast

lemma wf_of_scaled: "wf_float (of_scaled m e)"
  by (simp add: of_scaled_def wf_mk_scaled)

lemma wf_f_add: "wf_float x \<Longrightarrow> wf_float y \<Longrightarrow> wf_float (f_add x y)"
  by (cases x; cases y) (auto simp: Let_def intro!: wf_mk_scaled wf_of_scaled)

lemma wf_f_neg [simp]: "wf_float (f_neg x) = wf_float x"
  by (cases x) auto

lemma wf_f_abs [simp]: "wf_float x \<Longrightarrow> wf_float (f_abs x)"
  by (cases x) auto

lemma wf_f_sub: "wf_float x \<Longrightarrow> wf_float y \<Longrightarrow> wf_float (f_sub x y)"
  by (simp add: f_sub_def wf_f_add)

lemma wf_f_mul: "wf_float x \<Longrightarrow> wf_float y \<Longrightarrow> wf_float (f_mul x y)"
  by (cases x; cases y) (auto intro!: wf_mk_scaled)

lemma wf_f_div: "wf_float x \<Longrightarrow> wf_float y \<Longrightarrow> f_div x y = Inr z \<Longrightarrow> wf_float z"
proof (cases x; cases y)
  fix s m e t n f
  assume "x = Fin s m e" "y = Fin t n f" "wf_float x" "wf_float y" "f_div x y = Inr z"
  then show ?thesis using div_fin_rounds [of m n "s \<noteq> t" e f] wf_rounds by (auto split: if_splits)
qed (auto split: if_splits simp: bound_pos)

lemma wf_float_of_int: "float_of_int n = Inr x \<Longrightarrow> wf_float x"
proof -
  assume "float_of_int n = Inr x"
  then have "x = of_frac n 1" by (auto simp: float_of_int_def split: pyfloat.splits)
  then show ?thesis by (simp add: wf_of_frac)
qed

text \<open>Rounding keeps the order.\<close>

lemma rounds_mono: "rounds_to False q x \<Longrightarrow> rounds_to False r y \<Longrightarrow> q \<le> r \<Longrightarrow> f_le x y"
  using b64_mono [of q r] by (auto simp: rounds_to_def f_le_val split: if_splits)

lemma rounds_antimono: "rounds_to True q x \<Longrightarrow> rounds_to True r y \<Longrightarrow> q \<le> r \<Longrightarrow> f_le y x"
  using b64_mono [of q r] by (auto simp: rounds_to_def f_le_val split: if_splits)

lemma rounds_signs: "rounds_to True q x \<Longrightarrow> rounds_to False r y \<Longrightarrow> f_le x y"
  using b64_nonneg [of q] b64_nonneg [of r]
  by (auto simp: rounds_to_def f_le_val simp del: b64_nonneg split: if_splits)

lemma rounds_nonneg: "rounds_to False q x \<Longrightarrow> f_le f_zero x"
  by (auto simp: rounds_to_def f_le_val f_zero_def mag_nonneg split: if_splits)

text \<open>The value of a rounded number that is in the format already.\<close>

lemma rounds_exact:
  "rounds_to s q x \<Longrightarrow> b64 q = q \<Longrightarrow> q < b64_bound \<Longrightarrow>
     \<exists>m e. x = Fin s m e \<and> 0 \<le> m \<and> mag m e = q"
  by (auto simp: rounds_to_def)

lemma int_below_bound: "(m::int) < 2 ^ 53 \<Longrightarrow> of_int m < b64_bound"
proof -
  assume "m < 2 ^ 53"
  then have "(of_int m :: rat) < of_int (2 ^ 53)" by (simp only: of_int_less_iff)
  also have "\<dots> = 2 powi 53" by simp
  also have "\<dots> \<le> b64_bound" unfolding b64_bound_def using b64.powi_mono [of 53 1024] by simp
  finally show ?thesis .
qed

lemma rounds_int:
  "rounds_to s (of_int k) x \<Longrightarrow> 0 \<le> k \<Longrightarrow> k < 2 ^ 53 \<Longrightarrow>
     \<exists>m e. x = Fin s m e \<and> 0 \<le> m \<and> mag m e = of_int k"
  by (rule rounds_exact) (simp_all add: b64_int int_below_bound)

text \<open>A result bounded above by an integer below \<open>2 ^ 53\<close>.\<close>

lemma rounds_le_int:
  "rounds_to False q x \<Longrightarrow> q \<le> of_int k \<Longrightarrow> 0 \<le> k \<Longrightarrow> k < 2 ^ 53 \<Longrightarrow>
     \<exists>m e. x = Fin False m e \<and> 0 \<le> m \<and> mag m e \<le> of_int k"
proof -
  assume a: "rounds_to False q x" "q \<le> of_int k" "0 \<le> k" "k < 2 ^ 53"
  have "b64 q \<le> of_int k" using b64_mono [OF a(2)] a by (simp add: b64_int)
  moreover have "b64 q < b64_bound" using calculation int_below_bound [OF a(4)] by simp
  ultimately show ?thesis using a(1) by (auto simp: rounds_to_def)
qed

lemma rounds_ge_int:
  "rounds_to s q (Fin s m e) \<Longrightarrow> of_int k \<le> q \<Longrightarrow> 0 \<le> k \<Longrightarrow> k < 2 ^ 53 \<Longrightarrow> of_int k \<le> mag m e"
  using b64_mono [of "of_int k" q] by (auto simp: rounds_to_def b64_int split: if_splits)

lemma float_of_int_rounds:
  "0 \<le> k \<Longrightarrow> k < 2 ^ 53 \<Longrightarrow>
     \<exists>m e. float_of_int k = Inr (Fin False m e) \<and> 0 \<le> m \<and> mag m e = of_int k"
proof -
  assume a: "0 \<le> k" "k < 2 ^ 53"
  have "rounds_to False (of_int k) (of_frac k 1)"
    using mk_float_rounds [of k 1 False] a by (simp add: of_frac_def)
  from rounds_int [OF this a] show ?thesis by (auto simp: float_of_int_def)
qed

lemma int_by_round: "round_to_int (Fin s m e) = Inr (rhe (fval (Fin s m e)))"
proof -
  obtain n d where f: "frac_of 2 (if s then - m else m) e = (n, d)" by fastforce
  then have "0 < d" "(of_int n :: rat) / of_int d = fval (Fin s m e)"
    using frac_of_mag [OF f] by (auto simp: mag_def)
  then show ?thesis using f by (simp add: round_to_int_def rhe_div_rhe)
qed

section \<open>Maximum and minimum\<close>

lemma fmax_from_mem: "fmax_from m xs \<in> insert m (set xs)"
proof (induction xs arbitrary: m)
  case (Cons x xs)
  then show ?case using Cons.IH [of x] Cons.IH [of m] by auto
qed simp

lemma fmin_from_mem: "fmin_from m xs \<in> insert m (set xs)"
proof (induction xs arbitrary: m)
  case (Cons x xs)
  then show ?case using Cons.IH [of x] Cons.IH [of m] by auto
qed simp

lemma fmax_from_ge:
  "\<forall>x \<in> insert m (set xs). not_nan x \<Longrightarrow> x \<in> insert m (set xs) \<Longrightarrow> f_le x (fmax_from m xs)"
proof (induction xs arbitrary: m x)
  case Nil
  then show ?case by (simp add: f_le_refl)
next
  case (Cons y ys)
  let ?m = "if f_lt m y then y else m"
  have ok: "\<forall>x \<in> insert ?m (set ys). not_nan x" using Cons.prems by auto
  have m: "f_le m ?m" "f_le y ?m"
    using Cons.prems f_le_not_lt [of y m] by (auto simp: f_le_refl f_lt_imp_le)
  have top: "f_le ?m (fmax_from ?m ys)" using Cons.IH [OF ok, of ?m] by blast
  consider "x = m" | "x = y" | "x \<in> set ys" using Cons.prems by auto
  then have "f_le x (fmax_from ?m ys)"
  proof cases
    case 1
    then show ?thesis using f_le_trans [OF m(1) top] by (simp only:)
  next
    case 2
    then show ?thesis using f_le_trans [OF m(2) top] by (simp only:)
  next
    case 3
    then show ?thesis using Cons.IH [OF ok, of x] by blast
  qed
  then show ?case by (simp only: fmax_from.simps)
qed

lemma py_max_mem: "py_max xs = Inr m \<Longrightarrow> m \<in> set xs"
  using fmax_from_mem by (auto simp: py_max_def split: list.splits)

lemma py_max_ge: "py_max xs = Inr m \<Longrightarrow> \<forall>x \<in> set xs. not_nan x \<Longrightarrow> x \<in> set xs \<Longrightarrow> f_le x m"
  using fmax_from_ge by (auto simp: py_max_def split: list.splits)

lemma py_max_total: "xs \<noteq> [] \<Longrightarrow> \<exists>m. py_max xs = Inr m"
  by (cases xs) (auto simp: py_max_def)

lemma py_min_total: "xs \<noteq> [] \<Longrightarrow> \<exists>m. py_min xs = Inr m"
  by (cases xs) (auto simp: py_min_def)

lemma py_min_mem: "py_min xs = Inr m \<Longrightarrow> m \<in> set xs"
  using fmin_from_mem by (auto simp: py_min_def split: list.splits)

section \<open>Printing and reading back\<close>

lemma no_underscores:
  "CHR ''_'' \<notin> set s \<Longrightarrow> prev \<noteq> Some (CHR ''_'') \<Longrightarrow> drop_underscores prev s = Some s"
  by (induction s arbitrary: prev) auto

lemma dval_zeros: "dval (replicate j (CHR ''0'') @ s) = dval s"
proof -
  have "dval (replicate j (CHR ''0'')) = 0"
    by (induction j) (auto simp: dval_def ccode_def simp flip: replicate_append_same)
  then show ?thesis by (simp add: dval_append)
qed

lemma digits_pad0: "\<forall>c \<in> set s. is_digit c \<Longrightarrow> c \<in> set (pad0 k s) \<Longrightarrow> is_digit c"
  by (auto simp: pad0_def is_digit_def ccode_def split: if_splits)

lemma length_pad0: "length s \<le> k \<Longrightarrow> length (pad0 k s) = k"
  by (simp add: pad0_def)

lemma takeWhile_digits:
  "\<forall>c \<in> set s. is_digit c \<Longrightarrow> \<not> is_digit d \<Longrightarrow>
     takeWhile is_digit (s @ d # t) = s \<and> dropWhile is_digit (s @ d # t) = d # t"
  by (induction s) auto

lemma dec_literal_fixed:
  assumes "0 \<le> n" and "0 < k"
  shows "dec_literal (fixed k n) = Some (n, - int k)"
proof -
  let ?ip = "dec_digits (n div 10 ^ k)" let ?fp = "pad0 k (dec_digits (n mod 10 ^ k))"
  have q: "0 \<le> n div 10 ^ k" "0 \<le> n mod 10 ^ k" "n mod 10 ^ k < 10 ^ k"
    using assms by (simp_all add: pos_imp_zdiv_nonneg_iff)
  have ip: "\<forall>c \<in> set ?ip. is_digit c" using dec_digits_all q by blast
  have fp: "\<forall>c \<in> set ?fp. is_digit c" using dec_digits_all q digits_pad0 by blast
  have len: "length ?fp = k" using length_dec_digits [OF q(2,3)] assms by (simp add: length_pad0)
  have dot: "\<not> is_digit (CHR ''.'')" by (simp add: is_digit_def ccode_def)
  have tw: "takeWhile is_digit (fixed k n) = ?ip" "dropWhile is_digit (fixed k n) = CHR ''.'' # ?fp"
    using takeWhile_digits [OF ip dot, of ?fp] by (simp_all add: fixed_def)
  have fs: "frac_split (CHR ''.'' # ?fp) = (?fp, [])"
    using fp by (simp add: frac_split_def takeWhile_eq_all_conv dropWhile_eq_Nil_conv)
  have "dval (?ip @ ?fp) = n div 10 ^ k * 10 ^ k + n mod 10 ^ k"
    unfolding dval_append len by (simp add: pad0_def dval_zeros dval_dec_digits q)
  then have v: "dval (?ip @ ?fp) = n" by (simp only: div_mult_mod_eq)
  show ?thesis
    unfolding dec_literal_def Let_def tw fs case_prod_conv v
    by (simp add: exp_part_def len)
qed

lemma fixed_chars: "0 \<le> n \<Longrightarrow> c \<in> set (fixed k n) \<Longrightarrow> is_digit c \<or> c = CHR ''.''"
  using dec_digits_all [of "n div 10 ^ k"]
    digits_pad0 [of "dec_digits (n mod 10 ^ k)" c k] dec_digits_all [of "n mod 10 ^ k"]
  by (auto simp: fixed_def pos_imp_zdiv_nonneg_iff)

lemma hd_fixed: "0 \<le> n \<Longrightarrow> is_digit (hd (fixed k n))"
  using dec_digits_all [of "n div 10 ^ k" "hd (dec_digits (n div 10 ^ k))"]
  by (simp add: fixed_def pos_imp_zdiv_nonneg_iff)

lemma last_fixed: "0 \<le> n \<Longrightarrow> is_digit (last (fixed k n))"
  using dec_digits_all [of "n mod 10 ^ k" "last (dec_digits (n mod 10 ^ k))"]
  by (simp add: fixed_def pad0_def)

lemma fixed_not_Nil [simp]: "fixed k n \<noteq> []"
  by (simp add: fixed_def)

lemma parse_fixed:
  assumes "0 \<le> n" and "0 < k"
  shows "parse_float ((if s then ''-'' else '''') @ fixed k n) = Some (mk_float s n (10 ^ k))"
proof -
  let ?t = "(if s then ''-'' else '''') @ fixed k n"
  have last: "last ?t = last (fixed k n)" "hd ?t = (if s then CHR ''-'' else hd (fixed k n))"
    by auto
  have sp: "py_strip ?t = ?t"
    using digit_not_space [OF hd_fixed [OF assms(1), of k]]
      digit_not_space [OF last_fixed [OF assms(1), of k]]
    by (intro py_strip_id disjI2) (simp add: last is_space_def ccode_def)
  have "CHR ''_'' \<notin> set (fixed k n)"
    using fixed_chars [OF assms(1), of "CHR ''_''" k] digit_not_underscore by auto
  then have us: "drop_underscores None ?t = Some ?t" by (intro no_underscores) auto
  have sg: "split_sign ?t = (s, fixed k n)"
  proof (cases s)
    case False
    then show ?thesis using split_sign_digits [OF fixed_not_Nil hd_fixed [OF assms(1)]] by simp
  qed (simp add: split_sign_def)
  have "lower_char (hd (fixed k n)) = hd (fixed k n)"
    using hd_fixed [OF assms(1), of k] by (auto simp: lower_char_def is_digit_def)
  then have "hd (py_lower (fixed k n)) = hd (fixed k n)"
    by (simp add: py_lower_def hd_map)
  moreover have "hd (fixed k n) \<noteq> CHR ''i''" "hd (fixed k n) \<noteq> CHR ''n''"
    using hd_fixed [OF assms(1), of k] by (auto simp: is_digit_def ccode_def)
  ultimately have nothd: "hd (py_lower (fixed k n)) \<noteq> CHR ''i''" "hd (py_lower (fixed k n)) \<noteq> CHR ''n''"
    by simp_all
  have low: "py_lower (fixed k n) \<noteq> ''inf''" "py_lower (fixed k n) \<noteq> ''infinity''"
      "py_lower (fixed k n) \<noteq> ''nan''"
    using nothd by auto
  show ?thesis
    unfolding parse_float_def sp us option.case sg case_prod_conv
    using low assms by (simp add: dec_literal_fixed [OF assms] frac_of_def)
qed

text \<open>What \<open>float(f"{x:.3f}")\<close> yields.\<close>

fun reparse :: "pyfloat \<Rightarrow> pyfloat" where
  "reparse (Fin s m e) = (case frac_of 2 m e of (n, d) \<Rightarrow> mk_float s (rhe_div (n * 1000) d) 1000)"
| "reparse x = x"

definition milli :: "rat \<Rightarrow> rat" where
  "milli q = of_int (rhe (q * 1000)) / 1000"

lemma milli_mono: "p \<le> q \<Longrightarrow> milli p \<le> milli q"
  using rhe_mono [of "p * 1000" "q * 1000"] by (simp add: milli_def divide_right_mono)

lemma milli_int [simp]: "milli (of_int k) = of_int k"
proof -
  have "(of_int k * 1000 :: rat) = of_int (k * 1000)" by simp
  then have "rhe (of_int k * 1000) = k * 1000" by (simp only: rhe_of_int)
  then show ?thesis by (simp add: milli_def)
qed

lemma frac_of_milli:
  "frac_of 2 m e = (n, d) \<Longrightarrow> rhe_div (n * 1000) d = rhe (mag m e * 1000)"
proof -
  assume "frac_of 2 m e = (n, d)"
  then have "0 < d" "(of_int n :: rat) / of_int d = mag m e" using frac_of_mag by blast+
  then have "(of_int (n * 1000) :: rat) / of_int d = mag m e * 1000"
    by (simp add: field_simps)
  then show ?thesis using \<open>0 < d\<close> by (simp only: rhe_div_rhe)
qed

lemma rhe_milli_nonneg: "0 \<le> m \<Longrightarrow> 0 \<le> rhe (mag m e * 1000)"
  by (intro rhe_nonneg) (simp add: mag_nonneg)

lemma reparse_rounds: "0 \<le> m \<Longrightarrow> rounds_to s (milli (mag m e)) (reparse (Fin s m e))"
proof -
  assume m: "0 \<le> m"
  obtain n d where f: "frac_of 2 m e = (n, d)" by fastforce
  show ?thesis
    using mk_float_rounds [of "rhe (mag m e * 1000)" 1000 s] rhe_milli_nonneg [OF m]
    by (simp add: f frac_of_milli [OF f] milli_def)
qed

lemma parse_fmt3: "wf_float x \<Longrightarrow> parse_float (fmt3 x) = Some (reparse x)"
proof (cases x)
  case (Fin s m e)
  assume "wf_float x"
  then have m: "0 \<le> m" using Fin by auto
  obtain n d where f: "frac_of 2 m e = (n, d)" by fastforce
  have "0 \<le> rhe_div (n * 1000) d" using rhe_milli_nonneg [OF m] frac_of_milli [OF f] by simp
  then show ?thesis using parse_fixed [of "rhe_div (n * 1000) d" 3 s] Fin f by (simp add: fmt3_def)
qed (simp_all add: fmt3_def parse_float_def py_strip_def is_space_def ccode_def split_sign_def
    py_lower_def lower_char_def split: if_splits)

lemma wf_reparse: "wf_float x \<Longrightarrow> wf_float (reparse x)"
proof (cases x)
  case (Fin s m e)
  assume "wf_float x"
  then show ?thesis using reparse_rounds [of m s e] wf_rounds Fin by auto
qed simp_all

lemma not_nan_reparse: "wf_float x \<Longrightarrow> not_nan x \<Longrightarrow> not_nan (reparse x)"
proof (cases x)
  case (Fin s m e)
  assume "wf_float x"
  then show ?thesis using reparse_rounds [of m s e] not_nan_rounds Fin by auto
qed simp_all

lemma f_le_extremes: "not_nan x \<Longrightarrow> f_le x (FInf False)" "not_nan x \<Longrightarrow> f_le (FInf True) x"
  by (cases x; auto simp: f_le_val)+

text \<open>Printing and reading back keeps the order.\<close>

lemma reparse_mono:
  assumes "wf_float x" and "wf_float y" and "f_le x y"
  shows "f_le (reparse x) (reparse y)"
proof (cases x)
  case (Fin s m e)
  have rx: "rounds_to s (milli (mag m e)) (reparse x)"
    using reparse_rounds assms(1) Fin by auto
  show ?thesis
  proof (cases y)
    case Fy: (Fin t n f)
    have ry: "rounds_to t (milli (mag n f)) (reparse y)"
      using reparse_rounds assms(2) Fy by auto
    have nn: "0 \<le> mag m e" "0 \<le> mag n f" using assms Fin Fy by (auto intro: mag_nonneg)
    show ?thesis
    proof (cases s; cases t)
      assume "s" "t"
      then show ?thesis
        using rounds_antimono [of "milli (mag n f)"] rx ry milli_mono assms(3) Fin Fy
        by (auto simp: f_le_val)
    next
      assume "s" "\<not> t"
      then show ?thesis using rounds_signs rx ry by auto
    next
      assume "\<not> s" "t"
      then have "mag m e = 0" "mag n f = 0" using assms(3) nn Fin Fy by (auto simp: f_le_val)
      then show ?thesis using rx ry bound_pos by (auto simp: rounds_to_def milli_def f_le_val)
    next
      assume "\<not> s" "\<not> t"
      then show ?thesis
        using rounds_mono [of "milli (mag m e)"] rx ry milli_mono assms(3) Fin Fy
        by (auto simp: f_le_val)
    qed
  next
    case (FInf t)
    then have "t = False" using assms(3) Fin by (auto simp: f_le_val split: if_splits)
    then show ?thesis using FInf not_nan_rounds [OF rx] by (simp add: f_le_extremes)
  qed (use assms(3) in \<open>simp add: f_le_val\<close>)
next
  case (FInf s)
  show ?thesis
  proof (cases s)
    case True
    then show ?thesis
      using FInf assms not_nan_reparse [OF assms(2)] f_le_not_nan [OF assms(3)]
      by (simp add: f_le_extremes)
  next
    case False
    then have "y = FInf False" using FInf assms(3) by (cases y) (auto simp: f_le_val split: if_splits)
    then show ?thesis using FInf False by (simp add: f_le_val)
  qed
next
  case FNan
  then show ?thesis using assms by (simp add: f_le_val)
qed

text \<open>An integer is read back unchanged.\<close>

lemma reparse_int:
  assumes "0 \<le> m" and "mag m e = of_int k" and "0 \<le> k" and "k < 2 ^ 53"
  shows "\<exists>m' e'. reparse (Fin s m e) = Fin s m' e' \<and> 0 \<le> m' \<and> mag m' e' = of_int k"
  using reparse_rounds [OF assms(1), of s e] rounds_int [OF _ assms(3,4)] assms(2)
  by simp

section \<open>Sums, and values on a grid\<close>

lemma f_add_rounds:
  assumes "0 \<le> m" and "0 \<le> n"
  shows "\<exists>u. rounds_to u \<bar>fval (Fin s m e) + fval (Fin t n f)\<bar> (f_add (Fin s m e) (Fin t n f)) \<and>
    (0 < fval (Fin s m e) + fval (Fin t n f) \<longrightarrow> \<not> u) \<and>
    (fval (Fin s m e) + fval (Fin t n f) < 0 \<longrightarrow> u)"
proof (cases "s = t")
  case True
  have "\<bar>fval (Fin s m e) + fval (Fin t n f)\<bar> = mag m e + mag n f"
    using True mag_nonneg [OF assms(1), of e] mag_nonneg [OF assms(2), of f] by auto
  moreover have "0 < fval (Fin s m e) + fval (Fin t n f) \<Longrightarrow> \<not> s"
    and "fval (Fin s m e) + fval (Fin t n f) < 0 \<Longrightarrow> s"
    using True mag_nonneg [OF assms(1), of e] mag_nonneg [OF assms(2), of f] by auto
  ultimately show ?thesis using f_add_same [OF assms, of s e f] True by auto
next
  case False
  let ?k = "min e f" let ?M = "aligned s m e ?k + aligned t n f ?k"
  have M: "mag ?M ?k = fval (Fin s m e) + fval (Fin t n f)"
    unfolding mag_def of_int_add distrib_right by (simp only: aligned_value min.cobounded1 min.cobounded2)
  have r: "f_add (Fin s m e) (Fin t n f) = of_scaled ?M ?k" using False by (simp add: Let_def)
  show ?thesis
  proof (cases "?M < 0")
    case True
    then have "mag ?M ?k < 0" by (simp add: mag_def mult_neg_pos)
    moreover have "mag (- ?M) ?k = - mag ?M ?k" by (rule mag_minus)
    ultimately have "mag (- ?M) ?k = \<bar>fval (Fin s m e) + fval (Fin t n f)\<bar>"
      and "\<not> 0 < fval (Fin s m e) + fval (Fin t n f)" using M by linarith+
    moreover have "f_add (Fin s m e) (Fin t n f) = mk_scaled True (- ?M) ?k"
      using r True by (simp only: of_scaled_def if_True)
    ultimately show ?thesis
      using mk_scaled_rounds [of "- ?M" True ?k] True by (metis neg_0_le_iff_le less_imp_le)
  next
    case False
    then have "0 \<le> mag ?M ?k" by (simp add: mag_nonneg)
    then have "mag ?M ?k = \<bar>fval (Fin s m e) + fval (Fin t n f)\<bar>"
      and "\<not> fval (Fin s m e) + fval (Fin t n f) < 0" using M by linarith+
    moreover have "f_add (Fin s m e) (Fin t n f) = mk_scaled False ?M ?k"
      using r False by (simp only: of_scaled_def if_False)
    ultimately show ?thesis
      using mk_scaled_rounds [of ?M False ?k] False by (metis not_less)
  qed
qed

text \<open>The values read back from three-decimal text lie on the grid of multiples of \<open>2 powi - 62\<close>.\<close>

definition on_grid :: "pyfloat \<Rightarrow> bool" where
  "on_grid x \<longleftrightarrow> wf_float x \<and> (is_finite x \<longrightarrow> (\<exists>j. fval x = of_int j * 2 powi (- 62)))"

lemma b64_grid: "1 / 1000 \<le> q \<Longrightarrow> \<exists>j. b64 q = of_int j * 2 powi (- 62)"
proof -
  assume q: "1 / 1000 \<le> q"
  then have pos: "0 < q" by simp
  have "(2::rat) powi (- 10) = 1 / 1024" by (simp add: power_int_def power_divide)
  then have "(2::rat) powi (- 10) \<le> q" using q by simp
  then have "(2::rat) powi (- 10) < 2 powi (rlog 2 q + 1)"
    using rlog_bounds [of 2 q] pos by simp
  then have "- 10 \<le> rlog 2 q" using b64.powi_less [of "- 10" "rlog 2 q + 1"] by simp
  then have e: "- 62 \<le> rexp 2 53 (- 1074) q" by (simp add: rexp_def)
  let ?e = "rexp 2 53 (- 1074) q"
  have "(2::rat) powi ?e = 2 powi (?e - (- 62)) * 2 powi (- 62)"
    using power_int_add [of "2::rat" "?e - (- 62)" "- 62"] by simp
  also have "(2::rat) powi (?e - (- 62)) = of_int (2 ^ nat (?e + 62))"
    using e b64.powi_int [of "?e - (- 62)"] by simp
  finally have "b64 q = of_int (rhe (q / 2 powi ?e) * 2 ^ nat (?e + 62)) * 2 powi (- 62)"
    using b64.rnd_pos [OF pos] by (simp add: b64_def)
  then show ?thesis by blast
qed

lemma on_grid_reparse: "wf_float x \<Longrightarrow> on_grid (reparse x)"
proof (cases x)
  case (Fin s m e)
  assume "wf_float x"
  then have m: "0 \<le> m" using Fin by simp
  have r: "rounds_to s (milli (mag m e)) (reparse x)" using reparse_rounds [OF m] Fin by simp
  have "\<exists>j. b64 (milli (mag m e)) = of_int j * 2 powi (- 62)"
  proof (cases "rhe (mag m e * 1000) = 0")
    case True
    then show ?thesis by (auto simp: milli_def intro!: exI [of _ 0])
  next
    case False
    then have "1 \<le> rhe (mag m e * 1000)" using rhe_milli_nonneg [OF m, of e] by simp
    then have "1 / 1000 \<le> milli (mag m e)" by (simp add: milli_def divide_right_mono)
    then show ?thesis by (rule b64_grid)
  qed
  then obtain j where j: "b64 (milli (mag m e)) = of_int j * 2 powi (- 62)" by blast
  show ?thesis
  proof (cases "is_finite (reparse x)")
    case True
    then obtain m' e' where x: "reparse x = Fin s m' e'" "mag m' e' = b64 (milli (mag m e))"
      using r by (auto simp: rounds_to_def split: if_splits)
    have "fval (reparse x) = of_int (if s then - j else j) * 2 powi (- 62)"
      using x j by simp
    then show ?thesis using wf_rounds [OF r] unfolding on_grid_def by blast
  qed (simp add: on_grid_def wf_rounds [OF r])
qed (simp_all add: on_grid_def)

lemma fval_f_neg: "fval (f_neg x) = - fval x"
  by (cases x) auto

lemma f_sub_grid:
  assumes "on_grid x" and "on_grid y" and "f_sub x y = Fin s m e" and "f_lt f_zero (f_sub x y)"
  shows "\<not> s \<and> 0 < m \<and> 2 powi (- 62) \<le> mag m e"
proof -
  obtain a b c where x: "x = Fin a b c" using assms(3) by (cases x; cases y) (auto simp: f_sub_def split: if_splits)
  obtain a' b' c' where y: "y = Fin a' b' c'" using assms(3) x by (cases y) (auto simp: f_sub_def)
  have nn: "0 \<le> b" "0 \<le> b'" using assms(1,2) x y by (simp_all add: on_grid_def)
  let ?q = "fval x - fval y"
  have q: "fval (Fin a b c) + fval (Fin (\<not> a') b' c') = ?q" using x y by simp
  have "f_add (Fin a b c) (Fin (\<not> a') b' c') = Fin s m e" using assms(3) x y by (simp add: f_sub_def)
  then obtain u where u: "rounds_to u \<bar>?q\<bar> (Fin s m e)" "0 < ?q \<longrightarrow> \<not> u"
    using f_add_rounds [OF nn, of a c "\<not> a'" c'] unfolding q by auto
  then have m: "0 \<le> m" "mag m e = b64 \<bar>?q\<bar>" "s = u" by (auto simp: rounds_to_def split: if_splits)
  have pos: "0 < fval (Fin s m e)" using assms(3,4) by (simp add: f_lt_val f_zero_def)
  then have s: "\<not> s" "0 < mag m e" using mag_nonneg [OF m(1), of e] by (cases s; simp)+
  obtain j k where jk: "fval x = of_int j * 2 powi (- 62)" "fval y = of_int k * 2 powi (- 62)"
    using assms(1,2) x y by (auto simp: on_grid_def)
  have "?q \<noteq> 0" using s(2) m(2) by auto
  have qe: "?q = of_int (j - k) * 2 powi (- 62)"
    unfolding jk by (simp only: of_int_diff left_diff_distrib)
  have "\<bar>?q\<bar> = of_int \<bar>j - k\<bar> * 2 powi (- 62)"
    unfolding qe by (simp only: abs_mult of_int_abs) simp
  moreover have "1 \<le> \<bar>j - k\<bar>" using \<open>?q \<noteq> 0\<close> jk by auto
  then have "(1::rat) \<le> of_int \<bar>j - k\<bar>" by linarith
  then have "1 * (2::rat) powi (- 62) \<le> of_int \<bar>j - k\<bar> * 2 powi (- 62)"
    by (intro mult_right_mono) simp_all
  ultimately have "2 powi (- 62) \<le> \<bar>?q\<bar>" by simp
  then have "2 powi (- 62) \<le> b64 \<bar>?q\<bar>" unfolding b64_def using b64.rnd_ge_power [of "- 62"] by simp
  moreover have "m \<noteq> 0" using s(2) by auto
  ultimately show ?thesis using s m by simp
qed

section \<open>Integer values\<close>

text \<open>\<open>is_int_val x k\<close>: the finite value \<open>x\<close> is the integer \<open>k\<close> (of either zero, for 0).\<close>

definition is_int_val :: "pyfloat \<Rightarrow> int \<Rightarrow> bool" where
  "is_int_val x k \<longleftrightarrow> (\<exists>s m e. x = Fin s m e \<and> 0 \<le> m) \<and> fval x = of_int k"

lemma is_int_valE:
  assumes "is_int_val x k"
  obtains s m e where "x = Fin s m e" "0 \<le> m" "fval (Fin s m e) = of_int k"
  using assms by (auto simp: is_int_val_def)

lemma is_int_val_zero: "is_int_val f_zero 0"
  unfolding is_int_val_def f_zero_def by (auto intro: exI [of _ False])

lemma f_add_ints:
  assumes "is_int_val x j" and "is_int_val y k" and "\<bar>j + k\<bar> < 2 ^ 53"
  shows "is_int_val (f_add x y) (j + k)"
proof -
  obtain s m e where x: "x = Fin s m e" "0 \<le> m" "fval (Fin s m e) = of_int j"
    using assms(1) by (rule is_int_valE)
  obtain t n f where y: "y = Fin t n f" "0 \<le> n" "fval (Fin t n f) = of_int k"
    using assms(2) by (rule is_int_valE)
  have v: "fval (Fin s m e) + fval (Fin t n f) = of_int (j + k)" unfolding x(3) y(3) by simp
  obtain u where u: "rounds_to u (of_int \<bar>j + k\<bar>) (f_add x y)" "0 < (of_int (j + k) :: rat) \<longrightarrow> \<not> u"
      "of_int (j + k) < (0 :: rat) \<longrightarrow> u"
    using f_add_rounds [OF x(2) y(2), of s e t f] unfolding v of_int_abs x(1) y(1) by blast
  from rounds_int [OF u(1) _ assms(3)] obtain m' e' where
    r: "f_add x y = Fin u m' e'" "0 \<le> m'" "mag m' e' = of_int \<bar>j + k\<bar>" by auto
  have "fval (Fin u m' e') = of_int (j + k)"
    using u(2,3) r(3) by (cases "j + k" "0 :: int" rule: linorder_cases) auto
  then show ?thesis using r(1,2) by (auto simp: is_int_val_def)
qed

lemma is_int_val_neg: "is_int_val x k \<Longrightarrow> is_int_val (f_neg x) (- k)"
  by (erule is_int_valE) (auto simp: is_int_val_def split: if_splits)

lemma f_sub_ints: "is_int_val x j \<Longrightarrow> is_int_val y k \<Longrightarrow> \<bar>j - k\<bar> < 2 ^ 53 \<Longrightarrow> is_int_val (f_sub x y) (j - k)"
  using f_add_ints [of x j "f_neg y" "- k"] is_int_val_neg [of y k] by (simp add: f_sub_def)

lemma f_mul_ints:
  assumes "is_int_val x j" and "is_int_val y k" and "\<bar>j * k\<bar> < 2 ^ 53"
  shows "is_int_val (f_mul x y) (j * k)"
proof -
  obtain s m e where x: "x = Fin s m e" "0 \<le> m" "fval (Fin s m e) = of_int j"
    using assms(1) by (rule is_int_valE)
  obtain t n f where y: "y = Fin t n f" "0 \<le> n" "fval (Fin t n f) = of_int k"
    using assms(2) by (rule is_int_valE)
  have p: "0 \<le> mag m e" "0 \<le> mag n f" using x(2) y(2) by (simp_all add: mag_nonneg)
  have v: "mag m e = of_int \<bar>j\<bar>" "mag n f = of_int \<bar>k\<bar>"
    using x(3) y(3) p by (auto split: if_splits)
  then have "mag m e * mag n f = of_int \<bar>j * k\<bar>" by (simp add: abs_mult)
  then have "rounds_to (s \<noteq> t) (of_int \<bar>j * k\<bar>) (f_mul x y)"
    using f_mul_rounds [OF x(2) y(2), of s t e f] x(1) y(1) by simp
  from rounds_int [OF this _ assms(3)] obtain m' e' where
    r: "f_mul x y = Fin (s \<noteq> t) m' e'" "0 \<le> m'" "mag m' e' = of_int \<bar>j * k\<bar>" by auto
  have "(of_int (j * k) :: rat) = fval (Fin s m e) * fval (Fin t n f)" unfolding x(3) y(3) by simp
  also have "\<dots> = (if s = t then mag m e * mag n f else - (mag m e * mag n f))" by auto
  also have "\<dots> = fval (Fin (s \<noteq> t) m' e')" unfolding v r(3) fval.simps by (simp add: abs_mult)
  finally show ?thesis using r(1,2) by (auto simp: is_int_val_def)
qed

lemma float_of_int_val:
  assumes "0 \<le> k" and "k < 2 ^ 53"
  shows "\<exists>x. float_of_int k = Inr x \<and> is_int_val x k"
  using float_of_int_rounds [OF assms] by (fastforce simp: is_int_val_def)

lemma flit_val:
  assumes "0 \<le> k" and "k < 2 ^ 53"
  shows "is_int_val (flit k 1) k"
proof -
  have "rounds_to False (of_int k) (flit k 1)"
    using mk_float_rounds [of k 1 False] assms by (simp add: flit_def of_frac_def)
  from rounds_int [OF this assms] show ?thesis by (fastforce simp: is_int_val_def)
qed

lemma is_int_val_le: "is_int_val x j \<Longrightarrow> is_int_val y k \<Longrightarrow> f_le x y \<longleftrightarrow> j \<le> k"
  by (auto simp: is_int_val_def f_le_val)

lemma is_int_val_wf: "is_int_val x k \<Longrightarrow> \<bar>k\<bar> < 2 ^ 53 \<Longrightarrow> wf_float x"
proof (erule is_int_valE)
  fix s m e
  assume a: "\<bar>k\<bar> < 2 ^ 53" "x = Fin s m e" "0 \<le> m" "fval (Fin s m e) = of_int k"
  then have "mag m e = of_int \<bar>k\<bar>" using mag_nonneg [OF a(3), of e] by (auto split: if_splits)
  then show ?thesis using a int_below_bound [of "\<bar>k\<bar>"] b64_int [of "\<bar>k\<bar>"] by simp
qed

text \<open>\<open>a / b\<close> of two integers is the correctly rounded quotient.\<close>

definition int_truediv :: "int \<Rightarrow> int \<Rightarrow> pyfloat result" where
  "int_truediv a b =
     (if b = 0 then Inl ZeroDivisionError
      else case of_frac (if b < 0 then - a else a) \<bar>b\<bar> of FInf s \<Rightarrow> Inl OverflowError | x \<Rightarrow> Inr x)"

lemma int_truediv_unit:
  assumes "0 \<le> a" and "a \<le> b" and "0 < b"
  shows "\<exists>x. int_truediv a b = Inr x \<and> rounds_to False (of_int a / of_int b) x \<and>
    f_le f_zero x \<and> f_le x (flit 1 1)"
proof -
  have r: "rounds_to False (of_int a / of_int b) (of_frac a b)"
    using mk_float_rounds [of a b False] assms by (simp add: of_frac_def)
  have "(of_int a / of_int b :: rat) \<le> of_int 1" using assms by simp
  from rounds_le_int [OF r this] obtain m e where f: "of_frac a b = Fin False m e" "0 \<le> m" "mag m e \<le> 1" by auto
  have "f_le (Fin False m e) (flit 1 1)"
    using flit_val [of 1] f(3) by (auto simp: is_int_val_def f_le_val)
  then show ?thesis using assms f r rounds_nonneg [OF r] by (simp add: int_truediv_def)
qed

text \<open>The compensated sum of integers is exact while no partial sum leaves the format.\<close>

lemma sum_step_ints:
  assumes "is_int_val f j" and "is_int_val c 0" and "is_int_val x k" and "0 \<le> j" "0 \<le> k" "j + k < 2 ^ 53"
  shows "is_int_val (fst (sum_step (f, c) x)) (j + k) \<and> is_int_val (snd (sum_step (f, c) x)) 0"
proof -
  have t: "is_int_val (f_add f x) (j + k)" using f_add_ints [OF assms(1,3)] assms(4-6) by simp
  have "is_int_val (f_add (f_sub f (f_add f x)) x) 0"
    using f_add_ints [OF f_sub_ints [OF assms(1) t] assms(3)] assms(4-6) by simp
  moreover have "is_int_val (f_add (f_sub x (f_add f x)) f) 0"
    using f_add_ints [OF f_sub_ints [OF assms(3) t] assms(1)] assms(4-6) by simp
  ultimately show ?thesis
    using t f_add_ints [OF assms(2)] by (fastforce simp: sum_step_def Let_def)
qed

lemma foldl_sum_ints:
  assumes "list_all2 is_int_val xs ks" and "\<forall>k \<in> set ks. 0 \<le> k" and "is_int_val (fst st) j"
    and "is_int_val (snd st) 0" and "0 \<le> j" and "j + sum_list ks < 2 ^ 53"
  shows "is_int_val (fst (foldl sum_step st xs)) (j + sum_list ks) \<and> is_int_val (snd (foldl sum_step st xs)) 0"
  using assms
proof (induction xs ks arbitrary: st j rule: list_all2_induct)
  case (Cons x xs k ks)
  have "0 \<le> sum_list ks" using Cons.prems(1) by (intro sum_list_nonneg) auto
  then have "is_int_val (fst (sum_step st x)) (j + k) \<and> is_int_val (snd (sum_step st x)) 0"
    using Cons sum_step_ints [of "fst st" j "snd st" x k] by simp
  then show ?case using Cons.IH [of "sum_step st x" "j + k"] Cons.prems by (simp add: add.assoc)
qed simp

lemma py_fsum_ints:
  assumes "list_all2 is_int_val xs ks" and "\<forall>k \<in> set ks. 0 \<le> k" and "sum_list ks < 2 ^ 53"
  shows "is_int_val (py_fsum xs) (sum_list ks)"
proof (cases xs)
  case Nil
  then show ?thesis using assms(1) is_int_val_zero by (simp add: py_fsum_def)
next
  case (Cons x ys)
  then obtain k js where k: "ks = k # js" "is_int_val x k" "list_all2 is_int_val ys js"
    using assms(1) by (auto simp: list_all2_Cons1)
  have "0 \<le> sum_list js" using assms(2) k(1) by (intro sum_list_nonneg) auto
  then have "is_int_val (f_add f_zero x) k"
    using f_add_ints [OF is_int_val_zero k(2)] assms(2,3) k(1) by simp
  then have r: "is_int_val (fst (foldl sum_step (f_add f_zero x, f_zero) ys)) (sum_list ks)"
      "is_int_val (snd (foldl sum_step (f_add f_zero x, f_zero) ys)) 0"
    using foldl_sum_ints [OF k(3), of "(f_add f_zero x, f_zero)" k] assms(2,3) k(1) is_int_val_zero by auto
  moreover have "f_is_zero c" if "is_int_val c 0" for c
    using that by (rule is_int_valE) (auto simp: mag_def split: if_splits)
  ultimately show ?thesis by (simp add: py_fsum_def Cons sum_finish_def split_beta)
qed

text \<open>Parsing yields a value of the format.\<close>

lemma wf_parse_float: "parse_float t = Some x \<Longrightarrow> wf_float x"
proof -
  assume a: "parse_float t = Some x"
  have lit: "wf_float (case frac_of 10 c e of (n, d) \<Rightarrow> mk_float neg n d)"
    if "dec_literal s = Some (c, e)" for s c e neg
  proof -
    have ip: "\<forall>c \<in> set (takeWhile is_digit s). is_digit c" by (auto dest: set_takeWhileD)
    have fp: "frac_split r = (fp, rest) \<Longrightarrow> \<forall>c \<in> set fp. is_digit c" for r fp rest
      by (auto simp: frac_split_def dest: set_takeWhileD split: list.splits if_splits)
    have "0 \<le> c"
      using that ip fp by (auto simp: dec_literal_def Let_def split: prod.splits if_splits intro!: dval_nonneg)
    moreover obtain n d where f: "frac_of 10 c e = (n, d)" by fastforce
    moreover have "0 < d" using f by (auto simp: frac_of_def split: if_splits)
    ultimately show ?thesis using frac_of_nonneg [OF f] by (simp add: wf_mk_float)
  qed
  obtain u where u: "drop_underscores None (py_strip t) = Some u"
    using a by (auto simp: parse_float_def split: option.splits)
  obtain neg s where sg: "split_sign u = (neg, s)" by fastforce
  have "x = FInf neg \<or> x = FNan \<or> (\<exists>c e. dec_literal s = Some (c, e) \<and>
      x = (case frac_of 10 c e of (n, d) \<Rightarrow> mk_float neg n d))"
    using a by (auto simp: parse_float_def u sg split: if_splits)
  then show ?thesis using lit by auto
qed

section \<open>Reading back an integer\<close>

fun f_is_integer :: "pyfloat \<Rightarrow> bool" where
  "f_is_integer (Fin s m e) = (case frac_of 2 m e of (n, d) \<Rightarrow> n mod d = 0)"
| "f_is_integer _ = False"

lemma digits_split: "\<forall>c \<in> set s. is_digit c \<Longrightarrow> takeWhile is_digit s = s \<and> dropWhile is_digit s = []"
  by (induction s) auto

lemma parse_dec_digits: "0 \<le> n \<Longrightarrow> parse_float (dec_digits n) = Some (mk_float False n 1)"
proof -
  assume n: "0 \<le> n"
  let ?s = "dec_digits n"
  have all: "\<forall>c \<in> set ?s. is_digit c" using dec_digits_all [OF n] by blast
  then have hd: "is_digit (hd ?s)" by simp
  have us: "CHR ''_'' \<notin> set ?s" using all digit_not_underscore by blast
  have d: "takeWhile is_digit ?s = ?s" "dropWhile is_digit ?s = []"
    using digits_split [OF all] by blast+
  have "dec_literal ?s = Some (n, 0)"
    unfolding dec_literal_def Let_def d frac_split_def exp_part_def by (simp add: dval_dec_digits [OF n])
  moreover have "py_lower ?s \<noteq> ''inf''" "py_lower ?s \<noteq> ''infinity''" "py_lower ?s \<noteq> ''nan''"
    using hd by (cases ?s; auto simp: py_lower_def lower_char_def is_digit_def ccode_def split: if_splits)+
  ultimately show ?thesis
    using no_underscores [OF us, of None] split_sign_digits [OF _ hd] strip_digits [OF all]
    by (simp add: parse_float_def frac_of_def)
qed

end
