(* ===== verification/Csv_Table.thy ===== *)
theory Csv_Table
  imports Py_Text
begin

text \<open>
  What the tools use of Python's \<open>csv\<close> module.  The lexing of the file (quotes, line ends)
  is \<open>csv.reader\<close>'s; its output, the list of records with the cells of each, is the input
  of the model.  \<open>csv.DictReader\<close> is modelled on top of it: the first record is the header,
  empty records are skipped, a short record gives \<open>None\<close> for its missing fields and a long
  one gets the extra key \<open>None\<close>.  Also here: the markdown tables the reports print.
\<close>

section \<open>Rows of a csv.DictReader\<close>

record csv_row =
  cells :: "(string \<times> string option) list"
  extra :: bool

definition dict_row :: "string list \<Rightarrow> string list \<Rightarrow> csv_row" where
  "dict_row fieldnames r =
     \<lparr>cells = zip fieldnames (map Some r) @ map (\<lambda>k. (k, None)) (drop (length r) fieldnames),
      extra = (length fieldnames < length r)\<rparr>"

text \<open>\<open>reader.fieldnames\<close> (\<open>None\<close> for an empty file) and \<open>list(reader)\<close>.\<close>

definition reader_fieldnames :: "string list list \<Rightarrow> string list option" where
  "reader_fieldnames recs = (case recs of [] \<Rightarrow> None | h # _ \<Rightarrow> Some h)"

definition dict_reader :: "string list list \<Rightarrow> csv_row list" where
  "dict_reader recs = (case recs of [] \<Rightarrow> []
     | h # rs \<Rightarrow> map (dict_row h) (filter (\<lambda>r. r \<noteq> []) rs))"

text \<open>\<open>row.get(k)\<close> (a later duplicate of a column wins) and \<open>row.get(k) or ""\<close>.\<close>

definition row_get :: "csv_row \<Rightarrow> string \<Rightarrow> string option" where
  "row_get row k = (case map_of (rev (cells row)) k of None \<Rightarrow> None | Some v \<Rightarrow> v)"

definition row_get_or :: "csv_row \<Rightarrow> string \<Rightarrow> string" where
  "row_get_or row k = (case row_get row k of None \<Rightarrow> [] | Some s \<Rightarrow> s)"

text \<open>\<open>row[k]\<close>: KeyError where the column does not exist; the cell may be \<open>None\<close>.\<close>

definition row_cell :: "csv_row \<Rightarrow> string \<Rightarrow> string option result" where
  "row_cell row k = opt_or_raise (map_of (rev (cells row)) k) (KeyError k)"

lemma row_get_dict_row:
  assumes "distinct fs" and "i < length fs"
  shows "row_get (dict_row fs r) (fs ! i) = (if i < length r then Some (r ! i) else None)"
proof -
  let ?c = "cells (dict_row fs r)"
  have len: "length ?c = length fs" by (simp add: dict_row_def)
  have fst: "map fst ?c = fs"
    by (simp add: dict_row_def comp_def map_fst_zip_take) (metis append_take_drop_id min.commute take_all_iff nat_le_linear min_def)
  have at: "?c ! i = (fs ! i, if i < length r then Some (r ! i) else None)"
    using assms(2) by (auto simp: dict_row_def nth_append)
  have "distinct (map fst (rev ?c))" using fst assms(1) by (simp add: rev_map [symmetric])
  moreover have "?c ! i \<in> set (rev ?c)" using len assms(2) by simp
  ultimately have "map_of (rev ?c) (fs ! i) = Some (if i < length r then Some (r ! i) else None)"
    using at by (simp add: map_of_eq_Some_iff)
  then show ?thesis by (simp add: row_get_def)
qed

section \<open>Markdown tables\<close>

definition markdown_cell :: "string \<Rightarrow> string" where
  "markdown_cell value = py_replace1 (CHR ''|'') (CHR 0x5C # ''|'') (py_replace1 (CHR 0x0A) '' '' value)"

definition markdown_line :: "string list \<Rightarrow> string" where
  "markdown_line vs = ''| '' @ py_join '' | '' (map markdown_cell vs) @ '' |''"

definition markdown_table :: "string list \<Rightarrow> string list list \<Rightarrow> string list" where
  "markdown_table headers rows =
     [markdown_line headers, ''| '' @ py_join '' | '' (map (\<lambda>_. ''---'') headers) @ '' |'']
     @ map markdown_line rows"

text \<open>The columns a reader sees: the line is cut at the bars with no backslash before them.\<close>

fun split_bars :: "bool \<Rightarrow> string \<Rightarrow> string \<Rightarrow> string list" where
  "split_bars esc acc [] = [rev acc]"
| "split_bars esc acc (c # cs) =
     (if c = CHR ''|'' \<and> \<not> esc then rev acc # split_bars False [] cs
      else split_bars (c = CHR 0x5C) (c # acc) cs)"

text \<open>Every bar of an escaped cell has a backslash before it.\<close>

fun guarded :: "bool \<Rightarrow> string \<Rightarrow> bool" where
  "guarded esc [] = True"
| "guarded esc (c # cs) = ((c = CHR ''|'' \<longrightarrow> esc) \<and> guarded (c = CHR 0x5C) cs)"

lemma guarded_escape: "guarded e (py_replace1 (CHR ''|'') (CHR 0x5C # ''|'') s)"
  by (induction s arbitrary: e) (auto simp: py_replace1_def)

lemma guarded_cell: "guarded e (markdown_cell v)"
  by (simp add: markdown_cell_def guarded_escape)

lemma guarded_append_space: "guarded e s \<Longrightarrow> guarded e (s @ '' '')"
  by (induction s arbitrary: e) auto

lemma split_bars_guarded:
  "guarded e s \<Longrightarrow> split_bars e acc (s @ '' '' @ ''|'' @ t) = (rev acc @ s @ '' '') # split_bars False [] t"
  by (induction s arbitrary: e acc) auto

lemma markdown_cell_no_newline: "CHR 0x0A \<notin> set (markdown_cell v)"
  by (auto simp: markdown_cell_def py_replace1_def)

lemma split_bars_join:
  "vs \<noteq> [] \<Longrightarrow> split_bars False [] ('' '' @ py_join '' | '' (map markdown_cell vs) @ '' |'') =
     map (\<lambda>v. '' '' @ markdown_cell v @ '' '') vs @ ['''']"
proof (induction vs)
  case (Cons v vs)
  have step: "split_bars False [] ('' '' @ markdown_cell v @ '' '' @ ''|'' @ t) =
      ('' '' @ markdown_cell v @ '' '') # split_bars False [] t" for t
    using split_bars_guarded [OF guarded_cell, of False "'' ''" v t] by simp
  show ?case
  proof (cases vs)
    case Nil
    then show ?thesis using step [of "[]"] by simp
  next
    case (Cons w ws)
    then show ?thesis
      using step [of "'' '' @ py_join '' | '' (map markdown_cell vs) @ '' |''"] Cons.IH by simp
  qed
qed simp

text \<open>A printed line has one column per value, and each column holds its escaped value.\<close>

lemma markdown_line_columns:
  "vs \<noteq> [] \<Longrightarrow> split_bars False [] (markdown_line vs) =
     [''''] @ map (\<lambda>v. '' '' @ markdown_cell v @ '' '') vs @ ['''']"
  using split_bars_join [of vs] by (simp add: markdown_line_def)

end
