(* ===== verification/Trace_Replay.thy ===== *)
theory Trace_Replay
  imports Py_Float Csv_Table
begin

text \<open>
  \<open>examples/lt/tools/run_trace_replay_lab.py\<close>: loading and validating a normalised memory
  trace, replaying it through the minimal latency and bank-conflict model, summarising a
  replay, validating the summaries, and the comparison report.  A trace file is the list of
  its CSV records, or \<open>None\<close> when it does not exist; its display path is a parameter.
\<close>

unbundle bit_operations_syntax

section \<open>Constants\<close>

definition REQUIRED_FIELDS :: "string list" where
  "REQUIRED_FIELDS = [''workload_name'', ''txn_id'', ''timestamp_ns'', ''initiator_id'',
     ''command'', ''address'', ''size_bytes'']"

definition SUMMARY_FIELDS :: "string list" where
  "SUMMARY_FIELDS = [''workload_name'', ''num_transactions'', ''avg_latency_ns'',
     ''p50_latency_ns'', ''p95_latency_ns'', ''p99_latency_ns'', ''max_latency_ns'',
     ''bank_conflict_ratio_pct'', ''throughput_txn_per_us'']"

definition MVP_INITIATOR_ID :: string where
  "MVP_INITIATOR_ID = ''101''"

definition MVP_COMMAND :: string where
  "MVP_COMMAND = ''READ''"

definition MVP_SIZE_BYTES :: int where
  "MVP_SIZE_BYTES = 4"

definition TARGET_SERVICE_DELAY_NS :: pyfloat where
  "TARGET_SERVICE_DELAY_NS = flit 100 1"

definition BANK_CONFLICT_DELAY_NS :: pyfloat where
  "BANK_CONFLICT_DELAY_NS = flit 20 1"

section \<open>Loading\<close>

definition row_msg :: "int \<Rightarrow> string \<Rightarrow> exn" where
  "row_msg n text = TraceReplayError (''row '' @ str_int n @ '': '' @ text)"

definition parse_number :: "string \<Rightarrow> string \<Rightarrow> int \<Rightarrow> pyfloat result" where
  "parse_number value field row_number =
     (let text = py_strip value in
      if text = [] then Inl (row_msg row_number (field @ '' is empty''))
      else case parse_float text of
        None \<Rightarrow> Inl (row_msg row_number (field @ '' is not numeric: '' @ value))
      | Some x \<Rightarrow> Inr x)"

definition parse_int_value :: "string \<Rightarrow> string \<Rightarrow> int \<Rightarrow> int result" where
  "parse_int_value value field row_number =
     (let text = py_strip value in
      if text = [] then Inl (row_msg row_number (field @ '' is empty''))
      else case py_int0 text of
        None \<Rightarrow> Inl (row_msg row_number (field @ '' is not an integer: '' @ value))
      | Some x \<Rightarrow> Inr x)"

text \<open>The dictionary \<open>normalized\<close> that \<open>load_trace\<close> builds for a row.\<close>

record trace_row =
  workload_name :: string
  txn_id :: string
  timestamp_ns :: string
  initiator_id :: string
  command :: string
  address :: string
  size_bytes :: string
  row_number :: int
  source_trace :: string
  timestamp_ns_value :: pyfloat
  address_value :: int
  size_bytes_value :: int
  decoded_port :: int
  target_id :: int
  masked_address :: int

definition field_of :: "csv_row \<Rightarrow> string \<Rightarrow> string" where
  "field_of row f = py_strip (row_get_or row f)"

text \<open>The body of the row loop of \<open>load_trace\<close>, with its checks in their order.\<close>

definition normalize_row :: "string \<Rightarrow> int \<Rightarrow> csv_row \<Rightarrow> trace_row result" where
  "normalize_row path n row =
     bindR (raise_if (field_of row ''workload_name'' = []) (row_msg n ''workload_name is empty'')) (\<lambda>_.
     bindR (raise_if (field_of row ''txn_id'' = []) (row_msg n ''txn_id is empty'')) (\<lambda>_.
     bindR (parse_number (field_of row ''timestamp_ns'') ''timestamp_ns'' n) (\<lambda>ts.
     bindR (raise_if (f_lt ts f_zero) (row_msg n ''timestamp_ns is negative'')) (\<lambda>_.
     bindR (raise_if (field_of row ''initiator_id'' \<noteq> MVP_INITIATOR_ID)
       (row_msg n (''MVP only supports initiator_id='' @ MVP_INITIATOR_ID))) (\<lambda>_.
     bindR (raise_if (py_upper (field_of row ''command'') \<noteq> MVP_COMMAND)
       (row_msg n (''MVP only supports command='' @ MVP_COMMAND))) (\<lambda>_.
     bindR (parse_int_value (field_of row ''address'') ''address'' n) (\<lambda>addr.
     bindR (raise_if (addr < 0) (row_msg n ''address is negative'')) (\<lambda>_.
     bindR (parse_int_value (field_of row ''size_bytes'') ''size_bytes'' n) (\<lambda>size.
     bindR (raise_if (size \<noteq> MVP_SIZE_BYTES)
       (row_msg n (''MVP only supports size_bytes='' @ str_int MVP_SIZE_BYTES))) (\<lambda>_.
     let port = drop_bit 28 addr in
     bindR (raise_if (port \<noteq> 0 \<and> port \<noteq> 1)
       (row_msg n ''address decodes outside LT MVP targets'')) (\<lambda>_.
     Inr \<lparr>workload_name = field_of row ''workload_name'', txn_id = field_of row ''txn_id'',
          timestamp_ns = field_of row ''timestamp_ns'',
          initiator_id = field_of row ''initiator_id'',
          command = py_upper (field_of row ''command''), address = field_of row ''address'',
          size_bytes = field_of row ''size_bytes'', row_number = n, source_trace = path,
          timestamp_ns_value = ts, address_value = addr, size_bytes_value = size,
          decoded_port = port, target_id = 201 + port,
          masked_address = addr AND 0x0FFFFFFF\<rparr>)))))))))))"

text \<open>\<open>sort_key\<close>: the time stamp, then the transaction id, numbers before other names.\<close>

datatype txn_key = KInt int | KStr string

definition txn_key_of :: "string \<Rightarrow> txn_key" where
  "txn_key_of t = (case py_int0 t of Some n \<Rightarrow> KInt n | None \<Rightarrow> KStr t)"

fun txn_key_lt :: "txn_key \<Rightarrow> txn_key \<Rightarrow> bool" where
  "txn_key_lt (KInt a) (KInt b) = (a < b)"
| "txn_key_lt (KInt a) (KStr t) = True"
| "txn_key_lt (KStr s) (KInt b) = False"
| "txn_key_lt (KStr s) (KStr t) = str_lt s t"

definition sort_key :: "trace_row \<Rightarrow> pyfloat \<times> txn_key" where
  "sort_key row = (timestamp_ns_value row, txn_key_of (txn_id row))"

text \<open>Python's order on such tuples: the first components that differ decide.\<close>

definition key_lt :: "pyfloat \<times> txn_key \<Rightarrow> pyfloat \<times> txn_key \<Rightarrow> bool" where
  "key_lt p q \<longleftrightarrow> (if f_eq (fst p) (fst q) then txn_key_lt (snd p) (snd q) else f_lt (fst p) (fst q))"

definition row_lt :: "trace_row \<Rightarrow> trace_row \<Rightarrow> bool" where
  "row_lt r s \<longleftrightarrow> key_lt (sort_key r) (sort_key s)"

fun check_unique :: "string \<Rightarrow> string list \<Rightarrow> trace_row list \<Rightarrow> unit result" where
  "check_unique path seen [] = Inr ()"
| "check_unique path seen (r # rs) =
     (if txn_id r \<in> set seen
      then Inl (TraceReplayError (path @ '' has duplicate txn_id: '' @ txn_id r))
      else check_unique path (txn_id r # seen) rs)"

definition load_trace :: "string \<Rightarrow> string list list option \<Rightarrow> trace_row list result" where
  "load_trace path file =
     bindR (opt_or_raise file (TraceReplayError (''trace not found: '' @ path))) (\<lambda>recs.
     let fieldnames = (case reader_fieldnames recs of None \<Rightarrow> [] | Some h \<Rightarrow> h);
         missing = filter (\<lambda>f. f \<notin> set fieldnames) REQUIRED_FIELDS in
     bindR (raise_if (missing \<noteq> [])
       (TraceReplayError (path @ '' missing fields: '' @ py_join '', '' missing))) (\<lambda>_.
     bindR (mapR (\<lambda>(n, row). normalize_row path (int n) row)
       (zip [2..<2 + length (dict_reader recs)] (dict_reader recs))) (\<lambda>rows.
     bindR (raise_if (rows = []) (TraceReplayError (path @ '' has no transactions''))) (\<lambda>_.
     bindR (raise_if (length (remdups (map workload_name rows)) \<noteq> 1)
       (TraceReplayError (path @ '' must contain exactly one workload_name''))) (\<lambda>_.
     bindR (check_unique path [] rows) (\<lambda>_.
     Inr (py_sorted row_lt rows)))))))"

section \<open>Replay\<close>

definition format_number :: "pyfloat \<Rightarrow> string" where
  "format_number value = fmt3 value"

definition format_time :: "pyfloat \<Rightarrow> string" where
  "format_time value = fmt3 value"

definition bank_id_for_address :: "int \<Rightarrow> int" where
  "bank_id_for_address masked = (masked div MVP_SIZE_BYTES) mod 4"

record replay_row =
  o_workload_name :: string
  o_txn_id :: string
  o_timestamp_ns :: string
  o_initiator_id :: string
  o_command :: string
  o_address :: string
  o_size_bytes :: string
  o_target_id :: string
  o_decoded_port :: string
  o_masked_address :: string
  o_data_length :: string
  o_data :: string
  o_start_time_ns :: string
  o_delay_ns :: string
  o_end_time_ns :: string
  o_response_status :: string
  o_request_time_ns :: string
  o_bus_grant_time_ns :: string
  o_queue_delay_ns :: string
  o_target_service_delay_ns :: string
  o_total_delay_ns :: string
  o_target_busy_until_ns :: string
  o_bank_id :: string
  o_bank_conflict :: string
  o_bank_conflict_delay_ns :: string
  o_source_trace :: string

text \<open>The loop of \<open>replay_rows\<close>; \<open>banks\<close> is \<open>last_bank_by_target\<close>.\<close>

fun replay_from :: "(int \<rightharpoonup> int) \<Rightarrow> trace_row list \<Rightarrow> replay_row list" where
  "replay_from banks [] = []"
| "replay_from banks (row # rows) =
     (let bank_id = bank_id_for_address (masked_address row);
          bank_conflict = (banks (decoded_port row) = Some bank_id);
          bank_delay = (if bank_conflict then BANK_CONFLICT_DELAY_NS else f_zero);
          start_time = timestamp_ns_value row;
          queue_delay = f_zero;
          service_delay = TARGET_SERVICE_DELAY_NS;
          total_delay = f_add (f_add queue_delay service_delay) bank_delay;
          end_time = f_add start_time total_delay
      in \<lparr>o_workload_name = workload_name row, o_txn_id = txn_id row,
          o_timestamp_ns = format_time (timestamp_ns_value row),
          o_initiator_id = initiator_id row, o_command = command row,
          o_address = format_hex (address_value row) 16,
          o_size_bytes = str_int (size_bytes_value row), o_target_id = str_int (target_id row),
          o_decoded_port = str_int (decoded_port row),
          o_masked_address = format_hex (masked_address row) 16,
          o_data_length = str_int (size_bytes_value row), o_data = ''0x00000000'',
          o_start_time_ns = format_time start_time, o_delay_ns = format_time total_delay,
          o_end_time_ns = format_time end_time, o_response_status = ''TLM_OK_RESPONSE'',
          o_request_time_ns = format_time start_time,
          o_bus_grant_time_ns = format_time start_time,
          o_queue_delay_ns = format_time queue_delay,
          o_target_service_delay_ns = format_time service_delay,
          o_total_delay_ns = format_time total_delay,
          o_target_busy_until_ns = format_time end_time, o_bank_id = str_int bank_id,
          o_bank_conflict = (if bank_conflict then ''1'' else ''0''),
          o_bank_conflict_delay_ns = format_time bank_delay,
          o_source_trace = source_trace row\<rparr>
         # replay_from (banks(decoded_port row \<mapsto> bank_id)) rows)"

definition replay_rows :: "trace_row list \<Rightarrow> replay_row list" where
  "replay_rows input_rows = replay_from Map.empty input_rows"

section \<open>Order of the loaded rows\<close>

definition finite_key :: "trace_row \<Rightarrow> bool" where
  "finite_key r \<longleftrightarrow> not_nan (timestamp_ns_value r)"

lemma txn_key_lt_asym: "txn_key_lt a b \<Longrightarrow> \<not> txn_key_lt b a"
  by (cases a; cases b) (auto dest: str_lt_asym)

lemma txn_key_lt_neg_trans: "txn_key_lt a c \<Longrightarrow> txn_key_lt a b \<or> txn_key_lt b c"
  by (cases a; cases b; cases c) (auto dest: str_lt_neg_trans)

interpretation row_order: weak_order row_lt finite_key
proof unfold_locales
  fix x y
  assume "finite_key x" "finite_key y" "row_lt x y"
  then show "\<not> row_lt y x"
    by (auto simp: row_lt_def key_lt_def sort_key_def f_cmp dest: txn_key_lt_asym split: if_splits)
next
  fix x y z
  assume "finite_key x" "finite_key y" "finite_key z" "row_lt x z"
  then show "row_lt x y \<or> row_lt y z"
    using txn_key_lt_neg_trans [of "txn_key_of (txn_id x)" "txn_key_of (txn_id z)" "txn_key_of (txn_id y)"]
    by (auto simp: row_lt_def key_lt_def sort_key_def f_cmp finite_key_def not_nan_def split: if_splits)
qed

section \<open>What the loader accepts\<close>

text \<open>The contract of a loaded row, as the replay relies on it.\<close>

definition valid_row :: "string \<Rightarrow> trace_row \<Rightarrow> bool" where
  "valid_row path r \<longleftrightarrow>
     workload_name r \<noteq> [] \<and> txn_id r \<noteq> [] \<and> initiator_id r = MVP_INITIATOR_ID \<and>
     command r = MVP_COMMAND \<and> source_trace r = path \<and>
     parse_float (timestamp_ns r) = Some (timestamp_ns_value r) \<and>
     \<not> f_lt (timestamp_ns_value r) f_zero \<and>
     py_int0 (address r) = Some (address_value r) \<and>
     py_int0 (size_bytes r) = Some (size_bytes_value r) \<and> size_bytes_value r = MVP_SIZE_BYTES \<and>
     decoded_port r \<in> {0, 1} \<and> target_id r = 201 + decoded_port r \<and>
     masked_address r \<in> {0..<2 ^ 28} \<and>
     address_value r = decoded_port r * 2 ^ 28 + masked_address r"

lemma drop_bit_and_split:
  "0 \<le> (a::int) \<Longrightarrow> a = drop_bit 28 a * 2 ^ 28 + (a AND 0x0FFFFFFF) \<and> (a AND 0x0FFFFFFF) \<in> {0..<2 ^ 28}"
proof -
  have "a AND 0x0FFFFFFF = a mod 2 ^ 28"
    using take_bit_eq_mask [of 28 a] by (simp add: take_bit_eq_mod mask_eq_exp_minus_1)
  then show ?thesis
    using div_mult_mod_eq [of a "2 ^ 28"] by (simp add: drop_bit_eq_div)
qed

lemma parse_number_Inr:
  "parse_number v f n = Inr x \<Longrightarrow> parse_float v = Some x"
  by (auto simp: parse_number_def parse_float_def Let_def split: if_splits option.splits)

lemma parse_int_value_Inr:
  "parse_int_value v f n = Inr x \<Longrightarrow> py_int0 v = Some x"
  by (auto simp: parse_int_value_def py_int0_def Let_def split: if_splits option.splits)

lemma normalize_row_valid:
  assumes "normalize_row path n row = Inr r"
  shows "valid_row path r" and "row_number r = n"
proof -
  obtain ts addr size where r: "parse_number (field_of row ''timestamp_ns'') ''timestamp_ns'' n = Inr ts"
      "parse_int_value (field_of row ''address'') ''address'' n = Inr addr"
      "parse_int_value (field_of row ''size_bytes'') ''size_bytes'' n = Inr size"
    and g: "field_of row ''workload_name'' \<noteq> []" "field_of row ''txn_id'' \<noteq> []"
      "\<not> f_lt ts f_zero" "field_of row ''initiator_id'' = MVP_INITIATOR_ID"
      "py_upper (field_of row ''command'') = MVP_COMMAND" "0 \<le> addr" "size = MVP_SIZE_BYTES"
      "drop_bit 28 addr \<in> {0, 1}"
    and e: "r = \<lparr>workload_name = field_of row ''workload_name'', txn_id = field_of row ''txn_id'',
          timestamp_ns = field_of row ''timestamp_ns'',
          initiator_id = field_of row ''initiator_id'',
          command = py_upper (field_of row ''command''), address = field_of row ''address'',
          size_bytes = field_of row ''size_bytes'', row_number = n, source_trace = path,
          timestamp_ns_value = ts, address_value = addr, size_bytes_value = size,
          decoded_port = drop_bit 28 addr, target_id = 201 + drop_bit 28 addr,
          masked_address = addr AND 0x0FFFFFFF\<rparr>"
    using assms by (auto simp: normalize_row_def Let_def result_simps)
  show "valid_row path r"
    using g drop_bit_and_split [OF g(6)] parse_number_Inr [OF r(1)] parse_int_value_Inr [OF r(2)]
      parse_int_value_Inr [OF r(3)] unfolding valid_row_def e by simp
  show "row_number r = n" by (simp add: e)
qed

lemma check_unique_Inr:
  "check_unique path seen rs = Inr u \<longleftrightarrow> distinct (map txn_id rs) \<and> set (map txn_id rs) \<inter> set seen = {}"
  by (induction rs arbitrary: seen) auto

lemma one_workload: "length (remdups xs) = 1 \<Longrightarrow> x \<in> set xs \<Longrightarrow> y \<in> set xs \<Longrightarrow> x = y"
proof -
  assume a: "length (remdups xs) = 1" "x \<in> set xs" "y \<in> set xs"
  then obtain z where "remdups xs = [z]" by (auto simp: length_Suc_conv)
  then have "set xs = {z}" by (metis list.set(1) list.set(2) set_remdups)
  then show ?thesis using a by simp
qed

text \<open>The rows before sorting, and everything the loader checked about them.\<close>

lemma load_trace_Inr:
  assumes "load_trace path file = Inr rows"
  obtains recs rs where
    "file = Some recs" "rows = py_sorted row_lt rs" "rs \<noteq> []"
    "length rs = length (dict_reader recs)"
    "\<forall>i < length rs. normalize_row path (int i + 2) (dict_reader recs ! i) = Inr (rs ! i)"
    "length (remdups (map workload_name rs)) = 1" "distinct (map txn_id rs)"
    "\<forall>f \<in> set REQUIRED_FIELDS. \<exists>h. reader_fieldnames recs = Some h \<and> f \<in> set h"
proof -
  from assms obtain recs rs where f: "file = Some recs"
    and m: "mapR (\<lambda>(n, row). normalize_row path (int n) row)
       (zip [2..<2 + length (dict_reader recs)] (dict_reader recs)) = Inr rs"
    and ok: "rs \<noteq> []" "length (remdups (map workload_name rs)) = 1"
      "check_unique path [] rs = Inr ()" "rows = py_sorted row_lt rs"
    and h: "filter (\<lambda>f. f \<notin> set (case reader_fieldnames recs of None \<Rightarrow> [] | Some h \<Rightarrow> h)) REQUIRED_FIELDS = []"
    by (auto simp: load_trace_def Let_def result_simps)
  have l: "length rs = length (dict_reader recs)" using mapR_length [OF m] by (simp del: upt_Suc)
  have i: "normalize_row path (int i + 2) (dict_reader recs ! i) = Inr (rs ! i)" if "i < length rs" for i
    using m that l by (auto simp: result_simps list_all2_conv_all_nth algebra_simps simp del: upt_Suc)
  have "\<exists>h. reader_fieldnames recs = Some h \<and> f \<in> set h" if "f \<in> set REQUIRED_FIELDS" for f
    using h that by (cases "reader_fieldnames recs") (auto simp: filter_empty_conv)
  then show ?thesis using that f ok l i by (simp add: check_unique_Inr)
qed

lemma load_trace_src:
  assumes "load_trace path file = Inr rows" and "r \<in> set rows"
  obtains recs i where "file = Some recs" "i < length (dict_reader recs)"
    "normalize_row path (int i + 2) (dict_reader recs ! i) = Inr r"
proof -
  from load_trace_Inr [OF assms(1)] obtain recs rs where a: "file = Some recs" "rows = py_sorted row_lt rs"
    "length rs = length (dict_reader recs)"
    "\<forall>i < length rs. normalize_row path (int i + 2) (dict_reader recs ! i) = Inr (rs ! i)"
    by metis
  then obtain i where "i < length rs" "rs ! i = r"
    using assms(2) by (metis in_set_conv_nth set_py_sorted)
  then show ?thesis using a that by metis
qed

lemma load_trace_valid:
  "load_trace path file = Inr rows \<Longrightarrow> r \<in> set rows \<Longrightarrow> valid_row path r"
  by (erule load_trace_src) (auto intro: normalize_row_valid)

lemma load_trace_nonempty: "load_trace path file = Inr rows \<Longrightarrow> rows \<noteq> []"
  by (erule load_trace_Inr) simp

lemma load_trace_one_workload:
  "load_trace path file = Inr rows \<Longrightarrow> r \<in> set rows \<Longrightarrow> s \<in> set rows \<Longrightarrow> workload_name r = workload_name s"
proof (erule load_trace_Inr)
  fix recs rs
  assume a: "r \<in> set rows" "s \<in> set rows" "rows = py_sorted row_lt rs"
    "length (remdups (map workload_name rs)) = 1"
  then show ?thesis by (intro one_workload [OF a(4)]) auto
qed

lemma load_trace_distinct: "load_trace path file = Inr rows \<Longrightarrow> distinct (map txn_id rows)"
proof (erule load_trace_Inr)
  fix rs assume "rows = py_sorted row_lt rs" "distinct (map txn_id rs)"
  then show ?thesis by (metis mset_eq_imp_distinct_iff mset_map mset_py_sorted)
qed

lemma sample_header_rows:
  "dict_reader [h, r1, r2] = map (dict_row h) (filter (\<lambda>r. r \<noteq> []) [r1, r2])"
  by (simp add: dict_reader_def)

text \<open>A two-row trace file, rows out of order, used by the witnesses.\<close>

definition sample_file :: "string list list" where
  "sample_file =
    [[''workload_name'', ''txn_id'', ''timestamp_ns'', ''initiator_id'', ''command'', ''address'', ''size_bytes''],
     [''w'', ''2'', ''20'', ''101'', ''read'', ''0x10000010'', ''4''],
     [''w'', ''1'', ''10.5'', ''101'', ''READ'', ''16'', ''4'']]"

lemma sample_loads: "\<exists>r1 r2. load_trace ''t'' (Some sample_file) = Inr [r1, r2] \<and>
    txn_id r1 = ''1'' \<and> txn_id r2 = ''2'' \<and> finite_key r1 \<and> finite_key r2"
proof -
  have "(case load_trace ''t'' (Some sample_file) of Inl e \<Rightarrow> False
    | Inr rs \<Rightarrow> length rs = 2 \<and> txn_id (rs ! 0) = ''1'' \<and> txn_id (rs ! 1) = ''2'' \<and>
        finite_key (rs ! 0) \<and> finite_key (rs ! 1))"
    by code_simp
  then show ?thesis
    by (auto simp: numeral_2_eq_2 length_Suc_conv split: sum.splits)
qed

section \<open>Properties of the loader\<close>

text \<open>C13. A trace that \<open>load_trace\<close> accepts satisfies the contract of the replay: it is not
  empty, every row is a valid 4-byte READ of initiator 101 whose address decodes to one of
  the two targets and splits into port and masked address, transaction ids are unique and
  there is one workload.\<close>

theorem load_trace_sound:
  assumes "load_trace path file = Inr rows"
  shows "rows \<noteq> [] \<and> (\<forall>r \<in> set rows. valid_row path r) \<and> distinct (map txn_id rows) \<and>
    (\<forall>r \<in> set rows. \<forall>s \<in> set rows. workload_name r = workload_name s)"
  using assms load_trace_valid load_trace_nonempty load_trace_one_workload load_trace_distinct by blast

theorem load_trace_sound_witness:
  "\<exists>rows. load_trace ''t'' (Some sample_file) = Inr rows \<and> rows \<noteq> [] \<and>
     (\<forall>r \<in> set rows. valid_row ''t'' r)"
  using load_trace_sound sample_loads by blast

text \<open>C28. The loaded rows are the CSV records, each exactly once: the row numbers are
  2, 3, \<dots> up to one more than the number of records, in some order, and every loaded row is
  the normal form of the record its number names.\<close>

theorem load_trace_complete:
  assumes "load_trace path (Some recs) = Inr rows"
  shows "mset (map row_number rows) = mset (map int [2..<2 + length (dict_reader recs)]) \<and>
    (\<forall>r \<in> set rows. normalize_row path (row_number r) (dict_reader recs ! nat (row_number r - 2)) = Inr r)"
proof -
  from load_trace_Inr [OF assms] obtain rs where a: "rows = py_sorted row_lt rs"
    "length rs = length (dict_reader recs)"
    "\<forall>i < length rs. normalize_row path (int i + 2) (dict_reader recs ! i) = Inr (rs ! i)"
    by (metis option.inject)
  have n: "row_number (rs ! i) = int i + 2" if "i < length rs" for i
    using a(3) that normalize_row_valid(2) by metis
  have "map row_number rs = map int [2..<2 + length (dict_reader recs)]"
    by (rule nth_equalityI) (simp_all add: a(2) [symmetric] n del: upt_Suc)
  moreover have "normalize_row path (row_number r) (dict_reader recs ! nat (row_number r - 2)) = Inr r"
    if r: "r \<in> set rows" for r
  proof -
    obtain i where i: "i < length rs" "rs ! i = r" using r a(1) by (metis in_set_conv_nth set_py_sorted)
    then show ?thesis using a(3) n [of i] by auto
  qed
  ultimately show ?thesis using a(1) by (metis mset_map mset_py_sorted)
qed

theorem load_trace_complete_witness:
  "\<exists>rows. load_trace ''t'' (Some sample_file) = Inr rows \<and>
     mset (map row_number rows) = mset (map int [2..<2 + length (dict_reader sample_file)])"
  using load_trace_complete sample_loads by blast

text \<open>C14. Loaded rows are in replay order: where no time stamp is NaN, time stamps never
  decrease, and rows of one time stamp are in the order of their transaction keys (numbers
  numerically, before other names).\<close>

theorem load_trace_sorted:
  assumes "load_trace path file = Inr rows" and "\<forall>r \<in> set rows. finite_key r"
    and "i < j" and "j < length rows"
  shows "f_le (timestamp_ns_value (rows ! i)) (timestamp_ns_value (rows ! j)) \<and>
    (f_eq (timestamp_ns_value (rows ! i)) (timestamp_ns_value (rows ! j)) \<longrightarrow>
      \<not> txn_key_lt (txn_key_of (txn_id (rows ! j))) (txn_key_of (txn_id (rows ! i))))"
proof -
  from load_trace_Inr [OF assms(1)] obtain rs where rs: "rows = py_sorted row_lt rs" by metis
  have fk: "finite_key (rows ! i)" "finite_key (rows ! j)" using assms(2-4) by simp_all
  have "\<not> row_lt (rows ! j) (rows ! i)"
    using row_order.nth_py_sorted_mono [of rs i j] assms(2-4) rs by simp
  then show ?thesis using fk
    by (auto simp: row_lt_def key_lt_def sort_key_def finite_key_def f_cmp not_nan_def split: if_splits)
qed

theorem load_trace_sorted_witness:
  "\<exists>rows. load_trace ''t'' (Some sample_file) = Inr rows \<and>
     f_le (timestamp_ns_value (rows ! 0)) (timestamp_ns_value (rows ! 1))"
proof -
  obtain r1 r2 where l: "load_trace ''t'' (Some sample_file) = Inr [r1, r2]"
    "finite_key r1" "finite_key r2" using sample_loads by blast
  show ?thesis using load_trace_sorted [OF l(1), of 0 1] l by auto
qed

text \<open>C29. Error reporting: if the columns are there and record \<open>i\<close> is the first that fails its
  checks, the loader fails with exactly that record's error, whatever follows.\<close>

theorem load_trace_first_error:
  assumes "reader_fieldnames recs = Some h" and "set REQUIRED_FIELDS \<subseteq> set h"
    and "i < length (dict_reader recs)"
    and "normalize_row path (int i + 2) (dict_reader recs ! i) = Inl e"
    and "\<forall>j < i. \<exists>r. normalize_row path (int j + 2) (dict_reader recs ! j) = Inr r"
  shows "load_trace path (Some recs) = Inl e"
proof -
  let ?n = "2 + length (dict_reader recs)"
  have "mapR (\<lambda>(n, row). normalize_row path (int n) row) (zip [2..<?n] (dict_reader recs)) = Inl e"
    using assms(3-5) by (intro mapR_first_error [of i]) (auto simp: add.commute simp del: upt_Suc)
  moreover have "filter (\<lambda>f. f \<notin> set h) REQUIRED_FIELDS = []"
    using assms(2) by (auto simp: filter_empty_conv)
  ultimately show ?thesis by (simp add: load_trace_def opt_or_raise_def raise_if_def assms(1) del: upt_Suc)
qed

definition bad_file :: "string list list" where
  "bad_file = sample_file @
    [[''w'', ''3'', ''30'', ''101'', ''WRITE'', ''32'', ''4''], [''w'', ''4'', '''', ''101'', ''READ'', ''32'', ''4'']]"

theorem load_trace_first_error_witness:
  "load_trace ''t'' (Some bad_file) = Inl (TraceReplayError ''row 4: MVP only supports command=READ'')"
proof (rule load_trace_first_error [of _ "hd bad_file" 2])
  have "(\<exists>r. normalize_row ''t'' 2 (dict_reader bad_file ! 0) = Inr r) \<and>
        (\<exists>r. normalize_row ''t'' 3 (dict_reader bad_file ! 1) = Inr r)"
  proof -
    have "\<not> isl (normalize_row ''t'' 2 (dict_reader bad_file ! 0)) \<and>
          \<not> isl (normalize_row ''t'' 3 (dict_reader bad_file ! 1))" by code_simp
    then show ?thesis by (metis sum.collapse(2))
  qed
  then show "\<forall>j < 2. \<exists>r. normalize_row ''t'' (int j + 2) (dict_reader bad_file ! j) = Inr r"
    by (auto simp: less_2_cases_iff)
qed code_simp+

section \<open>Properties of the replay\<close>

text \<open>The specification of a conflict: the latest earlier access to the same target used the
  same bank.\<close>

definition bank_of :: "trace_row \<Rightarrow> int" where
  "bank_of r = bank_id_for_address (masked_address r)"

definition conflicts :: "trace_row list \<Rightarrow> nat \<Rightarrow> bool" where
  "conflicts rows i \<longleftrightarrow> (\<exists>j < i. decoded_port (rows ! j) = decoded_port (rows ! i) \<and>
     bank_of (rows ! j) = bank_of (rows ! i) \<and>
     (\<forall>k. j < k \<and> k < i \<longrightarrow> decoded_port (rows ! k) \<noteq> decoded_port (rows ! i)))"

text \<open>The dictionary after some rows: the bank of the latest row of each target.\<close>

definition banks_after :: "(int \<rightharpoonup> int) \<Rightarrow> trace_row list \<Rightarrow> int \<rightharpoonup> int" where
  "banks_after banks rows = foldl (\<lambda>b r. b(decoded_port r \<mapsto> bank_of r)) banks rows"

lemma length_replay_from [simp]: "length (replay_from banks rows) = length rows"
  by (induction rows arbitrary: banks) (simp_all add: Let_def)

lemma banks_after_latest:
  "banks_after Map.empty rows p = Some b \<longleftrightarrow>
     (\<exists>j < length rows. decoded_port (rows ! j) = p \<and> bank_of (rows ! j) = b \<and>
        (\<forall>k. j < k \<and> k < length rows \<longrightarrow> decoded_port (rows ! k) \<noteq> p))"
proof (induction rows rule: rev_induct)
  case (snoc r rows)
  let ?n = "length rows"
  have s: "banks_after Map.empty (rows @ [r]) = (banks_after Map.empty rows)(decoded_port r \<mapsto> bank_of r)"
    by (simp add: banks_after_def)
  show ?case
  proof (cases "decoded_port r = p")
    case True
    have "j = ?n" if "j < Suc ?n" "\<forall>k. j < k \<and> k < Suc ?n \<longrightarrow> decoded_port ((rows @ [r]) ! k) \<noteq> p" for j
      using that True by (metis less_SucE lessI nth_append_length)
    then show ?thesis using True
      by (auto simp: s intro!: exI [of _ ?n]) (metis nth_append_length)
  next
    case False
    have "(\<exists>j < Suc ?n. P ((rows @ [r]) ! j) \<and> (\<forall>k. j < k \<and> k < Suc ?n \<longrightarrow> Q ((rows @ [r]) ! k))) \<longleftrightarrow>
          (\<exists>j < ?n. P (rows ! j) \<and> (\<forall>k. j < k \<and> k < ?n \<longrightarrow> Q (rows ! k)))"
      if "\<not> P r" "Q r" for P Q
      using that by (auto simp: less_Suc_eq nth_append)
    from this [of "\<lambda>x. decoded_port x = p \<and> bank_of x = b" "\<lambda>x. decoded_port x \<noteq> p"]
    show ?thesis using False snoc by (simp add: s conj_assoc)
  qed
qed (simp add: banks_after_def)

lemma banks_after_Cons:
  "banks_after banks (r # rows) = banks_after (banks(decoded_port r \<mapsto> bank_of r)) rows"
  by (simp add: banks_after_def)

lemma replay_from_nth:
  "i < length rows \<Longrightarrow>
     replay_from banks rows ! i = hd (replay_from (banks_after banks (take i rows)) [rows ! i])"
proof (induction rows arbitrary: banks i)
  case (Cons r rows)
  show ?case
  proof (cases i)
    case 0
    then show ?thesis by (simp add: banks_after_def Let_def)
  next
    case (Suc k)
    have "replay_from banks (r # rows) ! i = replay_from (banks(decoded_port r \<mapsto> bank_of r)) rows ! k"
      by (simp add: Suc Let_def bank_of_def)
    then show ?thesis using Cons Suc by (simp add: banks_after_Cons)
  qed
qed simp

lemma conflicts_banks:
  "i < length rows \<Longrightarrow> conflicts rows i \<longleftrightarrow>
     banks_after Map.empty (take i rows) (decoded_port (rows ! i)) = Some (bank_of (rows ! i))"
  unfolding banks_after_latest conflicts_def by (auto simp: min_def)

lemma service_delays:
  "f_add (f_add f_zero TARGET_SERVICE_DELAY_NS) f_zero = flit 100 1"
  "f_add (f_add f_zero TARGET_SERVICE_DELAY_NS) BANK_CONFLICT_DELAY_NS = flit 120 1"
  "fmt3 (flit 100 1) = ''100.000''" "fmt3 (flit 120 1) = ''120.000''"
  by code_simp+

lemmas replay_simps = service_delays format_time_def format_number_def

lemma replay_row_at:
  assumes "i < length rows"
  shows "replay_rows rows ! i =
    hd (replay_from (if conflicts rows i then [decoded_port (rows ! i) \<mapsto> bank_of (rows ! i)] else Map.empty)
      [rows ! i])"
  unfolding replay_rows_def replay_from_nth [OF assms]
  using conflicts_banks [OF assms] by (simp add: Let_def bank_of_def)

lemma replay_fields:
  assumes "i < length rows"
  shows "o_bank_conflict (replay_rows rows ! i) = (if conflicts rows i then ''1'' else ''0'') \<and>
    o_total_delay_ns (replay_rows rows ! i) = (if conflicts rows i then ''120.000'' else ''100.000'') \<and>
    o_end_time_ns (replay_rows rows ! i) =
      fmt3 (f_add (timestamp_ns_value (rows ! i)) (if conflicts rows i then flit 120 1 else flit 100 1)) \<and>
    o_bank_id (replay_rows rows ! i) = str_int (bank_of (rows ! i)) \<and>
    o_txn_id (replay_rows rows ! i) = txn_id (rows ! i) \<and>
    length (replay_rows rows) = length rows"
proof -
  have "length (replay_rows rows) = length rows" by (simp add: replay_rows_def)
  then show ?thesis unfolding replay_row_at [OF assms]
    by (auto simp: Let_def replay_simps bank_of_def)
qed

text \<open>C4. The replay marks a bank conflict exactly where the specification has one: when the
  latest earlier access to the same target used the same bank.  The total delay is then
  120 ns, else 100 ns, the end time is the start time plus it, and every input row gives one
  output row in its place.\<close>

theorem replay_conflict_spec:
  assumes "i < length rows"
  shows "o_bank_conflict (replay_rows rows ! i) = (if conflicts rows i then ''1'' else ''0'') \<and>
    o_total_delay_ns (replay_rows rows ! i) = (if conflicts rows i then ''120.000'' else ''100.000'') \<and>
    o_end_time_ns (replay_rows rows ! i) =
      fmt3 (f_add (timestamp_ns_value (rows ! i)) (if conflicts rows i then flit 120 1 else flit 100 1)) \<and>
    o_bank_id (replay_rows rows ! i) = str_int (bank_of (rows ! i)) \<and>
    o_txn_id (replay_rows rows ! i) = txn_id (rows ! i) \<and>
    length (replay_rows rows) = length rows"
  using assms by (rule replay_fields)

theorem replay_conflict_spec_witness:
  "\<exists>r1 r2. load_trace ''t'' (Some sample_file) = Inr [r1, r2] \<and>
     o_total_delay_ns (replay_rows [r1, r2] ! 0) = ''100.000''"
proof -
  obtain r1 r2 where l: "load_trace ''t'' (Some sample_file) = Inr [r1, r2]" using sample_loads by blast
  have "\<not> conflicts [r1, r2] 0" by (simp add: conflicts_def)
  then show ?thesis using l replay_conflict_spec [of 0 "[r1, r2]"] by auto
qed

text \<open>Addresses as the loader gives them, with a fixed distance.\<close>

definition strided :: "int \<Rightarrow> trace_row list \<Rightarrow> bool" where
  "strided step rows \<longleftrightarrow> (\<forall>i < length rows. decoded_port (rows ! i) = decoded_port (rows ! 0) \<and>
     0 \<le> masked_address (rows ! 0) \<and>
     masked_address (rows ! i) = masked_address (rows ! 0) + int i * step)"

lemma conflicts_one_port:
  assumes "\<forall>i < length rows. decoded_port (rows ! i) = decoded_port (rows ! 0)" and "i < length rows"
  shows "conflicts rows i \<longleftrightarrow> 0 < i \<and> bank_of (rows ! (i - 1)) = bank_of (rows ! i)"
proof -
  have p: "decoded_port (rows ! k) = decoded_port (rows ! i)" if "k < i" for k
    using assms that by (metis less_trans)
  have "j = i - 1" if "j < i" "\<forall>k. j < k \<and> k < i \<longrightarrow> decoded_port (rows ! k) \<noteq> decoded_port (rows ! i)" for j
  proof (rule ccontr)
    assume "j \<noteq> i - 1"
    then have "j < i - 1" "i - 1 < i" using that(1) by auto
    then show False using that(2) p by blast
  qed
  then have "conflicts rows i \<Longrightarrow> 0 < i \<and> bank_of (rows ! (i - 1)) = bank_of (rows ! i)"
    unfolding conflicts_def by fastforce
  moreover have "conflicts rows i" if "0 < i" "bank_of (rows ! (i - 1)) = bank_of (rows ! i)"
    unfolding conflicts_def using that p [of "i - 1"] by (intro exI [of _ "i - 1"]) auto
  ultimately show ?thesis by blast
qed

lemma bank_stride: "bank_id_for_address (m + 4 * k) = (bank_id_for_address m + k) mod 4"
proof -
  have "(m + 4 * k) div 4 = m div 4 + k" by simp
  then show ?thesis unfolding bank_id_for_address_def MVP_SIZE_BYTES_def by (simp add: mod_simps add.commute)
qed

text \<open>C30. The two access patterns the lab contrasts: on one target, a step of one word walks the
  banks and never conflicts; a step of four words stays on one bank, so every access but the
  first conflicts.\<close>

theorem replay_stride:
  assumes "i < length rows" and "strided 4 rows \<or> strided 16 rows"
  shows "o_bank_conflict (replay_rows rows ! i) = (if strided 16 rows \<and> 0 < i then ''1'' else ''0'')"
proof -
  have port: "\<forall>i < length rows. decoded_port (rows ! i) = decoded_port (rows ! 0)"
    using assms(2) by (auto simp: strided_def)
  have m: "masked_address (rows ! i) = masked_address (rows ! (i - 1)) + step"
    if "strided step rows" "0 < i" for step
  proof -
    have "masked_address (rows ! k) = masked_address (rows ! 0) + int k * step" if "k < length rows" for k
      using \<open>strided step rows\<close> that by (auto simp: strided_def)
    from this [of i] this [of "i - 1"] show ?thesis
      using assms(1) \<open>0 < i\<close> by (simp add: of_nat_diff algebra_simps)
  qed
  have "conflicts rows i \<longleftrightarrow> strided 16 rows \<and> 0 < i"
  proof (cases "0 < i")
    case pos: True
    let ?b = "bank_of (rows ! (i - 1))"
    show ?thesis
    proof (cases "strided 16 rows")
      case True
      then have "bank_of (rows ! i) = ?b"
        using m [of 16] bank_stride [of _ 4] pos by (simp add: bank_of_def bank_id_for_address_def)
      then show ?thesis using True pos conflicts_one_port [OF port assms(1)] by simp
    next
      case False
      then have "bank_of (rows ! i) = (?b + 1) mod 4"
        using m [of 4] bank_stride [of _ 1] pos assms(2) by (simp add: bank_of_def)
      moreover have "(?b + 1) mod 4 \<noteq> ?b" by presburger
      ultimately have "bank_of (rows ! i) \<noteq> ?b" by simp
      then show ?thesis using False conflicts_one_port [OF port assms(1)] by auto
    qed
  qed (simp add: conflicts_def)
  then show ?thesis using replay_fields [OF assms(1)] by simp
qed

definition plain_row :: "int \<Rightarrow> trace_row" where
  "plain_row m = \<lparr>workload_name = ''w'', txn_id = str_int m, timestamp_ns = ''0'',
     initiator_id = ''101'', command = ''READ'', address = str_int m, size_bytes = ''4'',
     row_number = 2, source_trace = ''t'', timestamp_ns_value = f_zero, address_value = m,
     size_bytes_value = 4, decoded_port = 0, target_id = 201, masked_address = m\<rparr>"

theorem replay_stride_witness:
  "o_bank_conflict (replay_rows (map plain_row [0, 4, 8]) ! 2) = ''0'' \<and>
   o_bank_conflict (replay_rows (map plain_row [0, 16, 32]) ! 2) = ''1''"
proof -
  have "strided 4 (map plain_row [0, 4, 8])" "strided 16 (map plain_row [0, 16, 32])"
      "\<not> strided 16 (map plain_row [0, 4, 8])"
    by (auto simp: strided_def plain_row_def less_Suc_eq numeral_eq_Suc)
  then show ?thesis
    using replay_stride [of 2 "map plain_row [0, 4, 8]"] replay_stride [of 2 "map plain_row [0, 16, 32]"]
    by simp
qed

end
