(* ===== verification/Tool_Common.thy ===== *)
theory Tool_Common
  imports Py_Float Csv_Table
begin

text \<open>
  What several of the tools share beyond the Python basics: \<open>float(text)\<close> as an operation
  that raises, a loop that threads its state through fallible steps, quotients of numbers
  that floats hold exactly, and \<open>str.splitlines\<close> with the lines of a joined report.
\<close>

section \<open>Floats from text and exact quotients\<close>

text \<open>\<open>float(text)\<close> as an operation that raises.\<close>

definition to_float :: "string \<Rightarrow> pyfloat result" where
  "to_float text = opt_or_raise (parse_float text)
     (ValueError (''could not convert string to float: '' @ text))"

text \<open>A loop whose body may raise: the state is threaded from left to right.\<close>

fun foldR :: "('s \<Rightarrow> 'a \<Rightarrow> 's result) \<Rightarrow> 's \<Rightarrow> 'a list \<Rightarrow> 's result" where
  "foldR f s [] = Inr s"
| "foldR f s (x # xs) = bindR (f s x) (\<lambda>s'. foldR f s' xs)"

lemma foldR_append: "foldR f s (xs @ ys) = bindR (foldR f s xs) (\<lambda>s'. foldR f s' ys)"
  by (induction xs arbitrary: s) (auto simp: bindR_def split: sum.splits)

lemma flit_int:
  "0 \<le> k \<Longrightarrow> k < 2 ^ 53 \<Longrightarrow> \<exists>m e. flit k 1 = Fin False m e \<and> 0 \<le> m \<and> mag m e = of_int k"
proof -
  assume a: "0 \<le> k" "k < 2 ^ 53"
  then have "rounds_to False (of_int k) (flit k 1)"
    using mk_float_rounds [of k 1 False] by (simp add: flit_def of_frac_def)
  then show ?thesis using rounds_int a rounds_to_def int_below_bound [of k] b64_int by auto
qed

lemma f_div_rounds:
  "0 \<le> m \<Longrightarrow> 0 \<le> n \<Longrightarrow> mag n f \<noteq> 0 \<Longrightarrow>
     \<exists>x. f_div (Fin False m e) (Fin False n f) = Inr x \<and> rounds_to False (mag m e / mag n f) x"
  using div_fin_rounds [of m n False e f] by (cases "n = 0") auto

lemma f_div_total: "\<not> f_is_zero y \<Longrightarrow> \<exists>z. f_div x y = Inr z"
  by (cases y) auto

lemma to_float_fmt3: "wf_float x \<Longrightarrow> to_float (fmt3 x) = Inr (reparse x)"
  by (simp add: to_float_def opt_or_raise_def parse_fmt3)

lemma wf_flit: "0 < d \<Longrightarrow> wf_float (flit n d)"
  by (simp add: flit_def wf_of_frac)

section \<open>Lines of a text\<close>

text \<open>\<open>str.splitlines\<close>: the line breaks below 128; \<open>cr\<close> holds after a carriage return.\<close>

definition is_line_break :: "char \<Rightarrow> bool" where
  "is_line_break c \<longleftrightarrow> (10 \<le> ccode c \<and> ccode c \<le> 13) \<or> (28 \<le> ccode c \<and> ccode c \<le> 30)"

fun split_lines :: "bool \<Rightarrow> string \<Rightarrow> string \<Rightarrow> string list" where
  "split_lines cr acc [] = (if acc = [] then [] else [rev acc])"
| "split_lines cr acc (c # cs) =
     (if cr \<and> c = CHR 0x0A then split_lines False acc cs
      else if is_line_break c then rev acc # split_lines (c = CHR 0x0D) [] cs
      else split_lines False (c # acc) cs)"

definition splitlines :: "string \<Rightarrow> string list" where
  "splitlines text = split_lines False [] text"

definition no_break :: "string \<Rightarrow> bool" where
  "no_break l \<longleftrightarrow> list_all (\<lambda>c. \<not> is_line_break c) l"

lemma is_line_break_code [code]:
  "is_line_break (Char b0 b1 b2 b3 b4 b5 b6 b7) \<longleftrightarrow> \<not> b7 \<and> \<not> b6 \<and> \<not> b5 \<and> b3 \<and>
     (if b4 then b2 \<and> \<not> (b1 \<and> b0) else b1 \<noteq> b2)"
  by (cases b0; cases b1; cases b2; cases b3; cases b4; cases b5; cases b6; cases b7)
     (simp_all add: is_line_break_def ccode_def of_char_def)

lemma split_lines_append:
  "no_break s \<Longrightarrow> split_lines False acc (s @ t) = split_lines False (rev s @ acc) t"
  by (induction s arbitrary: acc) (auto simp: no_break_def)

lemma set_splitlines_join:
  "list_all no_break ls \<Longrightarrow> set (splitlines (py_join [CHR 0x0A] ls)) \<subseteq> set ls"
proof (induction "[CHR 0x0A]" ls rule: py_join.induct)
  case (2 l)
  then show ?case using split_lines_append [of l "[]" "[]"] by (auto simp: splitlines_def split: if_splits)
next
  case (3 l l' ls)
  have "is_line_break (CHR 0x0A)" by code_simp
  then have "no_break l \<Longrightarrow> splitlines (l @ CHR 0x0A # py_join [CHR 0x0A] (l' # ls)) =
      l # splitlines (py_join [CHR 0x0A] (l' # ls))"
    using split_lines_append [of l "[]" "CHR 0x0A # py_join [CHR 0x0A] (l' # ls)"] by (simp add: splitlines_def)
  then show ?case using 3 by auto
qed (simp_all add: splitlines_def)

lemma py_in_join: "l \<in> set ls \<Longrightarrow> py_in m l \<Longrightarrow> py_in m (py_join sep ls)"
proof (induction sep ls rule: py_join.induct)
  case (3 sep x y ys)
  have "sublist x (py_join sep (x # y # ys))" "sublist (py_join sep (y # ys)) (py_join sep (x # y # ys))"
    by (auto intro: sublist_appendI sublist_append_leftI) (metis append.assoc sublist_append_leftI)
  then show ?case using 3 by (auto simp: py_in_sublist dest: sublist_order.order_trans)
qed auto

end
