(* ===== verification/Trace_Summary.thy ===== *)
theory Trace_Summary
  imports Trace_Replay Tool_Common
begin

text \<open>
  \<open>examples/lt/tools/run_trace_replay_lab.py\<close>, second part: the statistics of a replay
  (\<open>average\<close>, \<open>percentile\<close>, \<open>summary_for_workload\<close>), the validation of the printed
  summaries, the comparison report and \<open>main\<close>.
\<close>

section \<open>Summary\<close>

definition average :: "pyfloat list \<Rightarrow> pyfloat result" where
  "average values = (if values = [] then Inr f_zero
     else bindR (float_of_int (int (length values))) (\<lambda>n. f_div (py_fsum values) n))"

text \<open>\<open>int(round((p / 100.0) * (len - 1)))\<close>, clamped to the indices.\<close>

definition percentile_rank :: "int \<Rightarrow> int \<Rightarrow> int result" where
  "percentile_rank p n =
     bindR (float_of_int p) (\<lambda>pf. bindR (f_div pf (flit 100 1)) (\<lambda>q.
     bindR (float_of_int (n - 1)) (\<lambda>k. bindR (round_to_int (f_mul q k)) (\<lambda>rank.
     Inr (max 0 (min rank (n - 1)))))))"

definition percentile :: "pyfloat list \<Rightarrow> int \<Rightarrow> pyfloat result" where
  "percentile values p =
     (if values = [] then Inr f_zero
      else let ordered = py_sorted f_lt values in
        if length ordered = 1 then Inr (ordered ! 0)
        else bindR (percentile_rank p (int (length ordered))) (\<lambda>rank. Inr (ordered ! nat rank)))"

record summary =
  s_workload_name :: string
  s_num_transactions :: string
  s_avg_latency_ns :: string
  s_p50_latency_ns :: string
  s_p95_latency_ns :: string
  s_p99_latency_ns :: string
  s_max_latency_ns :: string
  s_bank_conflict_ratio_pct :: string
  s_throughput_txn_per_us :: string

definition throughput_of :: "int \<Rightarrow> pyfloat \<Rightarrow> pyfloat result" where
  "throughput_of n window =
     (if f_lt f_zero window
      then bindR (f_div window (flit 1000 1)) (\<lambda>us. bindR (float_of_int n) (\<lambda>nf. f_div nf us))
      else Inr f_zero)"

definition conflict_ratio :: "int \<Rightarrow> int \<Rightarrow> pyfloat result" where
  "conflict_ratio n_conflicts n =
     bindR (float_of_int n_conflicts) (\<lambda>c. bindR (float_of_int n) (\<lambda>nf.
     f_div (f_mul (flit 100 1) c) nf))"

definition summary_for_workload :: "replay_row list \<Rightarrow> summary result" where
  "summary_for_workload rows =
     bindR (raise_if (rows = []) (TraceReplayError ''cannot summarize empty replay output'')) (\<lambda>_.
     let name = o_workload_name (hd rows) in
     bindR (raise_if (set (map o_workload_name rows) \<noteq> {name})
       (TraceReplayError ''summary input contains mixed workloads'')) (\<lambda>_.
     bindR (mapR (\<lambda>row. to_float (o_total_delay_ns row)) rows) (\<lambda>latencies.
     bindR (mapR (\<lambda>row. to_float (o_start_time_ns row)) rows) (\<lambda>starts.
     bindR (mapR (\<lambda>row. to_float (o_end_time_ns row)) rows) (\<lambda>ends.
     let bank_conflicts = int (length (filter (\<lambda>row. o_bank_conflict row = ''1'') rows));
         num_transactions = int (length rows) in
     bindR (py_max ends) (\<lambda>hi. bindR (py_min starts) (\<lambda>lo.
     bindR (throughput_of num_transactions (f_sub hi lo)) (\<lambda>throughput.
     bindR (average latencies) (\<lambda>avg.
     bindR (percentile latencies 50) (\<lambda>p50. bindR (percentile latencies 95) (\<lambda>p95.
     bindR (percentile latencies 99) (\<lambda>p99. bindR (py_max latencies) (\<lambda>mx.
     bindR (conflict_ratio bank_conflicts num_transactions) (\<lambda>ratio.
     Inr \<lparr>s_workload_name = name, s_num_transactions = str_int num_transactions,
          s_avg_latency_ns = format_number avg, s_p50_latency_ns = format_number p50,
          s_p95_latency_ns = format_number p95, s_p99_latency_ns = format_number p99,
          s_max_latency_ns = format_number mx,
          s_bank_conflict_ratio_pct = format_number ratio,
          s_throughput_txn_per_us = format_number throughput\<rparr>))))))))))))))"

definition validate_summary_row :: "summary \<Rightarrow> unit result" where
  "validate_summary_row row =
     bindR (opt_or_raise (py_int10 (s_num_transactions row))
       (ValueError ''invalid literal for int() with base 10'')) (\<lambda>n.
     bindR (raise_if (n \<le> 0)
       (TraceReplayError (s_workload_name row @ '' has no transactions''))) (\<lambda>_.
     bindR (to_float (s_p50_latency_ns row)) (\<lambda>p50.
     bindR (to_float (s_p95_latency_ns row)) (\<lambda>p95.
     bindR (to_float (s_p99_latency_ns row)) (\<lambda>p99.
     bindR (to_float (s_max_latency_ns row)) (\<lambda>mx.
     bindR (raise_if (\<not> (f_le p50 p95 \<and> f_le p95 p99 \<and> f_le p99 mx))
       (TraceReplayError (s_workload_name row @ '' percentile ordering failed''))) (\<lambda>_.
     bindR (to_float (s_bank_conflict_ratio_pct row)) (\<lambda>ratio.
     bindR (raise_if (\<not> (f_le f_zero ratio \<and> f_le ratio (flit 100 1)))
       (TraceReplayError (s_workload_name row @ '' bank_conflict_ratio_pct out of range''))) (\<lambda>_.
     bindR (to_float (s_throughput_txn_per_us row)) (\<lambda>tp.
     raise_if (f_lt tp f_zero)
       (TraceReplayError (s_workload_name row @ '' throughput_txn_per_us is negative''))))))))))))"

definition validate_summary_rows :: "summary list \<Rightarrow> unit result" where
  "validate_summary_rows rows =
     bindR (raise_if (rows = []) (TraceReplayError ''summary must contain at least one workload''))
       (\<lambda>_. checkR validate_summary_row rows)"

section \<open>Exact integers and ranks\<close>

text \<open>The rank as a function of the exact quotient: two roundings to the format, then half to even.\<close>

definition rank_of :: "int \<Rightarrow> int \<Rightarrow> int" where
  "rank_of p n = max 0 (min (rhe (b64 (b64 (of_int p / 100) * of_int (n - 1)))) (n - 1))"

lemma percentile_rank_eq:
  assumes "0 \<le> p" and "p \<le> 100" and "1 \<le> n" and "n < 2 ^ 53"
  shows "percentile_rank p n = Inr (rank_of p n)"
proof -
  obtain m e where pf: "float_of_int p = Inr (Fin False m e)" "0 \<le> m" "mag m e = of_int p"
    using float_of_int_rounds [of p] assms by auto
  obtain c f where h: "flit 100 1 = Fin False c f" "0 \<le> c" "mag c f = 100"
    using flit_int [of 100] by auto
  obtain q where q: "f_div (Fin False m e) (flit 100 1) = Inr q" "rounds_to False (of_int p / 100) q"
    using f_div_rounds [of m c f e] pf h by auto
  have "of_int p / 100 \<le> (of_int 1 :: rat)" using assms by simp
  from rounds_le_int [OF q(2) this] obtain a b where q': "q = Fin False a b" "0 \<le> a" "mag a b \<le> 1"
    by auto
  then have qv: "mag a b = b64 (of_int p / 100)" using q(2) by (auto simp: rounds_to_def split: if_splits)
  obtain k g where k: "float_of_int (n - 1) = Inr (Fin False k g)" "0 \<le> k" "mag k g = of_int (n - 1)"
    using float_of_int_rounds [of "n - 1"] assms by auto
  have r: "rounds_to False (mag a b * mag k g) (f_mul q (Fin False k g))"
    using f_mul_rounds [of a k False False b g] q' k by simp
  have "mag a b * mag k g \<le> of_int (n - 1)"
    using mult_right_mono [OF q'(3), of "of_int (n - 1)"] k(3) assms(3) by simp
  from rounds_le_int [OF r this] assms obtain u v where u: "f_mul q (Fin False k g) = Fin False u v" "0 \<le> u"
    by auto
  then have "mag u v = b64 (mag a b * mag k g)" using r by (auto simp: rounds_to_def split: if_splits)
  then show ?thesis
    unfolding percentile_rank_def pf(1) bindR_Inr q(1) k(1) u(1) int_by_round rank_of_def
    by (simp add: qv k(3))
qed

lemma rank_of_bounds: "1 \<le> n \<Longrightarrow> 0 \<le> rank_of p n \<and> rank_of p n < n"
  by (auto simp: rank_of_def)

lemma rank_of_mono:
  assumes "p \<le> q" and "1 \<le> n"
  shows "rank_of p n \<le> rank_of q n"
proof -
  have "b64 (of_int p / 100) * of_int (n - 1) \<le> b64 (of_int q / 100) * of_int (n - 1)"
    using assms b64_mono [of "of_int p / 100" "of_int q / 100"]
    by (intro mult_right_mono) (simp_all add: divide_right_mono)
  then show ?thesis unfolding rank_of_def
    using rhe_mono [OF b64_mono] by (meson max.mono min.mono order_refl)
qed

lemma percentile_eq:
  assumes "0 \<le> p" and "p \<le> 100" and "xs \<noteq> []" and "length xs < 2 ^ 53"
  shows "percentile xs p = Inr (py_sorted f_lt xs ! nat (rank_of p (int (length xs))))"
proof (cases "length xs = 1")
  case True
  have "rank_of p 1 = 0" by (simp add: rank_of_def)
  then show ?thesis using assms True by (simp add: percentile_def)
next
  case False
  have "int (length xs) < int (2 ^ 53)" using assms(4) by (simp only: of_nat_less_iff)
  then have "int (length xs) < 2 ^ 53" by simp
  moreover have "1 \<le> int (length xs)" using assms(3) by (cases xs) auto
  ultimately show ?thesis
    using False assms percentile_rank_eq [of p "int (length xs)"] by (simp add: percentile_def Let_def)
qed

lemma rank_nat: "xs \<noteq> [] \<Longrightarrow> nat (rank_of p (int (length xs))) < length xs"
proof -
  assume "xs \<noteq> []"
  then have "1 \<le> int (length xs)" by (cases xs) auto
  from rank_of_bounds [OF this, of p] show ?thesis by auto
qed

text \<open>A percentile is an element of the sample, and a larger percentage never gives a smaller one.\<close>

lemma percentile_mem:
  "0 \<le> p \<Longrightarrow> p \<le> 100 \<Longrightarrow> xs \<noteq> [] \<Longrightarrow> length xs < 2 ^ 53 \<Longrightarrow> percentile xs p = Inr x \<Longrightarrow> x \<in> set xs"
  using percentile_eq [of p xs] rank_nat [of xs p] by (metis length_py_sorted nth_mem old.sum.inject(2) set_py_sorted)

lemma percentile_mono:
  assumes "0 \<le> p" and "p \<le> q" and "q \<le> 100" and "xs \<noteq> []" and "length xs < 2 ^ 53"
    and "\<forall>x \<in> set xs. not_nan x" and "percentile xs p = Inr x" and "percentile xs q = Inr y"
  shows "f_le x y"
proof -
  let ?i = "nat (rank_of p (int (length xs)))" and ?j = "nat (rank_of q (int (length xs)))"
  have l: "1 \<le> int (length xs)" using assms(4) by (cases xs) auto
  have "\<not> f_lt (py_sorted f_lt xs ! ?j) (py_sorted f_lt xs ! ?i)"
    using float_order.nth_py_sorted_mono [OF assms(6), of ?i ?j] rank_of_mono [OF assms(2) l] rank_nat [OF assms(4)]
    by (simp add: nat_mono)
  moreover have "x = py_sorted f_lt xs ! ?i" "y = py_sorted f_lt xs ! ?j"
    using assms(1-5,7,8) percentile_eq [of p xs] percentile_eq [of q xs] by auto
  moreover have "not_nan x" "not_nan y" using assms percentile_mem [of p xs x] percentile_mem [of q xs y] by auto
  ultimately show ?thesis by (simp add: f_le_not_lt)
qed

section \<open>The other statistics\<close>

lemma float_of_count:
  "1 \<le> n \<Longrightarrow> n < 2 ^ 53 \<Longrightarrow> \<exists>m e. float_of_int n = Inr (Fin False m e) \<and> 0 < m \<and> mag m e = of_int n"
  using float_of_int_rounds [of n] by (force simp: le_less)

lemma average_total: "length xs < 2 ^ 53 \<Longrightarrow> \<exists>a. average xs = Inr a"
proof (cases "xs = []")
  case False
  assume "length xs < 2 ^ 53"
  then have "int (length xs) < int (2 ^ 53)" by (simp only: of_nat_less_iff)
  then obtain m e where "float_of_int (int (length xs)) = Inr (Fin False m e)" "0 < m"
    using float_of_count [of "int (length xs)"] False by (cases xs) auto
  then show ?thesis using False f_div_total [of "Fin False m e"] by (simp add: average_def)
qed (simp add: average_def)

lemma conflict_ratio_range:
  assumes "0 \<le> c" and "c \<le> n" and "1 \<le> n" and "n < 2 ^ 46"
  shows "\<exists>x. conflict_ratio c n = Inr x \<and> rounds_to False (of_int (100 * c) / of_int n) x"
proof -
  obtain m e where c: "float_of_int c = Inr (Fin False m e)" "0 \<le> m" "mag m e = of_int c"
    using float_of_int_rounds [of c] assms by auto
  obtain k f where n: "float_of_int n = Inr (Fin False k f)" "0 < k" "mag k f = of_int n"
    using float_of_count [of n] assms by auto
  obtain h g where h: "flit 100 1 = Fin False h g" "0 \<le> h" "mag h g = 100"
    using flit_int [of 100] by auto
  have r: "rounds_to False (of_int (100 * c)) (f_mul (flit 100 1) (Fin False m e))"
    using f_mul_rounds [of h m False False g e] h c by simp
  then obtain u v where u: "f_mul (flit 100 1) (Fin False m e) = Fin False u v" "0 \<le> u"
      "mag u v = of_int (100 * c)"
    using rounds_int [OF r] rounds_le_int [OF r, of "100 * c"] assms by fastforce
  have "mag k f \<noteq> 0" using n assms by simp
  from f_div_rounds [OF u(2) _ this, of v] n show ?thesis
    unfolding conflict_ratio_def c(1) n(1) bindR_Inr u(1) u(3) [symmetric] by auto
qed

text \<open>The window divided by 1000 is never zero: printed times lie on a grid of \<open>2 ^ - 62\<close>.\<close>

lemma throughput_total:
  assumes "on_grid x" and "on_grid y" and "1 \<le> n" and "n < 2 ^ 53"
  shows "\<exists>t. throughput_of n (f_sub x y) = Inr t \<and> wf_float t \<and> not_nan t \<and> f_le f_zero t"
proof (cases "f_lt f_zero (f_sub x y)")
  case False
  then show ?thesis by (auto simp: throughput_of_def f_zero_def f_cmp mag_def bound_pos)
next
  case True
  obtain k f where n: "float_of_int n = Inr (Fin False k f)" "0 < k" "mag k f = of_int n"
    using float_of_count [of n] assms by auto
  obtain h g where h: "flit 1000 1 = Fin False h g" "0 \<le> h" "mag h g = 1000"
    using flit_int [of 1000] by auto
  show ?thesis
  proof (cases "f_sub x y")
    case (Fin s m e)
    then have p: "\<not> s" "0 < m" "2 powi (- 62) \<le> mag m e"
      using f_sub_grid [OF assms(1,2) Fin True] by auto
    have "mag h g \<noteq> 0" using h by simp
    from f_div_rounds [OF _ h(2) this, of m e] obtain us where
      us: "f_div (Fin False m e) (flit 1000 1) = Inr us" "rounds_to False (mag m e / 1000) us"
      using p h by auto
    have "(2::rat) powi (- 72) = 2 powi (- 62) / 2 powi 10" by (simp flip: power_int_diff)
    also have "\<dots> \<le> mag m e / 1000"
      using p(3) by (intro frac_le) simp_all
    finally have b: "2 powi (- 72) \<le> b64 (mag m e / 1000)"
      unfolding b64_def using b64.rnd_ge_power [of "- 72"] by simp
    have "\<exists>t. f_div (Fin False k f) us = Inr t \<and> wf_float t \<and> not_nan t \<and> f_le f_zero t"
    proof (cases us)
      case (Fin s' m' e')
      then have m': "\<not> s'" "0 \<le> m'" "mag m' e' \<noteq> 0"
        using us(2) b zero_less_power_int [of "2 :: rat" "- 72"]
        by (auto simp: rounds_to_def split: if_splits)
      then obtain t where "f_div (Fin False k f) (Fin False m' e') = Inr t"
          "rounds_to False (mag k f / mag m' e') t"
        using f_div_rounds [of k m' e' f] n(2) by auto
      then show ?thesis using m' Fin wf_rounds not_nan_rounds rounds_nonneg by auto
    qed (use us(2) in \<open>auto simp: rounds_to_def f_zero_def f_cmp mag_def bound_pos split: if_splits\<close>)
    then show ?thesis using True p n us Fin by (auto simp: throughput_of_def)
  next
    case (FInf s)
    then have "s = False" using True by (auto simp: f_cmp f_zero_def)
    then have "throughput_of n (f_sub x y) = Inr (Fin False 0 0)"
      using FInf True n h by (cases "h = 0") (auto simp: throughput_of_def)
    then show ?thesis by (simp add: f_zero_def f_cmp mag_def bound_pos)
  qed (use True in \<open>simp add: f_cmp\<close>)
qed

section \<open>The summary of a replay\<close>

definition latency_of :: "replay_row \<Rightarrow> pyfloat" where
  "latency_of r = (if o_total_delay_ns r = ''120.000'' then flit 120 1 else flit 100 1)"

lemma parse_latencies:
  "parse_float ''100.000'' = Some (flit 100 1)" "parse_float ''120.000'' = Some (flit 120 1)"
  by code_simp+

text \<open>What every replayed row of well-formed input rows prints.\<close>

lemma replay_row_fields:
  assumes "r \<in> set (replay_rows rows)" and "\<forall>r \<in> set rows. wf_float (timestamp_ns_value r)"
  shows "to_float (o_total_delay_ns r) = Inr (latency_of r)"
    and "\<exists>t. wf_float t \<and> o_start_time_ns r = fmt3 t"
    and "\<exists>t. wf_float t \<and> o_end_time_ns r = fmt3 t"
    and "\<exists>s \<in> set rows. o_workload_name r = workload_name s"
proof -
  obtain i where "i < length (replay_rows rows)" "r = replay_rows rows ! i"
    using assms(1) by (metis in_set_conv_nth)
  then have i: "i < length rows" "r = replay_rows rows ! i" by (simp_all add: replay_rows_def)
  note spec = replay_fields [OF i(1)]
  have w: "wf_float (timestamp_ns_value (rows ! i))" using assms(2) i(1) by simp
  show "to_float (o_total_delay_ns r) = Inr (latency_of r)"
    using spec unfolding i(2) latency_of_def to_float_def
    by (cases "conflicts rows i") (simp_all add: parse_latencies opt_or_raise_def)
  show "\<exists>t. wf_float t \<and> o_end_time_ns r = fmt3 t"
    using spec w wf_f_add [OF w wf_flit] unfolding i(2) by (metis zero_less_one)
  have "o_start_time_ns r = fmt3 (timestamp_ns_value (rows ! i))"
    unfolding i(2) replay_row_at [OF i(1)] by (simp add: Let_def format_time_def)
  then show "\<exists>t. wf_float t \<and> o_start_time_ns r = fmt3 t" using w by blast
  have "o_workload_name r = workload_name (rows ! i)"
    unfolding i(2) replay_row_at [OF i(1)] by (simp add: Let_def)
  then show "\<exists>s \<in> set rows. o_workload_name r = workload_name s" using i(1) by auto
qed

lemma mapR_times:
  assumes "\<forall>r \<in> set out. \<exists>t. wf_float t \<and> f r = fmt3 t"
  shows "\<exists>ts. mapR (\<lambda>row. to_float (f row)) out = Inr ts \<and> length ts = length out \<and> (\<forall>t \<in> set ts. on_grid t)"
proof -
  define g where "g r = the (parse_float (f r))" for r
  have g: "to_float (f r) = Inr (g r) \<and> on_grid (g r)" if r: "r \<in> set out" for r
  proof -
    obtain t where t: "wf_float t" "f r = fmt3 t" using bspec [OF assms r] by (elim exE conjE)
    have "g r = reparse t" unfolding g_def t(2) parse_fmt3 [OF t(1)] by (rule option.sel)
    then show ?thesis unfolding t(2) to_float_fmt3 [OF t(1)] using on_grid_reparse [OF t(1)] by simp
  qed
  then have "mapR (\<lambda>row. to_float (f row)) out = Inr (map g out)"
    by (intro mapR_Inr_total) simp
  then show ?thesis using g by auto
qed

lemma latency_wf: "wf_float (latency_of r)" "not_nan (latency_of r)"
  using flit_int [of 100] flit_int [of 120] by (auto simp: latency_of_def wf_flit)

lemma on_grid_wf: "on_grid x \<Longrightarrow> wf_float x"
  by (simp add: on_grid_def)

text \<open>The statistics that a non-empty replay of \<open>n\<close> rows of one workload has.\<close>

lemma summary_of_replay:
  assumes rows: "\<forall>r \<in> set rows. wf_float (timestamp_ns_value r)" "rows \<noteq> []" "length rows < 2 ^ 46"
    and one: "\<forall>r \<in> set rows. workload_name r = w"
  defines "out \<equiv> replay_rows rows"
  defines "lats \<equiv> map latency_of out"
  shows "\<exists>tp avg p50 p95 p99 mx ratio.
    summary_for_workload out = Inr \<lparr>s_workload_name = w, s_num_transactions = str_int (int (length rows)),
      s_avg_latency_ns = fmt3 avg, s_p50_latency_ns = fmt3 p50, s_p95_latency_ns = fmt3 p95,
      s_p99_latency_ns = fmt3 p99, s_max_latency_ns = fmt3 mx,
      s_bank_conflict_ratio_pct = fmt3 ratio, s_throughput_txn_per_us = fmt3 tp\<rparr> \<and>
    average lats = Inr avg \<and> percentile lats 50 = Inr p50 \<and> percentile lats 95 = Inr p95 \<and>
    percentile lats 99 = Inr p99 \<and> py_max lats = Inr mx \<and>
    rounds_to False (of_int (100 * int (length (filter (\<lambda>r. o_bank_conflict r = ''1'') out))) / of_nat (length rows)) ratio \<and>
    wf_float tp \<and> f_le f_zero tp"
proof -
  have l: "length out = length rows" "out \<noteq> []" unfolding out_def replay_rows_def using rows(2) by (metis length_replay_from, metis length_0_conv length_replay_from)
  note fields = replay_row_fields [OF _ rows(1), folded out_def]
  have lat: "mapR (\<lambda>row. to_float (o_total_delay_ns row)) out = Inr lats"
    unfolding lats_def by (rule mapR_Inr_total) (rule fields)
  obtain starts where st: "mapR (\<lambda>row. to_float (o_start_time_ns row)) out = Inr starts"
      "length starts = length out" "\<forall>t \<in> set starts. on_grid t"
    using mapR_times [of out o_start_time_ns] fields(2) by blast
  obtain ends where en: "mapR (\<lambda>row. to_float (o_end_time_ns row)) out = Inr ends"
      "length ends = length out" "\<forall>t \<in> set ends. on_grid t"
    using mapR_times [of out o_end_time_ns] fields(3) by blast
  obtain hi lo where hl: "py_max ends = Inr hi" "py_min starts = Inr lo"
    using py_max_total [of ends] py_min_total [of starts] l st en by (metis length_0_conv)
  then have "on_grid hi" "on_grid lo" using py_max_mem py_min_mem st en by blast+
  moreover have "int (length rows) < int (2 ^ 46)" using rows(3) by (simp only: of_nat_less_iff)
  then have n: "1 \<le> int (length rows)" "int (length rows) < 2 ^ 46" "int (length rows) < 2 ^ 53"
    using rows(2) by (cases rows; simp)+
  ultimately obtain tp where tp: "throughput_of (int (length rows)) (f_sub hi lo) = Inr tp"
      "wf_float tp" "f_le f_zero tp" using throughput_total by blast
  have len: "length lats < 2 ^ 53" "lats \<noteq> []" using l rows(3) by (simp_all add: lats_def)
  obtain avg where avg: "average lats = Inr avg" using average_total len by blast
  obtain p50 p95 p99 where p: "percentile lats 50 = Inr p50" "percentile lats 95 = Inr p95" "percentile lats 99 = Inr p99"
    using percentile_eq [OF _ _ len(2,1)] by auto
  obtain mx where mx: "py_max lats = Inr mx" using py_max_total len by blast
  let ?c = "int (length (filter (\<lambda>r. o_bank_conflict r = ''1'') out))"
  obtain ratio where ratio: "conflict_ratio ?c (int (length rows)) = Inr ratio"
      "rounds_to False (of_int (100 * ?c) / of_nat (length rows)) ratio"
  proof -
    have "?c \<le> int (length rows)" unfolding l(1) [symmetric] by simp
    from conflict_ratio_range [OF _ this n(1,2)] show ?thesis using that by auto
  qed
  have names: "set (map o_workload_name out) = {w}" "o_workload_name (hd out) = w"
  proof -
    have "o_workload_name r = w" if "r \<in> set out" for r using fields(4) [OF that] one by auto
    then show "set (map o_workload_name out) = {w}" "o_workload_name (hd out) = w" using l(2) by (auto simp: neq_Nil_conv)
  qed
  have "summary_for_workload out = Inr \<lparr>s_workload_name = w, s_num_transactions = str_int (int (length rows)),
      s_avg_latency_ns = fmt3 avg, s_p50_latency_ns = fmt3 p50, s_p95_latency_ns = fmt3 p95,
      s_p99_latency_ns = fmt3 p99, s_max_latency_ns = fmt3 mx,
      s_bank_conflict_ratio_pct = fmt3 ratio, s_throughput_txn_per_us = fmt3 tp\<rparr>"
    unfolding summary_for_workload_def Let_def names
    by (simp add: raise_if_def l(2) l(1) lat st(1) en(1) hl tp(1) avg p mx ratio(1) format_number_def)
  then show ?thesis using tp avg p mx ratio by blast
qed

lemma py_int10_str_int: "0 \<le> n \<Longrightarrow> n < 10 ^ 18 \<Longrightarrow> py_int10 (str_int n) = Some n"
proof -
  assume a: "0 \<le> n" "n < 10 ^ 18"
  have "length (dec_digits n) \<le> 18" by (rule length_dec_digits [OF a]) simp
  then have "\<not> too_long (dec_digits n)" using length_filter_le [of "\<lambda>c. c \<noteq> CHR ''_''" "dec_digits n"]
    unfolding too_long_def by linarith
  then show ?thesis using py_int10_dec_digits [OF a(1)] a(1) by (simp add: str_int_def)
qed

lemma reparse_le_int:
  assumes "rounds_to False q x" and "q \<le> of_int k" and "0 \<le> k" and "k < 2 ^ 53"
  shows "f_le f_zero (reparse x) \<and> f_le (reparse x) (flit k 1)"
proof -
  obtain m e where x: "x = Fin False m e" "0 \<le> m" "mag m e \<le> of_int k"
    using rounds_le_int [OF assms] by auto
  have r: "rounds_to False (milli (mag m e)) (reparse x)" using reparse_rounds [OF x(2)] x(1) by simp
  have "milli (mag m e) \<le> of_int k" using milli_mono [OF x(3)] by simp
  from rounds_le_int [OF r this assms(3,4)] obtain m' e' where
    "reparse x = Fin False m' e'" "mag m' e' \<le> of_int k" by auto
  moreover obtain c f where "flit k 1 = Fin False c f" "mag c f = of_int k" using flit_int [OF assms(3,4)] by auto
  ultimately show ?thesis using rounds_nonneg [OF r] by (simp add: f_cmp)
qed

lemma f_eq_le_not_lt: "f_le a y \<Longrightarrow> f_eq a b \<Longrightarrow> \<not> f_lt y b"
  unfolding f_cmp by (elim conjE disjE) simp_all

lemma reparse_nonneg:
  assumes "wf_float x" and "f_le f_zero x"
  shows "\<not> f_lt (reparse x) f_zero"
proof -
  have "f_le (reparse f_zero) (reparse x)"
    using reparse_mono [OF _ assms] by (simp add: f_zero_def bound_pos)
  moreover have "\<exists>m e. reparse (Fin False 0 0) = Fin False m e \<and> 0 \<le> m \<and> mag m e = of_int 0"
    by (rule reparse_int) simp_all
  then obtain m e where "reparse f_zero = Fin False m e" "mag m e = 0"
    unfolding f_zero_def of_int_0 by blast
  then have "f_eq (reparse f_zero) f_zero" unfolding f_eq_val by (simp only: f_zero_def) simp
  ultimately show ?thesis by (rule f_eq_le_not_lt)
qed

lemma loaded_summary_accepted:
  assumes "load_trace path file = Inr rows" and "length rows < 2 ^ 46"
  shows "\<exists>s. summary_for_workload (replay_rows rows) = Inr s \<and> validate_summary_row s = Inr ()"
proof -
  let ?lats = "map latency_of (replay_rows rows)"
  obtain w where w: "\<forall>r \<in> set rows. workload_name r = w"
    using load_trace_one_workload [OF assms(1)] by blast
  have "\<forall>r \<in> set rows. wf_float (timestamp_ns_value r)"
    using load_trace_valid [OF assms(1)] wf_parse_float by (auto simp: valid_row_def)
  from summary_of_replay [OF this load_trace_nonempty [OF assms(1)] assms(2) w]
  obtain tp avg p50 p95 p99 mx ratio q where s:
    "summary_for_workload (replay_rows rows) = Inr \<lparr>s_workload_name = w, s_num_transactions = str_int (int (length rows)),
      s_avg_latency_ns = fmt3 avg, s_p50_latency_ns = fmt3 p50, s_p95_latency_ns = fmt3 p95,
      s_p99_latency_ns = fmt3 p99, s_max_latency_ns = fmt3 mx,
      s_bank_conflict_ratio_pct = fmt3 ratio, s_throughput_txn_per_us = fmt3 tp\<rparr>"
    and st: "percentile ?lats 50 = Inr p50" "percentile ?lats 95 = Inr p95" "percentile ?lats 99 = Inr p99"
      "py_max ?lats = Inr mx" "wf_float tp" "f_le f_zero tp"
    and ratio: "rounds_to False q ratio" "q = of_int (100 * int (length (filter (\<lambda>r. o_bank_conflict r = ''1'') (replay_rows rows)))) / of_nat (length rows)"
    by blast
  have len: "?lats \<noteq> []" "length ?lats < 2 ^ 53"
  proof -
    have l: "length ?lats = length rows" by (simp add: replay_rows_def del: replay_from.simps)
    then show "length ?lats < 2 ^ 53" using assms(2) by simp
    show "?lats \<noteq> []" using l load_trace_nonempty [OF assms(1)] by (metis length_0_conv)
  qed
  have nn: "\<forall>x \<in> set ?lats. not_nan x" using latency_wf by auto
  have mem: "p50 \<in> set ?lats" "p95 \<in> set ?lats" "p99 \<in> set ?lats" "mx \<in> set ?lats"
    using percentile_mem [OF _ _ len st(1)] percentile_mem [OF _ _ len st(2)]
      percentile_mem [OF _ _ len st(3)] py_max_mem [OF st(4)] by simp_all
  then have wf: "wf_float p50" "wf_float p95" "wf_float p99" "wf_float mx" using latency_wf by auto
  have ord: "f_le (reparse p50) (reparse p95)" "f_le (reparse p95) (reparse p99)" "f_le (reparse p99) (reparse mx)"
    using percentile_mono [OF _ _ _ len nn st(1,2)] percentile_mono [OF _ _ _ len nn st(2,3)]
      py_max_ge [OF st(4) nn mem(3)] by (simp_all add: reparse_mono wf)
  have "int (length rows) < int (2 ^ 46)" using assms(2) by (simp only: of_nat_less_iff)
  then have n: "int (length rows) < 10 ^ 18" "0 < int (length rows)"
    using load_trace_nonempty [OF assms(1)] by simp_all
  have "length (filter (\<lambda>r. o_bank_conflict r = ''1'') (replay_rows rows)) \<le> length rows"
    using length_filter_le [of _ "replay_rows rows"] by (simp add: replay_rows_def)
  then have "q \<le> of_int 100"
    using n(2) unfolding ratio(2) by (simp add: divide_le_eq)
  from reparse_le_int [OF ratio(1) this] have rr: "f_le f_zero (reparse ratio)" "f_le (reparse ratio) (flit 100 1)"
    by simp_all
  have "validate_summary_row (projr (summary_for_workload (replay_rows rows))) = Inr ()"
    unfolding s validate_summary_row_def using n reparse_nonneg [OF st(5,6)] wf_rounds [OF ratio(1)]
    by (simp add: opt_or_raise_def py_int10_str_int to_float_fmt3 wf st(5) raise_if_def ord rr)
  then show ?thesis unfolding s by simp
qed

text \<open>C2. The tool's own validation never rejects a replay: for every trace that loads (of fewer
  than \<open>2 ^ 46\<close> rows), the summary is computed without an exception (no division by zero,
  no overflow), and \<open>validate_summary_rows\<close> accepts it: the printed percentiles are ordered,
  the conflict ratio is in 0..100 and the throughput is not negative.\<close>

theorem summary_never_rejected:
  assumes "load_trace path file = Inr rows" and "length rows < 2 ^ 46"
  shows "\<exists>s. summary_for_workload (replay_rows rows) = Inr s \<and> validate_summary_row s = Inr ()"
  using assms by (rule loaded_summary_accepted)

theorem summary_never_rejected_witness:
  "\<exists>rows s. load_trace ''t'' (Some sample_file) = Inr rows \<and>
     summary_for_workload (replay_rows rows) = Inr s \<and> validate_summary_row s = Inr ()"
proof -
  obtain r1 r2 where l: "load_trace ''t'' (Some sample_file) = Inr [r1, r2]" using sample_loads by blast
  have "length [r1, r2] < 2 ^ 46" by simp
  from summary_never_rejected [OF l this] l show ?thesis by blast
qed

text \<open>The conflicts of a replay, counted on the input rows.\<close>

definition conflict_count :: "trace_row list \<Rightarrow> int" where
  "conflict_count rows = int (length (filter (conflicts rows) [0..<length rows]))"

lemma replay_rows_map:
  "map f (replay_rows rows) = map (\<lambda>i. f (replay_rows rows ! i)) [0..<length rows]"
proof -
  have "length (replay_rows rows) = length rows" by (simp add: replay_rows_def)
  then show ?thesis by (metis map_nth map_map comp_def map_cong)
qed

lemma count_conflicts:
  "int (length (filter (\<lambda>r. o_bank_conflict r = ''1'') (replay_rows rows))) = conflict_count rows"
proof -
  have "length (filter (\<lambda>r. o_bank_conflict r = ''1'') (replay_rows rows)) =
        length (filter (\<lambda>c. c = ''1'') (map o_bank_conflict (replay_rows rows)))"
    by (simp add: filter_map comp_def)
  also have "map o_bank_conflict (replay_rows rows) =
      map (\<lambda>i. if conflicts rows i then ''1'' else ''0'') [0..<length rows]"
    unfolding replay_rows_map by (rule map_cong) (simp_all add: replay_fields)
  also have "length (filter (\<lambda>c. c = ''1'') \<dots>) = length (filter (conflicts rows) [0..<length rows])"
    by (simp add: filter_map comp_def)
  finally show ?thesis by (simp add: conflict_count_def)
qed

lemma sum_latency_list:
  "sum_list (map (\<lambda>i. if P i then 120 else 100) xs) = 100 * int (length xs) + 20 * int (length (filter P xs))"
  by (induction xs) auto

lemma average_of_replay:
  assumes "rows \<noteq> []" and "length rows < 2 ^ 46"
  shows "\<exists>avg. average (map latency_of (replay_rows rows)) = Inr avg \<and>
    rounds_to False (of_int (100 * int (length rows) + 20 * conflict_count rows) / of_nat (length rows)) avg"
proof -
  let ?lats = "map latency_of (replay_rows rows)" and ?n = "int (length rows)"
  let ?ks = "map (\<lambda>i. if conflicts rows i then 120 else 100) [0..<length rows] :: int list"
  have l: "length ?lats = length rows" by (simp add: replay_rows_def del: replay_from.simps)
  have "int (length rows) < int (2 ^ 46)" using assms(2) by (simp only: of_nat_less_iff)
  then have n: "1 \<le> ?n" "?n < 2 ^ 46" using assms(1) by (cases rows; simp)+
  have c: "0 \<le> conflict_count rows" "conflict_count rows \<le> ?n"
    using length_filter_le [of "conflicts rows" "[0..<length rows]"] by (simp_all add: conflict_count_def)
  have s: "sum_list ?ks = 100 * ?n + 20 * conflict_count rows"
    unfolding sum_latency_list conflict_count_def by simp
  have lit: "is_int_val (flit 100 1) 100" "is_int_val (flit 120 1) 120"
    using flit_int [of 100] flit_int [of 120] by (auto simp: is_int_val_def)
  have "list_all2 is_int_val ?lats ?ks"
    unfolding replay_rows_map list_all2_map1 list_all2_map2
    by (auto simp: list_all2_conv_all_nth latency_of_def replay_fields lit)
  moreover have "\<forall>k \<in> set ?ks. 0 \<le> k" by auto
  moreover have "sum_list ?ks < 2 ^ 53" unfolding s using n c by simp
  ultimately have f: "is_int_val (py_fsum ?lats) (100 * ?n + 20 * conflict_count rows)"
    unfolding s [symmetric] by (rule py_fsum_ints)
  obtain m e where fs: "py_fsum ?lats = Fin False m e" "0 \<le> m" "mag m e = of_int (100 * ?n + 20 * conflict_count rows)"
  proof -
    obtain u m e where u: "py_fsum ?lats = Fin u m e" "0 \<le> m" "fval (Fin u m e) = of_int (100 * ?n + 20 * conflict_count rows)"
      using f by (rule is_int_valE)
    have "0 < (of_int (100 * ?n + 20 * conflict_count rows) :: rat)" using n c by (simp only: of_int_0_less_iff)
    then have "\<not> u" using u(2,3) mag_nonneg [OF u(2), of e] by (cases u) auto
    then show ?thesis using that u by simp
  qed
  obtain k g where k: "float_of_int ?n = Inr (Fin False k g)" "0 < k" "mag k g = of_int ?n"
    using float_of_count [of ?n] n by auto
  have "mag k g \<noteq> 0" "0 \<le> k" using k n assms(1) by simp_all
  from f_div_rounds [OF fs(2) this(2,1), of e] obtain avg where
    "f_div (Fin False m e) (Fin False k g) = Inr avg" "rounds_to False (mag m e / mag k g) avg" by blast
  moreover have "?lats \<noteq> []" using l assms(1) by (metis length_0_conv)
  ultimately show ?thesis unfolding average_def fs(3) k(3) l k(1) bindR_Inr fs(1) by simp
qed

text \<open>C12. The summary is functionally right: for a loaded trace of \<open>n\<close> rows with \<open>c\<close> conflicts
  the printed average latency is the correctly rounded value of \<open>(100 n + 20 c) / n\<close> (the
  compensated sum loses nothing), and the printed conflict ratio is that of \<open>100 c / n\<close>.\<close>

theorem summary_average_exact:
  assumes "load_trace path file = Inr rows" and "length rows < 2 ^ 46"
    and "summary_for_workload (replay_rows rows) = Inr s"
  shows "\<exists>avg ratio. s_avg_latency_ns s = fmt3 avg \<and> s_bank_conflict_ratio_pct s = fmt3 ratio \<and>
    s_num_transactions s = str_int (int (length rows)) \<and>
    rounds_to False (of_int (100 * int (length rows) + 20 * conflict_count rows) / of_nat (length rows)) avg \<and>
    rounds_to False (of_int (100 * conflict_count rows) / of_nat (length rows)) ratio"
proof -
  obtain w where w: "\<forall>r \<in> set rows. workload_name r = w"
    using load_trace_valid load_trace_one_workload [OF assms(1)] by blast
  have "\<forall>r \<in> set rows. wf_float (timestamp_ns_value r)"
    using load_trace_valid [OF assms(1)] wf_parse_float by (auto simp: valid_row_def)
  note summary_of_replay [OF this load_trace_nonempty [OF assms(1)] assms(2) w]
  then show ?thesis
    using assms(3) average_of_replay [OF load_trace_nonempty [OF assms(1)] assms(2)]
    unfolding count_conflicts by fastforce
qed

theorem summary_average_exact_witness:
  "\<exists>rows s avg. load_trace ''t'' (Some sample_file) = Inr rows \<and>
     summary_for_workload (replay_rows rows) = Inr s \<and> s_avg_latency_ns s = fmt3 avg \<and>
     rounds_to False (of_int (200 + 20 * conflict_count rows) / 2) avg"
proof -
  obtain r1 r2 where l: "load_trace ''t'' (Some sample_file) = Inr [r1, r2]" using sample_loads by blast
  have n: "length [r1, r2] < 2 ^ 46" by simp
  have wf: "\<forall>r \<in> set [r1, r2]. wf_float (timestamp_ns_value r)"
    using load_trace_valid [OF l] wf_parse_float by (auto simp: valid_row_def)
  obtain w where "\<forall>r \<in> set [r1, r2]. workload_name r = w"
    using load_trace_one_workload [OF l] by (metis list.set_intros(1))
  then obtain s where "summary_for_workload (replay_rows [r1, r2]) = Inr s"
    using summary_of_replay [OF wf _ n] by blast
  from summary_average_exact [OF l n this] this l show ?thesis by fastforce
qed

section \<open>The report\<close>

definition delta :: "string \<Rightarrow> string \<Rightarrow> pyfloat result" where
  "delta value baseline = bindR (to_float value) (\<lambda>a. bindR (to_float baseline) (\<lambda>b. Inr (f_sub a b)))"

definition summary_cells :: "summary \<Rightarrow> string list" where
  "summary_cells s = [s_workload_name s, s_num_transactions s, s_avg_latency_ns s, s_p50_latency_ns s,
     s_p95_latency_ns s, s_p99_latency_ns s, s_max_latency_ns s, s_bank_conflict_ratio_pct s,
     s_throughput_txn_per_us s]"

definition delta_row :: "string \<Rightarrow> string \<Rightarrow> string \<Rightarrow> string list result" where
  "delta_row metric first second =
     bindR (delta second first) (\<lambda>d. Inr [metric, first, second, format_number d])"

definition delta_rows :: "summary \<Rightarrow> summary \<Rightarrow> string list list result" where
  "delta_rows first second =
     bindR (delta_row ''avg_latency_ns'' (s_avg_latency_ns first) (s_avg_latency_ns second)) (\<lambda>a.
     bindR (delta_row ''p99_latency_ns'' (s_p99_latency_ns first) (s_p99_latency_ns second)) (\<lambda>b.
     bindR (delta_row ''bank_conflict_ratio_pct'' (s_bank_conflict_ratio_pct first)
       (s_bank_conflict_ratio_pct second)) (\<lambda>c.
     bindR (delta_row ''throughput_txn_per_us'' (s_throughput_txn_per_us first)
       (s_throughput_txn_per_us second)) (\<lambda>d. Inr [a, b, c, d]))))"

text \<open>The lines of \<open>comparison.md\<close>.\<close>

definition comparison_lines :: "summary list \<Rightarrow> string list result" where
  "comparison_lines summary_rows =
     (let first = (case summary_rows of [] \<Rightarrow> None | s # _ \<Rightarrow> Some s);
          second = (case summary_rows of _ # s # _ \<Rightarrow> Some s | _ \<Rightarrow> None);
          first_name = (case first of None \<Rightarrow> ''first_workload'' | Some s \<Rightarrow> s_workload_name s);
          second_name = (case second of None \<Rightarrow> ''second_workload'' | Some s \<Rightarrow> s_workload_name s);
          head = [''# Project B Normalized Trace Replay MVP Comparison'', '''',
            ''Generated from `summary.csv` by `run_trace_replay_lab.py`.'', '''',
            ''This MVP replays normalized memory traces through the LT performance lab's minimal latency and bank-conflict abstraction. The replay step does not run gem5; gem5-derived inputs are consumed only as files. This is not gem5-SystemC live co-simulation.'',
            '''', ''## Replay Cases'', '''']
            @ markdown_table SUMMARY_FIELDS (map summary_cells summary_rows)
            @ ['''', ''## '' @ first_name @ '' vs '' @ second_name, '''']
      in case (first, second) of
           (Some f, Some s) \<Rightarrow> bindR (delta_rows f s) (\<lambda>rows.
             Inr (head @ markdown_table [''metric'', first_name, second_name, ''delta_second_minus_first''] rows
               @ ['''', ''## Engineering Interpretation'', '''',
                  ''- This comparison reports `'' @ second_name @ ''` minus `'' @ first_name
                    @ ''` using the first two traces in command-line order.'',
                  ''- Workload names are labels from the normalized traces; the replay tool does not require specific names.'',
                  ''- `timestamp_ns` is a normalized issue-time and ordering hint; it is not gem5 timing and not cycle timing.'',
                  ''- This report is a trace replay MVP, not a cache, DRAM, AXI, CHI, NoC, GPU, or gem5 co-simulation result.'']))
         | _ \<Rightarrow> Inr (head @ [''At least two workload summaries are required for delta comparison; deltas unavailable.'']))"

section \<open>The run\<close>

text \<open>What \<open>main\<close> does to the file system, in order, and its outcome.\<close>

datatype effect = RemoveOutputDir | MakeOutputDir | WriteTraceCsv "replay_row list"
  | WriteSummaryCsv "summary list" | WriteComparison "string list"

text \<open>The output path: absent, one of the broad directories that are refused, or removable.\<close>

datatype path_state = Absent | Dangerous | Removable

definition remove_output_dir :: "string \<Rightarrow> path_state \<Rightarrow> effect list result" where
  "remove_output_dir path st = (case st of Absent \<Rightarrow> Inr []
     | Dangerous \<Rightarrow> Inl (TraceReplayError (''refusing to remove broad output path: '' @ path))
     | Removable \<Rightarrow> Inr [RemoveOutputDir])"

definition replay_and_summarize :: "trace_row list \<Rightarrow> (replay_row list \<times> summary) result" where
  "replay_and_summarize rows =
     (let out = replay_rows rows in bindR (summary_for_workload out) (\<lambda>s. Inr (out, s)))"

definition replay_outputs :: "trace_row list list \<Rightarrow> (replay_row list \<times> summary list) result" where
  "replay_outputs traces =
     bindR (mapR replay_and_summarize traces) (\<lambda>ps.
     bindR (validate_summary_rows (map snd ps)) (\<lambda>_. Inr (concat (map fst ps), map snd ps)))"

definition main_replay ::
  "bool \<Rightarrow> (string \<times> string list list option) list \<Rightarrow> string \<Rightarrow> path_state \<Rightarrow> effect list \<times> int result" where
  "main_replay validate_only files out_path out_state =
     (case mapR (\<lambda>(p, f). load_trace p f) files of
        Inl e \<Rightarrow> ([], Inl e)
      | Inr traces \<Rightarrow>
          if validate_only then ([], Inr 0)
          else if length traces < 2
          then ([], Inl (TraceReplayError ''MVP replay expects at least two trace inputs''))
          else (case remove_output_dir out_path out_state of
             Inl e \<Rightarrow> ([], Inl e)
           | Inr removed \<Rightarrow>
               (case replay_outputs traces of
                  Inl e \<Rightarrow> (removed @ [MakeOutputDir], Inl e)
                | Inr (out, summaries) \<Rightarrow>
                    (case comparison_lines summaries of
                       Inl e \<Rightarrow> (removed @ [MakeOutputDir, WriteTraceCsv out, WriteSummaryCsv summaries], Inl e)
                     | Inr lines \<Rightarrow> (removed @ [MakeOutputDir, WriteTraceCsv out, WriteSummaryCsv summaries,
                         WriteComparison lines], Inr 0)))))"

definition printed :: "string \<Rightarrow> bool" where
  "printed t \<longleftrightarrow> (\<exists>x. wf_float x \<and> t = fmt3 x)"

lemma loaded_summary_printed:
  assumes "load_trace path file = Inr rows" and "length rows < 2 ^ 46"
    and "summary_for_workload (replay_rows rows) = Inr s"
  shows "printed (s_avg_latency_ns s) \<and> printed (s_p99_latency_ns s) \<and>
    printed (s_bank_conflict_ratio_pct s) \<and> printed (s_throughput_txn_per_us s)"
proof -
  let ?lats = "map latency_of (replay_rows rows)"
  note ne = load_trace_nonempty [OF assms(1)]
  obtain w where w: "\<forall>r \<in> set rows. workload_name r = w"
    using load_trace_one_workload [OF assms(1)] by (metis list.set_sel(1) ne)
  have wf: "\<forall>r \<in> set rows. wf_float (timestamp_ns_value r)"
    using load_trace_valid [OF assms(1)] wf_parse_float by (auto simp: valid_row_def)
  have l: "length ?lats = length rows" by (simp add: replay_rows_def del: replay_from.simps)
  then have len: "length ?lats < 2 ^ 53" "?lats \<noteq> []" using assms(2) ne by (simp, metis length_0_conv)
  have p: "wf_float x" if "percentile ?lats 99 = Inr x" for x
    using percentile_mem [OF _ _ len(2,1) that] latency_wf by auto
  have a: "wf_float x" if "average ?lats = Inr x" for x
    using average_of_replay [OF ne assms(2)] that wf_rounds by auto
  show ?thesis
    using summary_of_replay [OF wf ne assms(2) w] assms(3) p a wf_rounds
    unfolding printed_def by fastforce
qed

lemma delta_row_total: "printed a \<Longrightarrow> printed b \<Longrightarrow> \<exists>r. delta_row m a b = Inr r"
  by (auto simp: printed_def delta_row_def delta_def to_float_fmt3)

lemma loaded_comparison:
  assumes "\<forall>s \<in> set ss. printed (s_avg_latency_ns s) \<and> printed (s_p99_latency_ns s) \<and>
    printed (s_bank_conflict_ratio_pct s) \<and> printed (s_throughput_txn_per_us s)"
  shows "\<exists>lines. comparison_lines ss = Inr lines"
proof (cases ss rule: remdups_adj.cases)
  case (3 f s ss')
  have "\<exists>r. delta_rows f s = Inr r"
  proof -
    let ?f = "\<lambda>s. [s_avg_latency_ns s, s_p99_latency_ns s, s_bank_conflict_ratio_pct s, s_throughput_txn_per_us s]"
    have "list_all2 (\<lambda>a b. \<forall>m. \<exists>r. delta_row m a b = Inr r) (?f f) (?f s)"
      using assms unfolding 3 by (simp add: delta_row_total)
    then show ?thesis unfolding delta_rows_def bindR_eq_Inr by simp metis
  qed
  then show ?thesis unfolding 3 by (auto simp: comparison_lines_def Let_def)
qed (simp_all add: comparison_lines_def)

lemma loaded_outputs:
  assumes "traces \<noteq> []" and "\<forall>rows \<in> set traces. (\<exists>p f. load_trace p f = Inr rows) \<and> length rows < 2 ^ 46"
  shows "\<exists>ss. replay_outputs traces = Inr (concat (map replay_rows traces), ss) \<and>
    length ss = length traces \<and> (\<forall>s \<in> set ss. \<exists>rows \<in> set traces. summary_for_workload (replay_rows rows) = Inr s)"
proof -
  define g where "g rows = projr (summary_for_workload (replay_rows rows))" for rows
  have g: "summary_for_workload (replay_rows rows) = Inr (g rows) \<and> validate_summary_row (g rows) = Inr ()"
    if "rows \<in> set traces" for rows
    using assms(2) that loaded_summary_accepted unfolding g_def by fastforce
  have "mapR replay_and_summarize traces = Inr (map (\<lambda>rows. (replay_rows rows, g rows)) traces)"
    by (rule mapR_Inr_total) (simp add: replay_and_summarize_def g Let_def)
  moreover have "validate_summary_rows (map g traces) = Inr ()"
    using g assms(1) by (simp add: validate_summary_rows_def raise_if_def checkR_eq_Inr)
  ultimately have "replay_outputs traces = Inr (concat (map replay_rows traces), map g traces)"
    by (simp add: replay_outputs_def comp_def)
  then show ?thesis using g by fastforce
qed

text \<open>C11. The whole run: when at least two traces are given, all load, and the output path is not
  one of the protected directories, \<open>main\<close> succeeds and writes the replay of all traces in
  order, then the summaries, then the report.\<close>

theorem main_replay_succeeds:
  assumes "mapR (\<lambda>(p, f). load_trace p f) files = Inr traces" and "2 \<le> length traces"
    and "\<forall>rows \<in> set traces. length rows < 2 ^ 46" and "st \<noteq> Dangerous"
  shows "\<exists>ss lines. main_replay False files out st =
    ((if st = Removable then [RemoveOutputDir] else []) @
      [MakeOutputDir, WriteTraceCsv (concat (map replay_rows traces)), WriteSummaryCsv ss,
       WriteComparison lines], Inr 0) \<and> length ss = length traces"
proof -
  have l: "\<forall>rows \<in> set traces. (\<exists>p f. load_trace p f = Inr rows) \<and> length rows < 2 ^ 46"
    using mapR_mem [OF assms(1)] assms(3) by (fastforce split: prod.splits)
  have "traces \<noteq> []" using assms(2) by auto
  from loaded_outputs [OF this l] obtain ss where
    ss: "replay_outputs traces = Inr (concat (map replay_rows traces), ss)" "length ss = length traces"
      "\<forall>s \<in> set ss. \<exists>rows \<in> set traces. summary_for_workload (replay_rows rows) = Inr s" by blast
  have "\<forall>s \<in> set ss. printed (s_avg_latency_ns s) \<and> printed (s_p99_latency_ns s) \<and>
    printed (s_bank_conflict_ratio_pct s) \<and> printed (s_throughput_txn_per_us s)"
    using ss(3) l loaded_summary_printed by blast
  from loaded_comparison [OF this] obtain lines where "comparison_lines ss = Inr lines" by blast
  then show ?thesis
    using assms ss unfolding main_replay_def by (cases st) (auto simp: remove_output_dir_def)
qed

theorem main_replay_succeeds_witness:
  "\<exists>ss lines rows. snd (main_replay False [(''t'', Some sample_file), (''t'', Some sample_file)] ''o'' Removable) = Inr 0 \<and>
     load_trace ''t'' (Some sample_file) = Inr rows \<and>
     main_replay False [(''t'', Some sample_file), (''t'', Some sample_file)] ''o'' Removable =
       ([RemoveOutputDir, MakeOutputDir, WriteTraceCsv (replay_rows rows @ replay_rows rows),
         WriteSummaryCsv ss, WriteComparison lines], Inr 0)"
proof -
  obtain r1 r2 where l: "load_trace ''t'' (Some sample_file) = Inr [r1, r2]" using sample_loads by blast
  have "mapR (\<lambda>(p, f). load_trace p f) [(''t'', Some sample_file), (''t'', Some sample_file)] = Inr [[r1, r2], [r1, r2]]"
    using l by simp
  from main_replay_succeeds [OF this, of Removable "''o''"] show ?thesis using l by fastforce
qed

text \<open>Nothing is touched unless the inputs are good: if some trace does not load, or the output
  path is protected, the run fails with that error and has no effect on the file system.\<close>

theorem main_replay_no_effect_on_failure:
  assumes "mapR (\<lambda>(p, f). load_trace p f) files = Inl e \<or>
    (st = Dangerous \<and> mapR (\<lambda>(p, f). load_trace p f) files = Inr traces \<and> 2 \<le> length traces \<and>
     e = TraceReplayError (''refusing to remove broad output path: '' @ out))"
  shows "main_replay False files out st = ([], Inl e)"
  using assms by (auto simp: main_replay_def remove_output_dir_def)

theorem main_replay_no_effect_on_failure_witness:
  "main_replay False [(''t'', Some sample_file), (''u'', None)] ''o'' Removable =
     ([], Inl (TraceReplayError ''trace not found: u''))"
proof (rule main_replay_no_effect_on_failure)
  obtain r1 r2 where "load_trace ''t'' (Some sample_file) = Inr [r1, r2]" using sample_loads by blast
  then show "mapR (\<lambda>(p, f). load_trace p f) [(''t'', Some sample_file), (''u'', None)] =
      Inl (TraceReplayError ''trace not found: u'') \<or> (Removable = Dangerous \<and>
      mapR (\<lambda>(p, f). load_trace p f) [(''t'', Some sample_file), (''u'', None)] = Inr [] \<and> 2 \<le> length ([] :: trace_row list list) \<and>
      TraceReplayError ''trace not found: u'' = TraceReplayError (''refusing to remove broad output path: '' @ ''o''))"
    by (simp add: load_trace_def opt_or_raise_def)
qed

end
