(* ===== verification/Gem5_Convert.thy ===== *)
theory Gem5_Convert
  imports Py_Float Csv_Table
begin

text \<open>
  \<open>examples/lt/tools/convert_gem5_se_trace.py\<close>: the markers a gem5 SE run prints, parsed to
  events, filtered, address-normalised and written as a normalised trace.  The input file
  is a parameter: its lines, or \<open>None\<close> when it does not exist.
\<close>

section \<open>Markers\<close>

definition MARKER :: string where
  "MARKER = ''PROJECT_C_MEM''"

definition NORMALIZED_FIELDS :: "string list" where
  "NORMALIZED_FIELDS = [''workload_name'', ''txn_id'', ''timestamp_ns'', ''initiator_id'', ''command'',
     ''address'', ''size_bytes'', ''pc'', ''symbol'', ''source'']"

record marker_event =
  ev_workload :: string
  ev_seq :: int
  ev_command :: string
  ev_address :: int
  ev_size :: int
  ev_pc :: string
  ev_symbol :: string

definition conv_parse_int :: "string \<Rightarrow> string \<Rightarrow> string \<Rightarrow> int result" where
  "conv_parse_int text field ctx =
     opt_or_raise (py_int0 text) (ConvertError (ctx @ '': invalid '' @ field @ '': '' @ text))"

text \<open>The token loop of \<open>parse_marker_line\<close>.\<close>

fun marker_fields :: "int \<Rightarrow> (string \<times> string) list \<Rightarrow> string list \<Rightarrow> (string \<times> string) list result" where
  "marker_fields n fs [] = Inr fs"
| "marker_fields n fs (token # tokens) =
     (if CHR ''='' \<notin> set token
      then Inl (ConvertError (''line '' @ str_int n @ '': malformed marker token: '' @ token))
      else case split_once (CHR ''='') token of (key, value) \<Rightarrow>
        marker_fields n (dict_set fs key value) tokens)"

definition get_or :: "(string \<times> string) list \<Rightarrow> string \<Rightarrow> string \<Rightarrow> string" where
  "get_or d k dflt = (case map_of d k of None \<Rightarrow> dflt | Some v \<Rightarrow> v)"

definition parse_marker_line :: "string \<Rightarrow> int \<Rightarrow> marker_event option result" where
  "parse_marker_line line n =
     (case py_split (py_strip line) of [] \<Rightarrow> Inr None
      | t # tokens \<Rightarrow>
          if t \<noteq> MARKER then Inr None
          else let ctx = ''line '' @ str_int n in
            bindR (marker_fields n [] tokens) (\<lambda>fs.
            bindR (checkR (\<lambda>f. raise_if (map_of fs f = None)
                (ConvertError (ctx @ '': missing marker field '' @ f)))
              [''workload'', ''seq'', ''command'', ''address'', ''size'']) (\<lambda>_.
            bindR (conv_parse_int (get_or fs ''seq'' []) ''seq'' ctx) (\<lambda>seq.
            bindR (conv_parse_int (get_or fs ''address'' []) ''address'' ctx) (\<lambda>addr.
            bindR (conv_parse_int (get_or fs ''size'' []) ''size'' ctx) (\<lambda>size.
            Inr (Some \<lparr>ev_workload = get_or fs ''workload'' [], ev_seq = seq,
              ev_command = py_upper (get_or fs ''command'' []), ev_address = addr, ev_size = size,
              ev_pc = get_or fs ''pc'' ''0x0'',
              ev_symbol = get_or fs ''symbol'' (get_or fs ''workload'' [])\<rparr>)))))))"

text \<open>The line loop: lines are numbered from 1, and lines that are no markers are skipped.\<close>

fun marker_events :: "int \<Rightarrow> string list \<Rightarrow> marker_event list result" where
  "marker_events n [] = Inr []"
| "marker_events n (line # rest) =
     bindR (parse_marker_line line n) (\<lambda>ev. bindR (marker_events (n + 1) rest) (\<lambda>evs.
       Inr (case ev of None \<Rightarrow> evs | Some e \<Rightarrow> e # evs)))"

definition load_marker_events :: "string \<Rightarrow> string list option \<Rightarrow> marker_event list result" where
  "load_marker_events path file =
     bindR (opt_or_raise file (ConvertError (''input not found: '' @ path))) (\<lambda>text_lines.
     bindR (marker_events 1 text_lines) (\<lambda>events.
     bindR (raise_if (events = []) (ConvertError (''no '' @ MARKER @ '' markers found in '' @ path)))
       (\<lambda>_. Inr events)))"

definition sample_events :: "string \<Rightarrow> int \<Rightarrow> int \<Rightarrow> marker_event list result" where
  "sample_events pattern n sz =
     bindR (raise_if (n \<le> 0) (ConvertError ''--sample-count must be positive'')) (\<lambda>_.
     bindR (raise_if (sz \<le> 0) (ConvertError ''--size-bytes must be positive'')) (\<lambda>_.
     bindR (if pattern = ''sequential'' then Inr (''sequential_scan'', sz)
            else if pattern = ''stride'' then Inr (''stride_scan'', 16)
            else Inl (ConvertError (''unsupported sample pattern: '' @ pattern))) (\<lambda>(workload, stride).
     Inr (map (\<lambda>i. \<lparr>ev_workload = workload, ev_seq = int i + 1, ev_command = ''READ'',
         ev_address = int i * stride, ev_size = sz, ev_pc = ''0x0'', ev_symbol = workload\<rparr>)
       [0..<nat n]))))"

section \<open>Normalisation\<close>

definition conv_format_time :: "pyfloat \<Rightarrow> string result" where
  "conv_format_time value =
     (if f_is_integer value then bindR (trunc_to_int value) (\<lambda>n. Inr (str_int n)) else Inr (fmt3 value))"

definition conv_format_hex :: "int \<Rightarrow> string" where
  "conv_format_hex value = format_hex value 8"

text \<open>The options of \<open>normalize_events\<close>; \<open>--address-normalize\<close> is \<open>zero_based\<close> or \<open>none\<close>.\<close>

record conv_args =
  arg_workload_name :: "string option"
  arg_initiator_id :: string
  arg_timestamp_step_ns :: pyfloat
  arg_size_bytes :: int
  arg_command_filter :: string
  arg_zero_based :: bool
  arg_source :: string

record norm_row =
  n_workload_name :: string
  n_txn_id :: string
  n_timestamp_ns :: string
  n_initiator_id :: string
  n_command :: string
  n_address :: string
  n_size_bytes :: string
  n_pc :: string
  n_symbol :: string
  n_source :: string

definition workload_label :: "conv_args \<Rightarrow> marker_event list \<Rightarrow> string" where
  "workload_label args filtered = (case arg_workload_name args of
      None \<Rightarrow> ev_workload (hd filtered)
    | Some w \<Rightarrow> if w = [] then ev_workload (hd filtered) else w)"

definition normalize_event ::
  "conv_args \<Rightarrow> string \<Rightarrow> int \<Rightarrow> nat \<Rightarrow> marker_event \<Rightarrow> norm_row result" where
  "normalize_event args workload base i ev =
     (let addr = (if arg_zero_based args then ev_address ev - base else ev_address ev) in
      bindR (raise_if (addr < 0) (ConvertError ''normalized address became negative'')) (\<lambda>_.
      bindR (float_of_int (int i)) (\<lambda>idx.
      bindR (conv_format_time (f_mul idx (arg_timestamp_step_ns args))) (\<lambda>time.
      Inr \<lparr>n_workload_name = workload, n_txn_id = str_int (int i + 1), n_timestamp_ns = time,
        n_initiator_id = arg_initiator_id args, n_command = py_upper (arg_command_filter args),
        n_address = conv_format_hex addr, n_size_bytes = str_int (arg_size_bytes args),
        n_pc = ev_pc ev, n_symbol = ev_symbol ev, n_source = arg_source args\<rparr>))))"

definition normalize_events :: "marker_event list \<Rightarrow> conv_args \<Rightarrow> norm_row list result" where
  "normalize_events events args =
     (let cmd = py_upper (arg_command_filter args);
          filtered = filter (\<lambda>e. py_upper (ev_command e) = cmd) events;
          bad = filter (\<lambda>e. ev_size e \<noteq> arg_size_bytes args) filtered in
      bindR (raise_if (filtered = []) (ConvertError (''no events matched command filter '' @ cmd))) (\<lambda>_.
      bindR (raise_if (bad \<noteq> []) (ConvertError (''event size mismatch: expected ''
        @ str_int (arg_size_bytes args) @ '', got '' @ str_int (ev_size (hd bad))))) (\<lambda>_.
      let base = Min (set (map ev_address filtered)); workload = workload_label args filtered in
      mapR (\<lambda>(i, ev). normalize_event args workload base i ev) (zip [0..<length filtered] filtered))))"

text \<open>The CSV records that \<open>write_normalized_csv\<close> writes.\<close>

definition norm_cells :: "norm_row \<Rightarrow> string list" where
  "norm_cells r = [n_workload_name r, n_txn_id r, n_timestamp_ns r, n_initiator_id r, n_command r,
     n_address r, n_size_bytes r, n_pc r, n_symbol r, n_source r]"

definition normalized_csv :: "norm_row list \<Rightarrow> string list list" where
  "normalized_csv rows = NORMALIZED_FIELDS # map norm_cells rows"

text \<open>\<open>main\<close>: the input option is a path with the file behind it.\<close>

definition main_convert :: "conv_args \<Rightarrow> string option \<Rightarrow> int \<Rightarrow> (string \<times> string list option) option
    \<Rightarrow> string list list result" where
  "main_convert args pattern n_samples input =
     (case pattern of
        Some p \<Rightarrow>
          bindR (raise_if (input \<noteq> None) (ConvertError ''--input cannot be used with --sample-pattern'')) (\<lambda>_.
          bindR (sample_events p n_samples (arg_size_bytes args)) (\<lambda>events.
          bindR (normalize_events events (args\<lparr>arg_source := ''sample_expected_format_not_real_gem5''\<rparr>)) (\<lambda>rows.
          Inr (normalized_csv rows))))
      | None \<Rightarrow>
          bindR (opt_or_raise input (ConvertError ''--input is required unless --sample-pattern is used'')) (\<lambda>(path, file).
          bindR (load_marker_events path file) (\<lambda>events.
          bindR (normalize_events events args) (\<lambda>rows. Inr (normalized_csv rows)))))"

section \<open>What the converter guarantees\<close>

definition selected :: "conv_args \<Rightarrow> marker_event list \<Rightarrow> marker_event list" where
  "selected args events = filter (\<lambda>e. py_upper (ev_command e) = py_upper (arg_command_filter args)) events"

text \<open>The inversion of a successful normalisation.\<close>

lemma normalize_events_Inr:
  assumes "normalize_events events args = Inr rows"
  defines "sel \<equiv> selected args events"
  shows "sel \<noteq> []" and "\<forall>e \<in> set sel. ev_size e = arg_size_bytes args" and "length rows = length sel"
    and "i < length sel \<Longrightarrow> normalize_event args (workload_label args sel) (Min (set (map ev_address sel))) i (sel ! i)
      = Inr (rows ! i)"
proof -
  from assms(1) have m: "mapR (\<lambda>(i, ev). normalize_event args (workload_label args sel)
        (Min (set (map ev_address sel))) i ev) (zip [0..<length sel] sel) = Inr rows"
    and g: "sel \<noteq> []" "filter (\<lambda>e. ev_size e \<noteq> arg_size_bytes args) sel = []"
    unfolding normalize_events_def Let_def sel_def selected_def by (auto simp: result_simps simp del: set_map)
  show "sel \<noteq> []" by (fact g)
  show "\<forall>e \<in> set sel. ev_size e = arg_size_bytes args" using g(2) by (auto simp: filter_empty_conv)
  show l: "length rows = length sel" using mapR_length [OF m] by simp
  show "i < length sel \<Longrightarrow> normalize_event args (workload_label args sel) (Min (set (map ev_address sel))) i (sel ! i)
      = Inr (rows ! i)"
    using m l by (auto simp: mapR_eq_Inr list_all2_conv_all_nth simp del: set_map)
qed

definition norm_address :: "conv_args \<Rightarrow> marker_event list \<Rightarrow> nat \<Rightarrow> int" where
  "norm_address args sel i = ev_address (sel ! i) -
     (if arg_zero_based args then Min (set (map ev_address sel)) else 0)"

lemma normalize_event_Inr:
  assumes "normalize_event args w (Min (set (map ev_address sel))) i (sel ! i) = Inr r"
  shows "0 \<le> norm_address args sel i" and "n_address r = format_hex (norm_address args sel i) 8"
    and "n_workload_name r = w" and "n_txn_id r = str_int (int i + 1)"
    and "n_initiator_id r = arg_initiator_id args" and "n_command r = py_upper (arg_command_filter args)"
    and "n_size_bytes r = str_int (arg_size_bytes args)"
    and "\<exists>idx. float_of_int (int i) = Inr idx \<and>
      conv_format_time (f_mul idx (arg_timestamp_step_ns args)) = Inr (n_timestamp_ns r)"
  using assms by (auto simp: normalize_event_def norm_address_def Let_def conv_format_hex_def result_simps)

text \<open>Times, printed as an integer or with three digits, read back as a value that is not negative.\<close>

lemma parse_conv_time:
  assumes "wf_float x" and "f_le f_zero x" and "conv_format_time x = Inr t"
  shows "\<exists>y. parse_float t = Some y \<and> f_le f_zero y"
proof (cases "f_is_integer x")
  case False
  have "f_le (reparse f_zero) (reparse x)"
    using reparse_mono [OF _ assms(1,2)] by (simp add: f_zero_def bound_pos)
  moreover have "f_le f_zero (reparse f_zero)"
    using reparse_rounds [of 0 False 0] unfolding f_zero_def by (metis f_zero_def order_refl rounds_nonneg)
  ultimately have "f_le f_zero (reparse x)" using f_le_trans by blast
  then show ?thesis using False assms parse_fmt3 [OF assms(1)] by (auto simp: conv_format_time_def)
next
  case True
  then obtain s m e where x: "x = Fin s m e" by (cases x) auto
  obtain n d where f: "frac_of 2 m e = (n, d)" by fastforce
  have nd: "0 < d" "(of_int n :: rat) / of_int d = mag m e" using frac_of_mag [OF f] by auto
  have m: "0 \<le> m" using assms(1) x by simp
  have nonneg: "0 \<le> (if s then - m else m)"
    using assms(2) m x mag_pos [of m e] by (cases "m = 0") (auto simp: f_cmp f_zero_def)
  obtain n' d' where f': "frac_of 2 (if s then - m else m) e = (n', d')" by fastforce
  have "0 \<le> n'" using frac_of_nonneg [OF f' nonneg] by simp
  moreover have "0 < d'" using frac_of_mag [OF f'] by simp
  ultimately have "trunc_to_int x = Inr (n' div d')" "0 \<le> n' div d'"
    using f' x by (simp_all add: trunc_to_int_def pos_imp_zdiv_nonneg_iff)
  then have t: "t = dec_digits (n' div d')" "0 \<le> n' div d'"
    using True assms(3) by (auto simp: conv_format_time_def str_int_def)
  then show ?thesis using parse_dec_digits mk_float_rounds [of "n' div d'" 1 False] rounds_nonneg by auto
qed

text \<open>The same for a step that is NaN or infinite: the times print as nan and inf, which read back.\<close>

lemma not_below_zero: "x \<noteq> FNan \<Longrightarrow> \<not> f_lt x f_zero \<Longrightarrow> f_le f_zero x"
  by (cases x) (auto simp: f_cmp f_zero_def split: if_splits)

lemma not_below_zeroI: "f_le f_zero x \<Longrightarrow> \<not> f_lt x f_zero"
  by (auto simp: f_cmp)

lemma parse_conv_time_any:
  assumes "wf_float x" and "\<not> f_lt x f_zero" and "conv_format_time x = Inr t"
  shows "\<exists>y. parse_float t = Some y \<and> \<not> f_lt y f_zero"
proof (cases "x = FNan")
  case True
  then have "t = fmt3 FNan" using assms(3) by (simp add: conv_format_time_def)
  then have "parse_float t = Some FNan" using parse_fmt3 [of FNan] by simp
  then show ?thesis by (auto simp: f_lt_def)
next
  case False
  then have "f_le f_zero x" using assms(2) by (rule not_below_zero)
  then obtain y where "parse_float t = Some y" "f_le f_zero y" using parse_conv_time assms(1,3) by blast
  then show ?thesis using not_below_zeroI by blast
qed

end
