(* ===== verification/K_Workloads.thy ===== *)
theory K_Workloads
  imports Py_Float Csv_Table
begin

text \<open>
  \<open>examples/lt/tools/demo_project_k_workload_bottleneck_lab.py\<close>, first part: the synthetic
  access patterns of Project K (\<open>regular_requests\<close>, the tiled and the blocked pattern,
  \<open>workload_specs\<close>) and the trace files written for them.
\<close>

section \<open>Constants\<close>

definition CORE_WORKLOADS :: "string list" where
  "CORE_WORKLOADS = [''streaming'', ''stride'', ''hot_bank'']"

definition OPTIONAL_SYNTHETIC_PATTERNS :: "string list" where
  "OPTIONAL_SYNTHETIC_PATTERNS = [''tiled_gemm_like'', ''attention_like_blocked'']"

definition ALL_WORKLOADS :: "string list" where
  "ALL_WORKLOADS = CORE_WORKLOADS @ OPTIONAL_SYNTHETIC_PATTERNS"

definition DEFAULT_INTERLEAVE_BYTES :: int where
  "DEFAULT_INTERLEAVE_BYTES = 4"

definition DEFAULT_ROW_SIZE_BYTES :: int where
  "DEFAULT_ROW_SIZE_BYTES = 64"

definition FEATURE_BANK_COUNT :: int where
  "FEATURE_BANK_COUNT = 4"

section \<open>Requests\<close>

definition k_format_hex :: "int \<Rightarrow> string" where
  "k_format_hex value = format_hex value 8"

record request =
  rq_phase :: string
  rq_timestamp_ns :: pyfloat
  rq_address :: int
  rq_command :: string
  rq_size_bytes :: int

definition request_row :: "string \<Rightarrow> pyfloat \<Rightarrow> int \<Rightarrow> string \<Rightarrow> request" where
  "request_row phase timestamp addr cmd =
     \<lparr>rq_phase = phase, rq_timestamp_ns = timestamp, rq_address = addr, rq_command = cmd,
      rq_size_bytes = 4\<rparr>"

text \<open>\<open>index * c\<close> for an integer and a float: the integer is converted first.\<close>

definition int_times :: "int \<Rightarrow> pyfloat \<Rightarrow> pyfloat result" where
  "int_times n x = bindR (float_of_int n) (\<lambda>f. Inr (f_mul f x))"

definition hot_bank_timestamp :: "int \<Rightarrow> pyfloat result" where
  "hot_bank_timestamp index =
     (let burst = index div 8; offset = index mod 8 in
      bindR (int_times burst (flit 96 1)) (\<lambda>a. bindR (int_times offset (flit 2 1)) (\<lambda>b.
      Inr (f_add a b))))"

definition command_for_index :: "int \<Rightarrow> int \<Rightarrow> string" where
  "command_for_index index write_every =
     (if 0 < write_every \<and> index mod write_every = write_every - 1 then ''WRITE'' else ''READ'')"

definition regular_requests ::
  "nat \<Rightarrow> (int \<Rightarrow> pyfloat result) \<Rightarrow> (int \<Rightarrow> int) \<Rightarrow> (int \<Rightarrow> string) \<Rightarrow> string \<Rightarrow> request list result" where
  "regular_requests n timestamp_fn address_fn command_fn phase =
     mapR (\<lambda>i. bindR (timestamp_fn (int i)) (\<lambda>t.
       Inr (request_row phase t (address_fn (int i)) (command_fn (int i))))) [0..<n]"

text \<open>
  The loops of the two tiled patterns append a request and then advance the clock by a
  step: a pass over its addresses and steps, with the clock as the state.
\<close>

fun timed_pass :: "string \<Rightarrow> string \<Rightarrow> pyfloat \<Rightarrow> (int \<times> pyfloat) list \<Rightarrow> request list \<times> pyfloat" where
  "timed_pass phase cmd t [] = ([], t)"
| "timed_pass phase cmd t ((addr, step) # rest) =
     (case timed_pass phase cmd (f_add t step) rest of
        (rs, t') \<Rightarrow> (request_row phase t addr cmd # rs, t'))"

definition tiled_gemm_like_requests :: "request list" where
  "tiled_gemm_like_requests =
     (let step = flit 6 1; tile_m = 4; tile_n = 4; tile_k = 4 :: int;
          a_base = 0x00100000; b_base = 0x00200000; c_base = 0x00300000;
          (a, t1) = timed_pass ''a_tile_read'' ''READ'' f_zero
            (map (\<lambda>i. let row = int i div tile_k; col = int i mod tile_k
                      in (a_base + (row * tile_k + col) * 4, step)) [0..<nat (tile_m * tile_k)]);
          (b, t2) = timed_pass ''b_tile_read'' ''READ'' t1
            (map (\<lambda>i. let row = int i div tile_n; col = int i mod tile_n
                      in (b_base + col * DEFAULT_ROW_SIZE_BYTES + row * 4, step)) [0..<nat (tile_k * tile_n)]);
          (c, t3) = timed_pass ''c_tile_read'' ''READ'' t2 (map (\<lambda>i. (c_base + int i * 4, step)) [0..<8]);
          (d, t4) = timed_pass ''c_tile_write'' ''WRITE'' t3 (map (\<lambda>i. (c_base + int i * 4, step)) [0..<8])
      in a @ b @ c @ d)"

text \<open>A block that is read three times, the later rounds in bursts of 2 ns.\<close>

definition repeated_block :: "int \<Rightarrow> pyfloat \<Rightarrow> (int \<times> pyfloat) list" where
  "repeated_block base step =
     concat (map (\<lambda>rep. map (\<lambda>i. (base + int i * 4, if rep = 0 then step else flit 2 1)) [0..<8]) [0..<3])"

definition attention_like_blocked_requests :: "request list" where
  "attention_like_blocked_requests =
     (let step = flit 5 1;
          q_base = 0x00400000; k_base = 0x00500000; v_base = 0x00600000; out_base = 0x00700000;
          (q, t1) = timed_pass ''q_block_read'' ''READ'' f_zero (map (\<lambda>i. (q_base + int i * 4, step)) [0..<8]);
          (k, t2) = timed_pass ''k_block_repeated_read'' ''READ'' t1 (repeated_block k_base step);
          (v, t3) = timed_pass ''v_block_repeated_read'' ''READ'' t2 (repeated_block v_base step);
          (w, t4) = timed_pass ''output_write'' ''WRITE'' t3 (map (\<lambda>i. (out_base + int i * 4, step)) [0..<8])
      in q @ k @ v @ w)"

record workload_spec =
  ws_workload :: string
  ws_pattern_class :: string
  ws_metadata :: string
  ws_requests :: "request list"

definition spec_list :: "request list \<Rightarrow> request list \<Rightarrow> request list \<Rightarrow> workload_spec list" where
  "spec_list streaming stride hot =
         [\<lparr>ws_workload = ''streaming'', ws_pattern_class = ''core_baseline'',
            ws_metadata = ''consecutive addresses, smooth issue gap'', ws_requests = streaming\<rparr>,
          \<lparr>ws_workload = ''stride'', ws_pattern_class = ''core_stressor'',
            ws_metadata = ''fixed stride addresses'', ws_requests = stride\<rparr>,
          \<lparr>ws_workload = ''hot_bank'', ws_pattern_class = ''core_stressor'',
            ws_metadata = ''modeled hot-bank concentration with bursty issue'', ws_requests = hot\<rparr>,
          \<lparr>ws_workload = ''tiled_gemm_like'', ws_pattern_class = ''optional_synthetic_pattern'',
            ws_metadata = ''synthetic tile_m=4 tile_n=4 tile_k=4 access-pattern-inspired trace; no GEMM compute or FLOPS model'',
            ws_requests = tiled_gemm_like_requests\<rparr>,
          \<lparr>ws_workload = ''attention_like_blocked'', ws_pattern_class = ''optional_synthetic_pattern'',
            ws_metadata = ''synthetic Q/K/V blocked access-pattern-inspired trace; no attention compute, softmax, FlashAttention, or LLM model'',
            ws_requests = attention_like_blocked_requests\<rparr>]"

definition workload_specs :: "workload_spec list result" where
  "workload_specs =
     bindR (regular_requests 96 (\<lambda>i. int_times i (flit 80 1)) (\<lambda>i. i * 4)
       (\<lambda>i. command_for_index i 32) ''streaming_read'') (\<lambda>streaming.
     bindR (regular_requests 96 (\<lambda>i. int_times i (flit 16 1)) (\<lambda>i. i * 8)
       (\<lambda>i. command_for_index i 24) ''stride_read'') (\<lambda>stride.
     bindR (regular_requests 96 hot_bank_timestamp (\<lambda>i. i * 64)
       (\<lambda>i. command_for_index i 8) ''hot_bank_burst'') (\<lambda>hot.
     Inr (spec_list streaming stride hot))))"

text \<open>The CSV records of \<open>write_workload_trace\<close>.\<close>

definition trace_header :: "string list" where
  "trace_header = [''workload_name'', ''txn_id'', ''timestamp_ns'', ''initiator_id'', ''command'',
     ''address'', ''size_bytes'']"

definition trace_record :: "string \<Rightarrow> nat \<Rightarrow> request \<Rightarrow> string list" where
  "trace_record w i r = [w, str_nat (i + 1), fmt3 (rq_timestamp_ns r), ''101'', rq_command r,
     k_format_hex (rq_address r), str_int (rq_size_bytes r)]"

definition workload_trace :: "workload_spec \<Rightarrow> string list list" where
  "workload_trace spec = trace_header #
     map (\<lambda>(i, r). trace_record (ws_workload spec) i r)
       (zip [0..<length (ws_requests spec)] (ws_requests spec))"

definition generate_workload_traces :: "(string \<times> string list list) list result" where
  "generate_workload_traces =
     bindR workload_specs (\<lambda>specs. Inr (map (\<lambda>s. (ws_workload s, workload_trace s)) specs))"

section \<open>Issue times are exact integers\<close>

lemma int_times_val:
  assumes "0 \<le> n" and "n < 2 ^ 53" and "is_int_val x k" and "\<bar>n * k\<bar> < 2 ^ 53"
  shows "\<exists>y. int_times n x = Inr y \<and> is_int_val y (n * k)"
  using float_of_int_val [OF assms(1,2)] f_mul_ints [OF _ assms(3,4)] by (auto simp: int_times_def)

lemma div_le_dividend_int: "0 \<le> (i::int) \<Longrightarrow> i div 8 \<le> i"
  by presburger

lemma hot_bank_timestamp_val:
  assumes "0 \<le> i" and "i < 2 ^ 32"
  shows "\<exists>y. hot_bank_timestamp i = Inr y \<and> is_int_val y (96 * (i div 8) + 2 * (i mod 8))"
proof -
  have b: "0 \<le> i div 8" "i div 8 \<le> i" "0 \<le> i mod 8" "i mod 8 < 8"
    using assms by (simp_all add: pos_imp_zdiv_nonneg_iff div_le_dividend_int)
  obtain x where x: "int_times (i div 8) (flit 96 1) = Inr x" "is_int_val x (i div 8 * 96)"
    using int_times_val [OF b(1) _ flit_val [of 96]] b assms by auto
  obtain y where y: "int_times (i mod 8) (flit 2 1) = Inr y" "is_int_val y (i mod 8 * 2)"
    using int_times_val [OF b(3) _ flit_val [of 2]] b by auto
  have "is_int_val (f_add x y) (i div 8 * 96 + i mod 8 * 2)"
    using f_add_ints [OF x(2) y(2)] b assms by simp
  then show ?thesis using x(1) y(1) by (simp add: hot_bank_timestamp_def Let_def mult.commute)
qed

text \<open>\<open>issued rs ks\<close>: the requests are issued at the integer times \<open>ks\<close>.\<close>

definition issued :: "request list \<Rightarrow> int list \<Rightarrow> bool" where
  "issued rs ks \<longleftrightarrow> list_all2 (\<lambda>r k. is_int_val (rq_timestamp_ns r) k) rs ks"

lemma issued_append: "issued rs ks \<Longrightarrow> issued rs' ks' \<Longrightarrow> issued (rs @ rs') (ks @ ks')"
  unfolding issued_def by (rule list_all2_appendI)

lemma regular_requests_issued:
  assumes "\<And>i. i < n \<Longrightarrow> \<exists>t. timestamp_fn (int i) = Inr t \<and> is_int_val t (at_ns i)"
  shows "\<exists>rs. regular_requests n timestamp_fn address_fn command_fn phase = Inr rs \<and>
    issued rs (map at_ns [0..<n]) \<and> map rq_address rs = map (\<lambda>i. address_fn (int i)) [0..<n] \<and>
    map rq_command rs = map (\<lambda>i. command_fn (int i)) [0..<n] \<and> map rq_size_bytes rs = replicate n 4"
proof -
  define t where "t i = projr (timestamp_fn (int i))" for i
  have t: "timestamp_fn (int i) = Inr (t i) \<and> is_int_val (t i) (at_ns i)" if "i < n" for i
    using assms [OF that] unfolding t_def by auto
  let ?rs = "map (\<lambda>i. request_row phase (t i) (address_fn (int i)) (command_fn (int i))) [0..<n]"
  have "regular_requests n timestamp_fn address_fn command_fn phase = Inr ?rs"
    unfolding regular_requests_def by (rule mapR_Inr_total) (simp add: t)
  moreover have "issued ?rs (map at_ns [0..<n])"
    by (simp add: issued_def list_all2_conv_all_nth request_row_def t)
  ultimately show ?thesis by (auto simp: request_row_def comp_def map_replicate_const)
qed

fun clock_times :: "int \<Rightarrow> int list \<Rightarrow> int list" where
  "clock_times t [] = []"
| "clock_times t (k # ks) = t # clock_times (t + k) ks"

lemma timed_pass_issued:
  assumes "timed_pass phase cmd t ps = (rs, t')" and "is_int_val t T"
    and "list_all2 (\<lambda>p k. is_int_val (snd p) k) ps ks" and "\<forall>k \<in> set ks. 0 \<le> k" and "0 \<le> T"
    and "T + sum_list ks < 2 ^ 53"
  shows "issued rs (clock_times T ks) \<and> is_int_val t' (T + sum_list ks) \<and> map rq_address rs = map fst ps \<and>
    map rq_command rs = replicate (length ps) cmd \<and> map rq_size_bytes rs = replicate (length ps) 4"
  using assms
proof (induction ps arbitrary: t T ks rs)
  case Nil
  then show ?case by (simp add: issued_def)
next
  case (Cons p ps)
  obtain addr step where p: "p = (addr, step)" by fastforce
  obtain k js where k: "ks = k # js" "is_int_val step k" "list_all2 (\<lambda>p k. is_int_val (snd p) k) ps js"
    using Cons.prems(3) p by (auto simp: list_all2_Cons1)
  obtain qs where q: "timed_pass phase cmd (f_add t step) ps = (qs, t')" "rs = request_row phase t addr cmd # qs"
    using Cons.prems(1) p by (auto split: prod.splits)
  have s: "0 \<le> sum_list js" using Cons.prems(4) k(1) by (intro sum_list_nonneg) auto
  then have "is_int_val (f_add t step) (T + k)"
    using f_add_ints [OF Cons.prems(2) k(2)] Cons.prems k(1) by simp
  from Cons.IH [OF q(1) this k(3)] show ?case
    using Cons.prems k(1) q(2) p by (simp add: issued_def request_row_def add.assoc)
qed

text \<open>What every synthetic pattern satisfies: strictly increasing issue times, word-aligned 4-byte accesses.\<close>

definition well_formed_pattern :: "request list \<Rightarrow> bool" where
  "well_formed_pattern rs \<longleftrightarrow> (\<exists>ks. issued rs ks \<and> sorted_wrt (<) ks \<and> (\<forall>k \<in> set ks. 0 \<le> k)) \<and>
     (\<forall>r \<in> set rs. 0 \<le> rq_address r \<and> rq_address r < 2 ^ 28 \<and> rq_address r mod 4 = 0 \<and>
        rq_size_bytes r = 4 \<and> rq_command r \<in> {''READ'', ''WRITE''})"

text \<open>A pattern request by request: the issue times, the addresses and the commands.\<close>

type_synonym pattern_table = "int list \<times> int list \<times> string list"

definition matches :: "request list \<Rightarrow> pattern_table \<Rightarrow> bool" where
  "matches rs = (\<lambda>(times, addrs, cmds). issued rs times \<and> map rq_address rs = addrs \<and> map rq_command rs = cmds \<and>
     map rq_size_bytes rs = replicate (length rs) 4)"

text \<open>The tables of the five workloads, in closed form.\<close>

definition writes_at :: "nat \<Rightarrow> string list" where
  "writes_at n = map (\<lambda>i. if i mod n = n - 1 then ''WRITE'' else ''READ'') [0..<96]"

definition block_thrice :: "int \<Rightarrow> int list" where
  "block_thrice base = concat (replicate 3 (map (\<lambda>i. base + int i * 4) [0..<8]))"

definition expected_patterns :: "pattern_table list" where
  "expected_patterns =
    [(map (\<lambda>i. int i * 80) [0..<96], map (\<lambda>i. int i * 4) [0..<96], writes_at 32),
     (map (\<lambda>i. int i * 16) [0..<96], map (\<lambda>i. int i * 8) [0..<96], writes_at 24),
     (map (\<lambda>i. 96 * (int i div 8) + 2 * (int i mod 8)) [0..<96], map (\<lambda>i. int i * 64) [0..<96], writes_at 8),
     (map (\<lambda>i. int i * 6) [0..<48],
      map (\<lambda>i. 0x00100000 + int i * 4) [0..<16] @ map (\<lambda>i. 0x00200000 + int i mod 4 * 64 + int i div 4 * 4) [0..<16]
        @ map (\<lambda>i. 0x00300000 + int i * 4) [0..<8] @ map (\<lambda>i. 0x00300000 + int i * 4) [0..<8],
      replicate 40 ''READ'' @ replicate 8 ''WRITE''),
     (map (\<lambda>i. int i * 5) [0..<16] @ map (\<lambda>i. 80 + int i * 2) [0..<16] @ map (\<lambda>i. 112 + int i * 5) [0..<8]
        @ map (\<lambda>i. 152 + int i * 2) [0..<16] @ map (\<lambda>i. 184 + int i * 5) [0..<8],
      map (\<lambda>i. 0x00400000 + int i * 4) [0..<8] @ block_thrice 0x00500000 @ block_thrice 0x00600000
        @ map (\<lambda>i. 0x00700000 + int i * 4) [0..<8],
      replicate 56 ''READ'' @ replicate 8 ''WRITE'')]"

definition good_table :: "pattern_table \<Rightarrow> bool" where
  "good_table = (\<lambda>(times, addrs, cmds). successively (<) times \<and> list_all (\<lambda>k. 0 \<le> k) times \<and>
     list_all (\<lambda>a. 0 \<le> a \<and> a < 268435456 \<and> a mod 4 = 0) addrs \<and> list_all (\<lambda>c. c = ''READ'' \<or> c = ''WRITE'') cmds)"

lemma expected_patterns_good: "list_all good_table expected_patterns"
  by code_simp

lemma matches_well_formed: "matches rs tab \<Longrightarrow> good_table tab \<Longrightarrow> well_formed_pattern rs"
proof (cases tab)
  case (fields times addrs cmds)
  assume m: "matches rs tab" and g: "good_table tab"
  have a: "issued rs times" "map rq_address rs = addrs" "map rq_command rs = cmds"
    "map rq_size_bytes rs = replicate (length rs) 4"
    using m fields by (simp_all add: matches_def)
  have "sorted_wrt (<) times" "\<forall>k \<in> set times. 0 \<le> k"
    using g fields by (simp_all add: good_table_def list_all_iff successively_conv_sorted_wrt)
  moreover have "\<forall>a \<in> set (map rq_address rs). 0 \<le> a \<and> a < 268435456 \<and> a mod 4 = 0"
    "\<forall>c \<in> set (map rq_command rs). c = ''READ'' \<or> c = ''WRITE''"
    using g fields unfolding a by (simp_all add: good_table_def list_all_iff)
  moreover have "\<forall>z \<in> set (map rq_size_bytes rs). z = 4" unfolding a(4) by simp
  ultimately show ?thesis using a(1) unfolding well_formed_pattern_def by auto
qed

lemma regular_matches:
  assumes "\<And>i. i < n \<Longrightarrow> \<exists>t. timestamp_fn (int i) = Inr t \<and> is_int_val t (at_ns i)"
  shows "\<exists>rs. regular_requests n timestamp_fn address_fn (\<lambda>i. command_for_index i w) phase = Inr rs \<and>
    matches rs (map at_ns [0..<n], map (\<lambda>i. address_fn (int i)) [0..<n], map (\<lambda>i. command_for_index (int i) w) [0..<n])"
proof -
  obtain rs where r: "regular_requests n timestamp_fn address_fn (\<lambda>i. command_for_index i w) phase = Inr rs"
    "issued rs (map at_ns [0..<n])" "map rq_address rs = map (\<lambda>i. address_fn (int i)) [0..<n]"
    "map rq_command rs = map (\<lambda>i. command_for_index (int i) w) [0..<n]" "map rq_size_bytes rs = replicate n 4"
    using regular_requests_issued [of n timestamp_fn at_ns address_fn "\<lambda>i. command_for_index i w" phase, OF assms(1)]
    by auto
  have "length rs = n" using r(3) by (metis length_map length_upt minus_nat.diff_0)
  then show ?thesis using r by (auto simp: matches_def)
qed

section \<open>The five patterns\<close>

lemma step_list: "list_all2 (\<lambda>p k. is_int_val (snd p) k) (map (\<lambda>i. (f i, s)) xs) (replicate (length xs) k)"
  if "is_int_val s k"
  using that by (simp add: list_all2_conv_all_nth)

text \<open>One pass of a loop with a fixed step, and the runs of several passes in sequence.\<close>

lemma timed_pass_simple:
  assumes "timed_pass phase cmd t (map (\<lambda>i. (f i, s)) xs) = (rs, t')" and "is_int_val t T" and "is_int_val s k"
    and "0 \<le> k" and "0 \<le> T" and "T + int (length xs) * k < 2 ^ 53"
  shows "matches rs (clock_times T (replicate (length xs) k), map f xs, replicate (length xs) cmd)"
    and "is_int_val t' (T + int (length xs) * k)"
proof -
  note p = timed_pass_issued [OF assms(1,2) step_list [OF assms(3)]]
  have c: "issued rs (clock_times T (replicate (length xs) k))" "map rq_address rs = map f xs"
    "map rq_command rs = replicate (length xs) cmd" "map rq_size_bytes rs = replicate (length xs) 4"
    using p assms(4-6) by (simp_all add: sum_list_replicate comp_def)
  have "length rs = length xs" using c(2) by (metis length_map)
  then show "matches rs (clock_times T (replicate (length xs) k), map f xs, replicate (length xs) cmd)"
    using c by (simp add: matches_def)
  show "is_int_val t' (T + int (length xs) * k)"
    using p assms(4-6) by (simp add: sum_list_replicate)
qed

lemma matches_append:
  "matches rs (ks, as, cs) \<Longrightarrow> matches rs' (ks', as', cs') \<Longrightarrow> matches (rs @ rs') (ks @ ks', as @ as', cs @ cs')"
  by (simp add: matches_def issued_append replicate_add)

lemma tiled_matches: "matches tiled_gemm_like_requests (expected_patterns ! 3)"
proof -
  let ?A = "\<lambda>i. 0x00100000 + (int i div 4 * 4 + int i mod 4) * 4 :: int"
  let ?B = "\<lambda>i. 0x00200000 + int i mod 4 * 64 + int i div 4 * 4 :: int"
  let ?C = "\<lambda>i. 0x00300000 + int i * 4 :: int"
  let ?s = "flit 6 1"
  obtain a t1 where a: "timed_pass ''a_tile_read'' ''READ'' f_zero (map (\<lambda>i. (?A i, ?s)) [0..<16]) = (a, t1)" by fastforce
  obtain b t2 where b: "timed_pass ''b_tile_read'' ''READ'' t1 (map (\<lambda>i. (?B i, ?s)) [0..<16]) = (b, t2)" by fastforce
  obtain c t3 where c: "timed_pass ''c_tile_read'' ''READ'' t2 (map (\<lambda>i. (?C i, ?s)) [0..<8]) = (c, t3)" by fastforce
  obtain d t4 where d: "timed_pass ''c_tile_write'' ''WRITE'' t3 (map (\<lambda>i. (?C i, ?s)) [0..<8]) = (d, t4)" by fastforce
  have s: "is_int_val ?s 6" using flit_val [of 6] by simp
  have l: "length [0..<16] = 16" "length [0..<8] = 8" by simp_all
  have n: "(0::int) \<le> 6" "0 + int 16 * 6 = 96" "96 + int 16 * 6 = 192" "192 + int 8 * 6 = 240" by simp_all
  note pa = timed_pass_simple [OF a is_int_val_zero s n(1), unfolded l n]
  have t1: "is_int_val t1 96" by (rule pa(2)) simp_all
  note pb = timed_pass_simple [OF b t1 s n(1), unfolded l n]
  have t2: "is_int_val t2 192" by (rule pb(2)) simp_all
  note pc = timed_pass_simple [OF c t2 s n(1), unfolded l n]
  have t3: "is_int_val t3 240" by (rule pc(2)) simp_all
  note pd = timed_pass_simple [OF d t3 s n(1), unfolded l n]
  let ?tab = "(clock_times 0 (replicate 16 6) @ clock_times 96 (replicate 16 6) @
      clock_times 192 (replicate 8 6) @ clock_times 240 (replicate 8 6),
    map ?A [0..<16] @ map ?B [0..<16] @ map ?C [0..<8] @ map ?C [0..<8],
    replicate 16 ''READ'' @ replicate 16 ''READ'' @ replicate 8 ''READ'' @ replicate 8 ''WRITE'')"
  have eq: "tiled_gemm_like_requests = a @ b @ c @ d"
    unfolding tiled_gemm_like_requests_def Let_def DEFAULT_ROW_SIZE_BYTES_def using a b c d by (simp del: upt_Suc)
  have tab: "expected_patterns ! 3 = ?tab" by code_simp
  show ?thesis unfolding eq tab by (intro matches_append pa(1) pb(1) pc(1) pd(1)) simp_all
qed

lemma repeated_block_steps:
  assumes "is_int_val s 5"
  shows "list_all2 (\<lambda>p k. is_int_val (snd p) k) (repeated_block base s) (replicate 8 5 @ replicate 16 2)"
proof -
  have t: "is_int_val (flit 2 1) 2" using flit_val [of 2] by simp
  show ?thesis unfolding repeated_block_def
    by (simp add: upt_rec numeral_eq_Suc assms t)
qed

lemma repeated_block_addresses: "map fst (repeated_block base s) = block_thrice base"
  unfolding repeated_block_def block_thrice_def by (simp add: upt_rec numeral_eq_Suc)

lemma timed_pass_block:
  assumes "timed_pass phase cmd t (repeated_block base s) = (rs, t')" and "is_int_val t T"
    and "is_int_val s 5" and "0 \<le> T" and "T + 72 < 2 ^ 53"
  shows "matches rs (clock_times T (replicate 8 5 @ replicate 16 2), block_thrice base, replicate 24 cmd)"
    and "is_int_val t' (T + 72)"
proof -
  have s: "sum_list (replicate 8 (5::int) @ replicate 16 2) = 72" "\<forall>k \<in> set (replicate 8 (5::int) @ replicate 16 2). 0 \<le> k"
    by (simp_all add: sum_list_replicate)
  have b: "T + sum_list (replicate 8 (5::int) @ replicate 16 2) < 2 ^ 53" using s(1) assms(5) by simp
  note p = timed_pass_issued [OF assms(1,2) repeated_block_steps [OF assms(3)] s(2) assms(4) b,
      unfolded s(1) repeated_block_addresses]
  have l: "length (repeated_block base s) = 24"
    using list_all2_lengthD [OF repeated_block_steps [OF assms(3), of base]] by simp
  have "length rs = 24" using p l by (metis length_map length_replicate)
  then show "matches rs (clock_times T (replicate 8 5 @ replicate 16 2), block_thrice base, replicate 24 cmd)"
    using p l by (simp add: matches_def)
  show "is_int_val t' (T + 72)" using p by blast
qed

lemma attention_matches: "matches attention_like_blocked_requests (expected_patterns ! 4)"
proof -
  let ?Q = "\<lambda>i. 0x00400000 + int i * 4 :: int" and ?W = "\<lambda>i. 0x00700000 + int i * 4 :: int"
  let ?s = "flit 5 1"
  obtain q t1 where q: "timed_pass ''q_block_read'' ''READ'' f_zero (map (\<lambda>i. (?Q i, ?s)) [0..<8]) = (q, t1)" by fastforce
  obtain k t2 where k: "timed_pass ''k_block_repeated_read'' ''READ'' t1 (repeated_block 0x00500000 ?s) = (k, t2)" by fastforce
  obtain v t3 where v: "timed_pass ''v_block_repeated_read'' ''READ'' t2 (repeated_block 0x00600000 ?s) = (v, t3)" by fastforce
  obtain w t4 where w: "timed_pass ''output_write'' ''WRITE'' t3 (map (\<lambda>i. (?W i, ?s)) [0..<8]) = (w, t4)" by fastforce
  have s: "is_int_val ?s 5" using flit_val [of 5] by simp
  have l: "length [0..<8] = 8" by simp
  have n: "(0::int) \<le> 5" "0 + int 8 * 5 = 40" "(40::int) + 72 = 112" "(112::int) + 72 = 184" by simp_all
  note pq = timed_pass_simple [OF q is_int_val_zero s n(1), unfolded l n]
  have t1: "is_int_val t1 40" by (rule pq(2)) simp_all
  note pk = timed_pass_block [OF k t1 s, unfolded n]
  have t2: "is_int_val t2 112" by (rule pk(2)) simp_all
  note pv = timed_pass_block [OF v t2 s, unfolded n]
  have t3: "is_int_val t3 184" by (rule pv(2)) simp_all
  note pw = timed_pass_simple [OF w t3 s n(1), unfolded l n]
  let ?b = "replicate 8 5 @ replicate 16 (2::int)"
  let ?tab = "(clock_times 0 (replicate 8 5) @ clock_times 40 ?b @ clock_times 112 ?b @ clock_times 184 (replicate 8 5),
    map ?Q [0..<8] @ block_thrice 0x00500000 @ block_thrice 0x00600000 @ map ?W [0..<8],
    replicate 8 ''READ'' @ replicate 24 ''READ'' @ replicate 24 ''READ'' @ replicate 8 ''WRITE'')"
  have eq: "attention_like_blocked_requests = q @ k @ v @ w"
    unfolding attention_like_blocked_requests_def Let_def using q k v w by (simp del: upt_Suc)
  have tab: "expected_patterns ! 4 = ?tab" by code_simp
  show ?thesis unfolding eq tab by (intro matches_append pq(1) pk(1) pv(1) pw(1)) simp_all
qed

lemma streaming_times:
  "i < 96 \<Longrightarrow> 0 \<le> c \<Longrightarrow> c < 2 ^ 32 \<Longrightarrow> \<exists>t. int_times (int i) (flit c 1) = Inr t \<and> is_int_val t (int i * c)"
proof -
  assume a: "i < 96" "0 \<le> c" "c < 2 ^ 32"
  have "int i * c \<le> 96 * 2 ^ 32" using a by (intro mult_mono) simp_all
  then show ?thesis using a int_times_val [OF _ _ flit_val [of c], of "int i"] by simp
qed

lemma command_tables:
  "map (\<lambda>i. command_for_index (int i) 32) [0..<96] = writes_at 32"
  "map (\<lambda>i. command_for_index (int i) 24) [0..<96] = writes_at 24"
  "map (\<lambda>i. command_for_index (int i) 8) [0..<96] = writes_at 8"
  by code_simp+

lemma specs_exist:
  "\<exists>s t h. workload_specs = Inr (spec_list s t h) \<and> matches s (expected_patterns ! 0) \<and>
     matches t (expected_patterns ! 1) \<and> matches h (expected_patterns ! 2)"
proof -
  have st: "\<And>i. i < 96 \<Longrightarrow> \<exists>t. int_times (int i) (flit 80 1) = Inr t \<and> is_int_val t (int i * 80)"
    "\<And>i. i < 96 \<Longrightarrow> \<exists>t. int_times (int i) (flit 16 1) = Inr t \<and> is_int_val t (int i * 16)"
    by (rule streaming_times; simp)+
  have hb: "\<And>i. i < 96 \<Longrightarrow> \<exists>t. hot_bank_timestamp (int i) = Inr t \<and>
      is_int_val t (96 * (int i div 8) + 2 * (int i mod 8))"
    by (rule hot_bank_timestamp_val) simp_all
  note s = regular_matches [of 96 "\<lambda>i. int_times i (flit 80 1)" "\<lambda>i. int i * 80" "\<lambda>i. i * 4" 32
      "''streaming_read''", OF st(1), unfolded command_tables]
  note t = regular_matches [of 96 "\<lambda>i. int_times i (flit 16 1)" "\<lambda>i. int i * 16" "\<lambda>i. i * 8" 24
      "''stride_read''", OF st(2), unfolded command_tables]
  note h = regular_matches [of 96 hot_bank_timestamp "\<lambda>i. 96 * (int i div 8) + 2 * (int i mod 8)" "\<lambda>i. i * 64" 8
      "''hot_bank_burst''", OF hb, unfolded command_tables]
  obtain a b c where
    a: "regular_requests 96 (\<lambda>i. int_times i (flit 80 1)) (\<lambda>i. i * 4) (\<lambda>i. command_for_index i 32) ''streaming_read'' = Inr a"
      "matches a (expected_patterns ! 0)" and
    b: "regular_requests 96 (\<lambda>i. int_times i (flit 16 1)) (\<lambda>i. i * 8) (\<lambda>i. command_for_index i 24) ''stride_read'' = Inr b"
      "matches b (expected_patterns ! 1)" and
    c: "regular_requests 96 hot_bank_timestamp (\<lambda>i. i * 64) (\<lambda>i. command_for_index i 8) ''hot_bank_burst'' = Inr c"
      "matches c (expected_patterns ! 2)"
    using s t h unfolding expected_patterns_def nth_Cons_0 nth_Cons_numeral by (auto simp del: upt_Suc)
  show ?thesis unfolding workload_specs_def a(1) b(1) c(1) bindR_Inr using a b c by blast
qed

text \<open>C34. The pattern generator is total and delivers the five workloads of the lab, in order and with 96, 96, 96,
  48 and 64 requests, exactly as tabulated: request by request the issue time, the address and the
  command, each of 4 bytes.  In particular the issue times increase strictly (steps of 80 and 16 ns, bursts of
  8 requests 2 ns apart every 96 ns, 6 ns, and 5 or 2 ns), every 32nd, 24th and 8th request of the regular
  patterns is a write, the two tiled patterns end with 8 writes and read otherwise, and every address is
  word-aligned and below \<open>2 ^ 28\<close>.\<close>

theorem workload_specs_well_formed:
  "\<exists>specs. workload_specs = Inr specs \<and> map ws_workload specs = ALL_WORKLOADS \<and>
     map (\<lambda>s. length (ws_requests s)) specs = [96, 96, 96, 48, 64] \<and>
     list_all2 (\<lambda>s tab. matches (ws_requests s) tab) specs expected_patterns \<and>
     list_all (\<lambda>s. well_formed_pattern (ws_requests s)) specs"
proof -
  obtain a b c where sp: "workload_specs = Inr (spec_list a b c)" "matches a (expected_patterns ! 0)"
    "matches b (expected_patterns ! 1)" "matches c (expected_patterns ! 2)"
    using specs_exist by blast
  have five: "length expected_patterns = 5" "map (\<lambda>tab. length (fst (snd tab))) expected_patterns = [96, 96, 96, 48, 64]"
    by code_simp+
  have tab: "expected_patterns = map (\<lambda>i. expected_patterns ! i) [0, 1, 2, 3, 4]"
    by code_simp
  have m: "list_all2 (\<lambda>s tab. matches (ws_requests s) tab) (spec_list a b c) expected_patterns"
    by (subst tab) (simp add: spec_list_def sp(2-4) [simplified] tiled_matches attention_matches)
  have len: "length (ws_requests s) = length (fst (snd t))" if "matches (ws_requests s) t" for s t
    using that by (cases t) (auto simp: matches_def)
  then have "map (\<lambda>s. length (ws_requests s)) (spec_list a b c) = map (\<lambda>tab. length (fst (snd tab))) expected_patterns"
    using m unfolding list_all2_conv_all_nth by (intro nth_equalityI) (simp_all add: len)
  moreover have "map ws_workload (spec_list a b c) = ALL_WORKLOADS"
    by (simp add: spec_list_def ALL_WORKLOADS_def CORE_WORKLOADS_def OPTIONAL_SYNTHETIC_PATTERNS_def)
  moreover have "list_all (\<lambda>s. well_formed_pattern (ws_requests s)) (spec_list a b c)"
    unfolding list_all_length
  proof (intro allI impI)
    fix i
    assume i: "i < length (spec_list a b c)"
    then have "good_table (expected_patterns ! i)"
      using expected_patterns_good list_all2_lengthD [OF m] by (metis list_all_length)
    then show "well_formed_pattern (ws_requests (spec_list a b c ! i))"
      using matches_well_formed list_all2_nthD [OF m i] by blast
  qed
  ultimately show ?thesis using sp(1) m five(2) by (intro exI [of _ "spec_list a b c"] conjI) simp_all
qed

text \<open>C35. The stressor is what it claims: under word interleaving every \<open>hot_bank\<close> request falls
  into bank 0 for each swept bank count, while consecutive \<open>streaming\<close> requests always change
  the bank.\<close>

theorem hot_bank_stress:
  "\<exists>specs. workload_specs = Inr specs \<and>
     (\<forall>n \<in> {4, 8, 16}. map (\<lambda>r. rq_address r div DEFAULT_INTERLEAVE_BYTES mod n) (ws_requests (specs ! 2))
        = replicate 96 0) \<and>
     (\<forall>n \<in> {4, 8, 16}. map (\<lambda>r. rq_address r div DEFAULT_INTERLEAVE_BYTES mod n) (ws_requests (specs ! 0))
        = map (\<lambda>i. int i mod n) [0..<96])"
proof -
  obtain s t h where l: "workload_specs = Inr (spec_list s t h)" and
    sp: "map rq_address s = map (\<lambda>i. int i * 4) [0..<96]" "map rq_address h = map (\<lambda>i. int i * 64) [0..<96]"
    using specs_exist unfolding expected_patterns_def by (auto simp: matches_def simp del: upt_Suc)
  have nth: "ws_requests (spec_list s t h ! 0) = s" "ws_requests (spec_list s t h ! 2) = h"
    by (simp_all add: spec_list_def)
  have bank: "map (\<lambda>r. rq_address r div DEFAULT_INTERLEAVE_BYTES mod n) rs = map (\<lambda>i. f i div 4 mod n) [0..<96]"
    if "map rq_address rs = map f [0..<96]" for rs n f
    using arg_cong [OF that, of "map (\<lambda>a. a div 4 mod n)"] by (simp add: DEFAULT_INTERLEAVE_BYTES_def comp_def del: upt_Suc)
  have z: "int i * 64 div 4 mod n = 0" if "n \<in> {4, 8, 16}" for i n
    using that by (elim insertE emptyE; hypsubst; presburger)
  have "\<forall>n \<in> {4, 8, 16}. map (\<lambda>r. rq_address r div DEFAULT_INTERLEAVE_BYTES mod n) h = replicate 96 0"
    unfolding bank [OF sp(2)] using z by (auto simp: map_replicate_const simp del: upt_Suc intro!: replicate_eqI)
  moreover have "\<forall>n \<in> {4, 8, 16}. map (\<lambda>r. rq_address r div DEFAULT_INTERLEAVE_BYTES mod n) s = map (\<lambda>i. int i mod n) [0..<96]"
    unfolding bank [OF sp(1)] by (simp del: upt_Suc)
  ultimately show ?thesis using l nth by metis
qed

text \<open>Both statements quantify over the swept bank counts; for each of them they hold.\<close>

theorem hot_bank_stress_witness:
  "\<exists>specs. workload_specs = Inr specs \<and>
     map (\<lambda>r. rq_address r div DEFAULT_INTERLEAVE_BYTES mod 8) (ws_requests (specs ! 2)) = replicate 96 0"
  using hot_bank_stress by blast

end
