(* ===== verification/K_Features.thy ===== *)
theory K_Features
  imports K_Workloads Trace_Summary
begin

text \<open>
  \<open>examples/lt/tools/demo_project_k_workload_bottleneck_lab.py\<close>, second part: the parsing
  helpers and \<open>characterize_trace\<close>, which derives the features of a trace (reuse, stride,
  sequentiality, burstiness, bank concentration).  The logarithm of the C library is the
  parameter \<open>logf\<close>.
\<close>

section \<open>Parsing and printing\<close>

definition read_csv_rows :: "string \<Rightarrow> string list list option \<Rightarrow> csv_row list result" where
  "read_csv_rows path file =
     bindR (opt_or_raise file (DemoError (''CSV not found: '' @ path))) (\<lambda>recs.
     bindR (raise_if (dict_reader recs = []) (DemoError (''CSV is empty: '' @ path))) (\<lambda>_.
     Inr (dict_reader recs)))"

text \<open>The text that both number parsers work on: \<open>None\<close> for a missing, blank or \<open>NA\<close> cell.\<close>

definition clean_text :: "string option \<Rightarrow> string option" where
  "clean_text value = (case value of None \<Rightarrow> None
     | Some v \<Rightarrow> let text = py_strip v in if text = [] \<or> text = ''NA'' then None else Some text)"

definition k_parse_float :: "string option \<Rightarrow> pyfloat option" where
  "k_parse_float value = (case clean_text value of None \<Rightarrow> None | Some text \<Rightarrow> parse_float text)"

text \<open>\<open>int(float(text))\<close>: ValueError, also that of \<open>int(nan)\<close>, gives \<open>None\<close>; OverflowError escapes.\<close>

definition k_parse_int :: "string option \<Rightarrow> int option result" where
  "k_parse_int value = (case clean_text value of None \<Rightarrow> Inr None
     | Some text \<Rightarrow> (case parse_float text of None \<Rightarrow> Inr None
         | Some x \<Rightarrow> (case trunc_to_int x of
               Inr n \<Rightarrow> Inr (Some n)
             | Inl (ValueError m) \<Rightarrow> Inr None
             | Inl e \<Rightarrow> Inl e)))"

definition parse_address :: "string option \<Rightarrow> int result" where
  "parse_address value = (case value of
      None \<Rightarrow> Inl (DemoError ''trace row missing address'')
    | Some v \<Rightarrow> opt_or_raise (py_int0 (py_strip v)) (DemoError (''invalid address value: '' @ v)))"

definition k_percentile :: "('a \<Rightarrow> 'a \<Rightarrow> bool) \<Rightarrow> 'a list \<Rightarrow> int \<Rightarrow> 'a option result" where
  "k_percentile lt values p =
     (if values = [] then Inr None
      else let vs = py_sorted lt values in
        if length vs = 1 then Inr (Some (vs ! 0))
        else bindR (percentile_rank p (int (length vs))) (\<lambda>rank. Inr (Some (vs ! nat rank))))"

text \<open>\<open>fmt\<close> on an optional float and on an optional integer.\<close>

definition fmt_float :: "pyfloat option \<Rightarrow> string" where
  "fmt_float value = (case value of None \<Rightarrow> ''NA'' | Some x \<Rightarrow> if is_finite x then fmt3 x else ''NA'')"

definition fmt_int :: "int option \<Rightarrow> string" where
  "fmt_int value = (case value of None \<Rightarrow> ''NA'' | Some n \<Rightarrow> str_int n)"

text \<open>\<open>safe_ratio\<close> of two integers.\<close>

definition safe_ratio :: "int \<Rightarrow> int \<Rightarrow> pyfloat option result" where
  "safe_ratio numerator denominator =
     (if denominator = 0 then Inr None
      else bindR (int_truediv numerator denominator) (\<lambda>x. Inr (Some x)))"

text \<open>\<open>x or 0.0\<close> and \<open>n or d\<close>: \<open>None\<close> and zero are falsy.\<close>

definition or_zero :: "pyfloat option \<Rightarrow> pyfloat" where
  "or_zero v = (case v of None \<Rightarrow> f_zero | Some x \<Rightarrow> if f_is_zero x then f_zero else x)"

definition int_or :: "int option \<Rightarrow> int \<Rightarrow> int" where
  "int_or v d = (case v of None \<Rightarrow> d | Some n \<Rightarrow> if n = 0 then d else n)"

definition str_or :: "string option \<Rightarrow> string option \<Rightarrow> string option" where
  "str_or a b = (case a of None \<Rightarrow> b | Some s \<Rightarrow> if s = [] then b else a)"

section \<open>Feature computations\<close>

definition k_bank_id_for_address :: "int \<Rightarrow> int \<Rightarrow> int" where
  "k_bank_id_for_address addr bank_count = addr div DEFAULT_INTERLEAVE_BYTES mod bank_count"

text \<open>\<open>collections.Counter\<close>: counts in the order of the first occurrence.\<close>

definition counter :: "'a list \<Rightarrow> ('a \<times> int) list" where
  "counter xs = map (\<lambda>(k, vs). (k, int (length vs))) (group_by (\<lambda>x. x) xs)"

fun most_common_from :: "'a \<times> int \<Rightarrow> ('a \<times> int) list \<Rightarrow> 'a \<times> int" where
  "most_common_from b [] = b"
| "most_common_from b (p # ps) = most_common_from (if snd b < snd p then p else b) ps"

definition most_common :: "'a list \<Rightarrow> 'a option" where
  "most_common xs = (case counter xs of [] \<Rightarrow> None | p # ps \<Rightarrow> Some (fst (most_common_from p ps)))"

fun entropy_from :: "(pyfloat \<Rightarrow> pyfloat result) \<Rightarrow> int \<Rightarrow> pyfloat \<Rightarrow> int list \<Rightarrow> pyfloat result" where
  "entropy_from logf tot entropy [] = Inr entropy"
| "entropy_from logf tot entropy (c # cs) =
     (if c = 0 then entropy_from logf tot entropy cs
      else bindR (int_truediv c tot) (\<lambda>p. bindR (logf p) (\<lambda>l.
        entropy_from logf tot (f_sub entropy (f_mul p l)) cs)))"

definition normalized_entropy ::
  "(pyfloat \<Rightarrow> pyfloat result) \<Rightarrow> int list \<Rightarrow> int \<Rightarrow> pyfloat option result" where
  "normalized_entropy logf counts bucket_count =
     (let total = sum_list counts in
      if total = 0 \<or> bucket_count \<le> 1 then Inr None
      else bindR (entropy_from logf total f_zero counts) (\<lambda>entropy.
        bindR (float_of_int bucket_count) (\<lambda>b. bindR (logf b) (\<lambda>lb.
        bindR (f_div entropy lb) (\<lambda>x. Inr (Some x))))))"

definition CACHELINE_BYTES :: int where
  "CACHELINE_BYTES = 64"

definition phase_locality_score :: "request list \<Rightarrow> pyfloat option result" where
  "phase_locality_score requests =
     (if requests = [] then Inr None
      else let phases = group_by rq_phase requests in
        bindR (mapR (\<lambda>(p, rs). let cachelines = map (\<lambda>r. rq_address r div CACHELINE_BYTES) rs in
            bindR (int_truediv (int (length (remdups cachelines))) (int (length cachelines))) (\<lambda>q.
            Inr (f_sub (flit 1 1) q))) phases) (\<lambda>locality_scores.
        bindR (float_of_int (int (length locality_scores))) (\<lambda>n.
        bindR (f_div (py_fsum locality_scores) n) (\<lambda>x. Inr (Some x)))))"

fun reuse_from :: "(int \<rightharpoonup> int) \<Rightarrow> int \<Rightarrow> int list \<Rightarrow> int list" where
  "reuse_from last_seen index [] = []"
| "reuse_from last_seen index (c # cs) =
     (case last_seen c of
        None \<Rightarrow> reuse_from (last_seen(c \<mapsto> index)) (index + 1) cs
      | Some j \<Rightarrow> (index - j) # reuse_from (last_seen(c \<mapsto> index)) (index + 1) cs)"

definition reuse_distances_for_cachelines :: "int list \<Rightarrow> int list" where
  "reuse_distances_for_cachelines cachelines = reuse_from Map.empty 0 cachelines"

text \<open>The loop over \<open>seen_cachelines\<close>.\<close>

fun count_repeated :: "int set \<Rightarrow> int list \<Rightarrow> int" where
  "count_repeated seen [] = 0"
| "count_repeated seen (c # cs) = (if c \<in> seen then 1 else 0) + count_repeated (insert c seen) cs"

definition diffs :: "int list \<Rightarrow> int list" where
  "diffs xs = map (\<lambda>(left, right). right - left) (zip xs (tl xs))"

definition gaps_of :: "pyfloat list \<Rightarrow> pyfloat list" where
  "gaps_of ts = map (\<lambda>(left, right). f_sub right left) (zip ts (tl ts))"

definition burstiness :: "pyfloat list \<Rightarrow> pyfloat result" where
  "burstiness gaps =
     (if gaps = [] then Inr f_zero
      else bindR (k_percentile f_lt gaps 50) (\<lambda>p50. bindR (k_percentile f_lt gaps 95) (\<lambda>p95.
        let p50_gap = or_zero p50; p95_gap = or_zero p95 in
        if f_le p95_gap f_zero then Inr f_zero
        else bindR (f_div (f_sub p95_gap p50_gap) p95_gap) (\<lambda>q.
          Inr (if f_lt f_zero q then q else f_zero)))))"

section \<open>Characterisation\<close>

record features =
  f_workload :: string
  f_pattern_class :: string
  f_phase_count :: int
  f_total_requests :: int
  f_total_bytes :: int
  f_read_ratio :: "pyfloat option"
  f_write_ratio :: "pyfloat option"
  f_unique_cacheline_count :: int
  f_reuse_ratio :: "pyfloat option"
  f_avg_reuse_distance :: "pyfloat option"
  f_p50_reuse_distance :: "int option"
  f_phase_locality_score :: "pyfloat option"
  f_sequentiality_score :: pyfloat
  f_dominant_stride :: "int option"
  f_burstiness_score :: pyfloat
  f_bank_entropy :: "pyfloat option"
  f_max_bank_share :: "pyfloat option"
  f_mapping_sensitivity_score :: "pyfloat option"
  f_bank_count_sensitivity_score :: "pyfloat option"

text \<open>
  The metadata of a workload: its pattern class and requests, or \<open>None\<close> for the empty
  dictionary.  \<open>stem\<close> is the stem of the file name.
\<close>

definition row_workload :: "string \<Rightarrow> csv_row \<Rightarrow> string" where
  "row_workload stem row =
     (case str_or (row_get row ''workload_name'') (str_or (row_get row ''workload'') (Some stem)) of
        None \<Rightarrow> [] | Some s \<Rightarrow> s)"

definition timestamps_of :: "csv_row list \<Rightarrow> pyfloat list" where
  "timestamps_of rows = map (\<lambda>row. or_zero (k_parse_float (row_get row ''timestamp_ns''))) rows"

definition commands_of :: "csv_row list \<Rightarrow> string list" where
  "commands_of rows = map (\<lambda>row. py_upper (case str_or (row_get row ''command'') (Some ''READ'') of
     None \<Rightarrow> [] | Some s \<Rightarrow> s)) rows"

definition avg_int :: "int list \<Rightarrow> pyfloat option result" where
  "avg_int xs = (if xs = [] then Inr None
     else bindR (int_truediv (sum_list xs) (int (length xs))) (\<lambda>x. Inr (Some x)))"

definition characterize_trace ::
  "(pyfloat \<Rightarrow> pyfloat result) \<Rightarrow> string \<Rightarrow> string \<Rightarrow> string list list option \<Rightarrow> workload_spec option
     \<Rightarrow> features result" where
  "characterize_trace logf path stem file metadata =
     bindR (read_csv_rows path file) (\<lambda>rows.
     let workload = row_workload stem (hd rows);
         requests = (case metadata of None \<Rightarrow> [] | Some m \<Rightarrow> ws_requests m) in
     bindR (mapR (\<lambda>row. parse_address (str_or (row_get row ''address'') (row_get row ''masked_address''))) rows) (\<lambda>addresses.
     bindR (mapR (\<lambda>row. bindR (k_parse_int (row_get row ''size_bytes'')) (\<lambda>s. Inr (int_or s 4))) rows) (\<lambda>sizes.
     let timestamps = timestamps_of rows;
         commands = commands_of rows;
         total_requests = int (length rows);
         total_bytes = sum_list sizes;
         read_count = int (length (filter (\<lambda>c. c = ''READ'' \<or> c = ''R'') commands));
         write_count = int (length (filter (\<lambda>c. c = ''WRITE'' \<or> c = ''W'') commands));
         cachelines = map (\<lambda>a. a div CACHELINE_BYTES) addresses;
         unique_cacheline_count = int (length (remdups cachelines));
         reuse_distances = reuse_distances_for_cachelines cachelines;
         repeated = count_repeated {} cachelines;
         deltas = diffs addresses;
         sequential_hits = int (length (filter (\<lambda>(d, s). d = s) (zip deltas sizes)));
         bank_counts = map snd (counter (map (\<lambda>a. k_bank_id_for_address a FEATURE_BANK_COUNT) addresses)) in
     bindR (safe_ratio sequential_hits (int (length deltas))) (\<lambda>seq.
     bindR (burstiness (gaps_of timestamps)) (\<lambda>burst.
     bindR (int_truediv (Max (set bank_counts)) total_requests) (\<lambda>share.
     bindR (normalized_entropy logf bank_counts FEATURE_BANK_COUNT) (\<lambda>entropy.
     bindR (safe_ratio read_count total_requests) (\<lambda>reads.
     bindR (safe_ratio write_count total_requests) (\<lambda>writes.
     bindR (safe_ratio repeated total_requests) (\<lambda>reuse.
     bindR (avg_int reuse_distances) (\<lambda>avg_reuse.
     bindR (k_percentile (<) reuse_distances 50) (\<lambda>p50_reuse.
     bindR (phase_locality_score requests) (\<lambda>locality.
     Inr \<lparr>f_workload = workload,
       f_pattern_class = (case metadata of None \<Rightarrow> ''unknown'' | Some m \<Rightarrow> ws_pattern_class m),
       f_phase_count = (if requests = [] then 1 else int (length (remdups (map rq_phase requests)))),
       f_total_requests = total_requests, f_total_bytes = total_bytes, f_read_ratio = reads,
       f_write_ratio = writes, f_unique_cacheline_count = unique_cacheline_count,
       f_reuse_ratio = reuse, f_avg_reuse_distance = avg_reuse, f_p50_reuse_distance = p50_reuse,
       f_phase_locality_score = locality, f_sequentiality_score = or_zero seq,
       f_dominant_stride = most_common deltas, f_burstiness_score = burst,
       f_bank_entropy = entropy, f_max_bank_share = Some share,
       f_mapping_sensitivity_score = None, f_bank_count_sensitivity_score = None\<rparr>)))))))))))))"

section \<open>Reuse\<close>

lemma count_repeated_card:
  "finite seen \<Longrightarrow> count_repeated seen cs + int (card (set cs - seen)) = int (length cs)"
proof (induction cs arbitrary: seen)
  case (Cons c cs)
  have "set cs - insert c seen = set (c # cs) - seen - {c}" by auto
  moreover have "c \<notin> seen \<Longrightarrow> card (set (c # cs) - seen) = Suc (card (set (c # cs) - seen - {c}))"
    using card_Suc_Diff1 [of "set (c # cs) - seen" c] by simp
  moreover have "c \<in> seen \<Longrightarrow> set (c # cs) - seen - {c} = set (c # cs) - seen" by auto
  ultimately show ?case using Cons.IH [of "insert c seen"] Cons.prems by (cases "c \<in> seen") simp_all
qed simp

lemma length_reuse_from: "int (length (reuse_from ls i cs)) = count_repeated (dom ls) cs"
proof (induction cs arbitrary: ls i)
  case (Cons c cs)
  have "dom (ls(c \<mapsto> i)) = insert c (dom ls)" by simp
  then show ?case using Cons.IH [of "ls(c \<mapsto> i)" "i + 1"]
    by (cases "ls c") (auto simp: insert_absorb domI domIff simp del: fun_upd_apply)
qed simp

lemma reuse_from_range:
  assumes "\<forall>c j. ls c = Some j \<longrightarrow> 0 \<le> j \<and> j < i" and "0 \<le> i" and "d \<in> set (reuse_from ls i cs)"
  shows "1 \<le> d \<and> d < i + int (length cs)"
  using assms
proof (induction cs arbitrary: ls i)
  case (Cons c cs)
  have st: "\<forall>c' j. (ls(c \<mapsto> i)) c' = Some j \<longrightarrow> 0 \<le> j \<and> j < i + 1"
  proof (intro allI impI)
    fix c' j
    assume a: "(ls(c \<mapsto> i)) c' = Some j"
    show "0 \<le> j \<and> j < i + 1"
    proof (cases "c' = c")
      case False
      then have "ls c' = Some j" using a by simp
      then have "0 \<le> j \<and> j < i" using Cons.prems(1) by blast
      then show ?thesis by simp
    qed (use a Cons.prems(2) in simp)
  qed
  have IH: "d \<in> set (reuse_from (ls(c \<mapsto> i)) (i + 1) cs) \<Longrightarrow> 1 \<le> d \<and> d < i + 1 + int (length cs)"
    using Cons.IH [of "ls(c \<mapsto> i)" "i + 1", OF st] Cons.prems(2) by (simp del: fun_upd_apply)
  show ?case
  proof (cases "ls c")
    case None
    then show ?thesis using Cons.prems(3) IH by simp
  next
    case (Some j)
    then have "0 \<le> j \<and> j < i" using Cons.prems(1) by blast
    then show ?thesis using Cons.prems(3) IH Some by auto
  qed
qed simp

text \<open>The specification of the distances: one for each access whose cache line occurred before,
  the distance to its latest earlier occurrence.\<close>

definition latest_before :: "int list \<Rightarrow> nat \<Rightarrow> int option" where
  "latest_before cs i = (case filter (\<lambda>j. cs ! j = cs ! i) (rev [0..<i]) of [] \<Rightarrow> None | j # _ \<Rightarrow> Some (int i - int j))"

definition seen_map :: "int list \<Rightarrow> int \<rightharpoonup> int" where
  "seen_map cs = (\<lambda>c. case filter (\<lambda>j. cs ! j = c) (rev [0..<length cs]) of [] \<Rightarrow> None | j # _ \<Rightarrow> Some (int j))"

lemma seen_map_snoc: "seen_map (cs @ [c]) = (seen_map cs)(c \<mapsto> int (length cs))"
proof
  fix d
  have "filter (\<lambda>j. (cs @ [c]) ! j = d) (rev [0..<length cs]) = filter (\<lambda>j. cs ! j = d) (rev [0..<length cs])"
    by (rule filter_cong) (auto simp: nth_append)
  then show "seen_map (cs @ [c]) d = ((seen_map cs)(c \<mapsto> int (length cs))) d"
    by (simp add: seen_map_def)
qed

lemma latest_before_seen: "latest_before (cs @ c # ds) (length cs) = map_option (\<lambda>j. int (length cs) - j) (seen_map cs c)"
proof -
  have "filter (\<lambda>j. (cs @ c # ds) ! j = c) (rev [0..<length cs]) = filter (\<lambda>j. cs ! j = c) (rev [0..<length cs])"
    by (rule filter_cong) (auto simp: nth_append)
  then show ?thesis by (simp add: latest_before_def seen_map_def split: list.splits)
qed

lemma reuse_from_spec:
  "reuse_from (seen_map cs) (int (length cs)) ds =
     List.map_filter (latest_before (cs @ ds)) [length cs..<length cs + length ds]"
proof (induction ds arbitrary: cs)
  case (Cons c ds)
  have up: "[length cs..<length cs + length (c # ds)] = length cs # [length (cs @ [c])..<length (cs @ [c]) + length ds]"
    by (simp add: upt_conv_Cons del: upt_Suc)
  have IH: "reuse_from ((seen_map cs)(c \<mapsto> int (length cs))) (int (length cs) + 1) ds =
      List.map_filter (latest_before (cs @ c # ds)) [length (cs @ [c])..<length (cs @ [c]) + length ds]"
    using Cons.IH [of "cs @ [c]"] by (simp add: seen_map_snoc add.commute del: upt_Suc fun_upd_apply)
  show ?case unfolding up
    using latest_before_seen [of cs c ds] IH 
    by (cases "seen_map cs c") (simp_all add: map_filter_simps add.commute del: upt_Suc fun_upd_apply)
qed (simp add: map_filter_simps)

text \<open>C26. Reuse is counted consistently and its distances are right: the distances are, in order,
  those from each repeated access to the latest earlier access to the same cache line; there
  are as many of them as repeated accesses; repeated accesses and distinct cache lines add up
  to all accesses; and each distance lies between 1 and the number of accesses.\<close>

theorem reuse_distances_spec:
  "reuse_distances_for_cachelines cs = List.map_filter (latest_before cs) [0..<length cs] \<and>
   int (length (reuse_distances_for_cachelines cs)) = count_repeated {} cs \<and>
   count_repeated {} cs + int (length (remdups cs)) = int (length cs) \<and>
   list_all (\<lambda>d. 1 \<le> d \<and> d < int (length cs)) (reuse_distances_for_cachelines cs)"
proof -
  have "seen_map [] = Map.empty" by (simp add: seen_map_def)
  then have "reuse_distances_for_cachelines cs = List.map_filter (latest_before cs) [0..<length cs]"
    using reuse_from_spec [of "[]" cs] by (simp add: reuse_distances_for_cachelines_def)
  moreover have "int (length (reuse_distances_for_cachelines cs)) = count_repeated {} cs"
    by (simp add: reuse_distances_for_cachelines_def length_reuse_from)
  moreover have "count_repeated {} cs + int (length (remdups cs)) = int (length cs)"
    using count_repeated_card [of "{}" cs] by (simp add: length_remdups_card_conv)
  moreover have "list_all (\<lambda>d. 1 \<le> d \<and> d < int (length cs)) (reuse_distances_for_cachelines cs)"
    using reuse_from_range [of Map.empty 0 _ cs] by (auto simp: list_all_iff reuse_distances_for_cachelines_def)
  ultimately show ?thesis by blast
qed

section \<open>Counting\<close>

lemma group_by_mem: "(k, vs) \<in> set (group_by key xs) \<longleftrightarrow> k \<in> key ` set xs \<and> vs = filter (\<lambda>x. key x = k) xs"
proof -
  have "(k, vs) \<in> set (group_by key xs) \<longleftrightarrow> map_of (group_by key xs) k = Some vs"
    using distinct_keys_group_by [of key xs] by (simp add: map_of_eq_Some_iff del: set_map)
  then show ?thesis by (auto simp: map_of_group_by)
qed

lemma counter_eq: "counter xs = map (\<lambda>k. (k, int (count_list xs k))) (map fst (group_by (\<lambda>x. x) xs))"
proof -
  have "length (filter (\<lambda>x. x = k) xs) = count_list xs k" for k
    by (induction xs) auto
  then have "(k, int (length vs)) = (k, int (count_list xs k))" if "(k, vs) \<in> set (group_by (\<lambda>x. x) xs)" for k vs
    using that by (simp add: group_by_mem)
  then show ?thesis unfolding counter_def by (auto intro!: map_cong)
qed

lemma pairs_map: "map snd (map (\<lambda>k. (k, f k)) ks) = map f ks" "map fst (map (\<lambda>k. (k, f k)) ks) = ks"
  by (simp_all add: comp_def)

lemma sum_counter: "sum_list (map snd (counter xs)) = int (length xs)"
proof -
  have "sum_list (map snd (counter xs)) = (\<Sum>k \<in> set (map fst (group_by (\<lambda>x. x) xs)). int (count_list xs k))"
    unfolding counter_eq pairs_map by (rule sum_list_distinct_conv_sum_set [OF distinct_keys_group_by])
  also have "\<dots> = int (sum (count_list xs) (set xs))" by (simp add: set_keys_group_by del: set_map)
  also have "\<dots> = int (length xs)" by (simp add: sum_count_set)
  finally show ?thesis .
qed

lemma counter_keys: "set (map fst (counter xs)) = set xs" and distinct_counter: "distinct (map fst (counter xs))"
  unfolding counter_eq pairs_map using set_keys_group_by [of "\<lambda>x. x" xs] distinct_keys_group_by [of "\<lambda>x. x" xs]
  by (simp_all only: image_ident)

lemma counter_mem: "(k, c) \<in> set (counter xs) \<longleftrightarrow> k \<in> set xs \<and> c = int (count_list xs k)"
proof -
  have "set (counter xs) = (\<lambda>k. (k, int (count_list xs k))) ` set xs"
    unfolding counter_eq set_map [of "\<lambda>k. (k, int (count_list xs k))"] set_keys_group_by by simp
  then show ?thesis by auto
qed

lemma counter_pos: "c \<in> set (map snd (counter xs)) \<Longrightarrow> 0 < c \<and> c \<le> int (length xs)"
proof -
  assume "c \<in> set (map snd (counter xs))"
  then obtain k where "k \<in> set xs" "c = int (count_list xs k)" by (auto simp: counter_mem)
  moreover have "count_list xs k \<le> length xs" by (rule count_le_length)
  moreover have "count_list xs k \<noteq> 0" using calculation(1) by (simp add: count_list_0_iff)
  ultimately show ?thesis by simp
qed

lemma most_common_from_max:
  "p \<in> insert b (set ps) \<Longrightarrow> snd p \<le> snd (most_common_from b ps)"
  "most_common_from b ps \<in> insert b (set ps)"
proof (induction ps arbitrary: b p)
  case (Cons q ps)
  { case 1
    let ?b = "if snd b < snd q then q else b"
    have m: "snd ?b \<le> snd (most_common_from ?b ps)" by (rule Cons.IH(1)) simp
    show ?case
    proof (cases "p \<in> set ps")
      case True
      then have "snd p \<le> snd (most_common_from ?b ps)" by (intro Cons.IH(1)) simp
      then show ?thesis by simp
    next
      case False
      then have "snd p \<le> snd ?b" using 1 by auto
      then show ?thesis using m by simp
    qed }
  { case 2
    then show ?case using Cons.IH(2) [of q] Cons.IH(2) [of b] by auto }
qed simp_all

text \<open>\<open>Counter(xs).most_common(1)\<close>, which decides the dominant stride, names an element
  that occurs at least as often as every other.\<close>

theorem most_common_is_mode:
  assumes "most_common xs = Some m"
  shows "m \<in> set xs \<and> (\<forall>x. count_list xs x \<le> count_list xs m)"
proof -
  obtain p ps where c: "counter xs = p # ps" "m = fst (most_common_from p ps)"
    using assms by (auto simp: most_common_def split: list.splits)
  let ?b = "most_common_from p ps"
  have b: "?b \<in> set (counter xs)" using most_common_from_max(2) [of p ps] c(1) by simp
  then have m: "m \<in> set xs" "snd ?b = int (count_list xs m)"
    using counter_mem [of "fst ?b" "snd ?b" xs] c(2) by auto
  have "count_list xs x \<le> count_list xs m" for x
  proof (cases "x \<in> set xs")
    case True
    then have "(x, int (count_list xs x)) \<in> insert p (set ps)" using counter_mem [of x _ xs] c(1) by auto
    from most_common_from_max(1) [OF this] m(2) show ?thesis by simp
  qed (simp add: count_notin)
  then show ?thesis using m by blast
qed

theorem most_common_is_mode_witness:
  "\<exists>m. most_common [16, 4, 16, -44 :: int] = Some m \<and>
     (\<forall>x. count_list [16, 4, 16, -44 :: int] x \<le> count_list [16, 4, 16, -44] m)"
proof -
  have "most_common [16, 4, 16, -44 :: int] = Some 16" by code_simp
  from most_common_is_mode [OF this] this show ?thesis by blast
qed

section \<open>Ranges\<close>

definition in_unit :: "pyfloat \<Rightarrow> bool" where
  "in_unit x \<longleftrightarrow> f_le f_zero x \<and> f_le x (flit 1 1)"

lemma zero_le_one: "f_le f_zero (flit 1 1)"
  by code_simp

lemma in_unit_zero: "in_unit f_zero"
  using zero_le_one by (simp add: in_unit_def f_le_refl f_zero_def)

lemma safe_ratio_unit:
  assumes "0 \<le> a" and "a \<le> b" and "safe_ratio a b = Inr (Some x)"
  shows "in_unit x"
proof -
  have "b \<noteq> 0" "int_truediv a b = Inr x" using assms(3) by (auto simp: safe_ratio_def result_simps split: if_splits)
  then show ?thesis using int_truediv_unit [OF assms(1,2)] assms(1,2) by (auto simp: in_unit_def)
qed

lemma or_zero_unit: "(\<And>x. v = Some x \<Longrightarrow> in_unit x) \<Longrightarrow> in_unit (or_zero v)"
  using in_unit_zero by (auto simp: or_zero_def split: option.splits)

lemma count_repeated_nonneg: "0 \<le> count_repeated seen cs"
  by (induction cs arbitrary: seen) (simp_all add: add_nonneg_nonneg)

lemma count_repeated_le: "count_repeated {} cs \<le> int (length cs)"
  using count_repeated_card [of "{}" cs] by simp

text \<open>\<open>max(0.0, \<dots>)\<close> keeps the burstiness from being negative, or NaN.\<close>

lemma burstiness_nonneg: "burstiness gaps = Inr b \<Longrightarrow> f_le f_zero b"
proof -
  have z: "f_le f_zero f_zero" by (simp add: f_le_refl f_zero_def)
  assume "burstiness gaps = Inr b"
  then show ?thesis using z f_lt_imp_le
    by (auto simp: burstiness_def Let_def bindR_eq_Inr split: if_splits)
qed

lemma max_share:
  assumes "xs \<noteq> []" and "set xs \<subseteq> {0..<FEATURE_BANK_COUNT}"
  defines "m \<equiv> Max (set (map snd (counter xs)))"
  shows "0 \<le> m" and "m \<le> int (length xs)" and "int (length xs) \<le> 4 * m"
proof -
  let ?c = "counter xs"
  have ne: "?c \<noteq> []" using counter_keys [of xs] assms(1) by auto
  then have m: "m \<in> set (map snd ?c)" unfolding m_def by (intro Max_in) auto
  then show "0 \<le> m" "m \<le> int (length xs)" using counter_pos [OF m] by auto
  have le: "\<forall>c \<in> set (map snd ?c). c \<le> m" unfolding m_def by (intro ballI Max_ge) auto
  have "length ?c = card (set xs)"
    using distinct_card [OF distinct_counter [of xs]] by (simp only: counter_keys length_map)
  also have "\<dots> \<le> card {0..<FEATURE_BANK_COUNT}" using assms(2) by (intro card_mono) auto
  finally have l: "int (length ?c) \<le> 4" by (simp add: FEATURE_BANK_COUNT_def)
  have "sum_list cs \<le> int (length cs) * m" if "\<forall>c \<in> set cs. c \<le> m" for cs :: "int list"
    using that by (induction cs) (auto simp: algebra_simps)
  from this [OF le] have "sum_list (map snd ?c) \<le> int (length (map snd ?c)) * m" .
  also have "\<dots> \<le> 4 * m" using l \<open>0 \<le> m\<close> by (intro mult_right_mono) simp_all
  finally show "int (length xs) \<le> 4 * m" by (simp add: sum_counter)
qed

text \<open>C27. Features are in range: whenever a trace can be characterised, its read, write and reuse
  ratios and its sequentiality are in 0..1, the share of the most loaded of the four banks is
  between 1/4 and 1 (up to one rounding), the burstiness is not negative, and the request count
  is that of the trace.\<close>

theorem features_in_range:
  assumes "characterize_trace logf path stem file metadata = Inr ft"
  shows "\<exists>rows r w u s. read_csv_rows path file = Inr rows \<and> f_total_requests ft = int (length rows) \<and>
    f_read_ratio ft = Some r \<and> in_unit r \<and> f_write_ratio ft = Some w \<and> in_unit w \<and>
    f_reuse_ratio ft = Some u \<and> in_unit u \<and> in_unit (f_sequentiality_score ft) \<and>
    f_le f_zero (f_burstiness_score ft) \<and>
    f_max_bank_share ft = Some s \<and> in_unit s \<and> f_le (flit 1 4) s"
proof -
  from assms obtain rows addresses sizes seq burst share entropy reads writes reuse where
    rows: "read_csv_rows path file = Inr rows" and
    ad: "mapR (\<lambda>row. parse_address (str_or (row_get row ''address'') (row_get row ''masked_address''))) rows = Inr addresses" and
    seq: "safe_ratio (int (length (filter (\<lambda>(d, s). d = s) (zip (diffs addresses) sizes)))) (int (length (diffs addresses))) = Inr seq" and
    burst: "burstiness (gaps_of (timestamps_of rows)) = Inr burst" and
    share: "int_truediv (Max (set (map snd (counter (map (\<lambda>a. k_bank_id_for_address a FEATURE_BANK_COUNT) addresses)))))
      (int (length rows)) = Inr share" and
    reads: "safe_ratio (int (length (filter (\<lambda>c. c = ''READ'' \<or> c = ''R'') (commands_of rows)))) (int (length rows)) = Inr reads" and
    writes: "safe_ratio (int (length (filter (\<lambda>c. c = ''WRITE'' \<or> c = ''W'') (commands_of rows)))) (int (length rows)) = Inr writes" and
    reuse: "safe_ratio (count_repeated {} (map (\<lambda>a. a div CACHELINE_BYTES) addresses)) (int (length rows)) = Inr reuse" and
    ft: "f_total_requests ft = int (length rows)" "f_read_ratio ft = reads" "f_write_ratio ft = writes"
      "f_reuse_ratio ft = reuse" "f_sequentiality_score ft = or_zero seq" "f_burstiness_score ft = burst"
      "f_max_bank_share ft = Some share"
    unfolding characterize_trace_def Let_def bindR_eq_Inr
    by (elim exE conjE) (rule that, assumption+, auto)
  have ne: "rows \<noteq> []" using rows by (auto simp: read_csv_rows_def result_simps)
  have la: "length addresses = length rows" using mapR_length [OF ad] .
  have some: "\<exists>x. v = Some x" if "safe_ratio a (int (length rows)) = Inr v" for a v
    using that ne by (auto simp: safe_ratio_def result_simps split: if_splits)
  have lc: "length (filter P (commands_of rows)) \<le> length rows" for P
    using length_filter_le [of P "commands_of rows"] by (simp add: commands_of_def)
  have unit: "\<exists>x. v = Some x \<and> in_unit x" if "safe_ratio a (int (length rows)) = Inr v" "0 \<le> a" "a \<le> int (length rows)" for a v
    using some [OF that(1)] safe_ratio_unit [OF that(2,3)] that(1) by auto
  obtain r where r: "reads = Some r" "in_unit r" using unit [OF reads] lc by auto
  obtain w where w: "writes = Some w" "in_unit w" using unit [OF writes] lc by auto
  have "count_repeated {} (map (\<lambda>a. a div CACHELINE_BYTES) addresses) \<le> int (length rows)"
    using count_repeated_le [of "map (\<lambda>a. a div CACHELINE_BYTES) addresses"] la by simp
  then obtain u where u: "reuse = Some u" "in_unit u" using unit [OF reuse count_repeated_nonneg] by auto
  have "int (length (filter (\<lambda>(d, s). d = s) (zip (diffs addresses) sizes))) \<le> int (length (diffs addresses))"
    using length_filter_le [of "\<lambda>(d, s). d = s" "zip (diffs addresses) sizes"] by simp
  note hits = safe_ratio_unit [OF of_nat_0_le_iff this]
  have s: "in_unit (or_zero seq)" by (rule or_zero_unit, rule hits) (use seq in simp)
  let ?banks = "map (\<lambda>a. k_bank_id_for_address a FEATURE_BANK_COUNT) addresses"
  have b: "?banks \<noteq> []" "set ?banks \<subseteq> {0..<FEATURE_BANK_COUNT}"
    using ne la by (auto simp: k_bank_id_for_address_def FEATURE_BANK_COUNT_def)
  note ms = max_share [OF b]
  have pos: "0 < int (length rows)" using ne by simp
  obtain x where x: "share = x" "rounds_to False (of_int (Max (set (map snd (counter ?banks)))) / of_int (int (length rows))) x" "in_unit x"
    using int_truediv_unit [OF ms(1) _ pos] ms(2) share la by (auto simp: in_unit_def)
  have "rounds_to False (1 / 4) (flit 1 4)" using mk_float_rounds [of 1 4 False] by (simp add: flit_def of_frac_def)
  moreover have "(1 :: rat) / 4 \<le> of_int (Max (set (map snd (counter ?banks)))) / of_int (int (length rows))"
    using ms(3) pos la by (simp add: divide_simps)
  ultimately have "f_le (flit 1 4) x" using rounds_mono x(2) by blast
  then show ?thesis using rows ft r w u s x burstiness_nonneg [OF burst] by auto
qed

definition small_trace :: "string list list" where
  "small_trace = [trace_header,
     [''streaming'', ''1'', ''0.000'', ''101'', ''READ'', ''0x00000000'', ''4''],
     [''streaming'', ''2'', ''80.000'', ''101'', ''WRITE'', ''0x00000004'', ''4''],
     [''streaming'', ''3'', ''160.000'', ''101'', ''READ'', ''0x00000044'', ''4'']]"

text \<open>With \<open>x - 1\<close> in the place of the logarithm.\<close>

theorem features_in_range_witness:
  "\<exists>ft s. characterize_trace (\<lambda>x. Inr (f_sub x (flit 1 1))) ''t.csv'' ''t'' (Some small_trace) None = Inr ft \<and>
     f_max_bank_share ft = Some s \<and> f_le (flit 1 4) s"
proof -
  let ?r = "characterize_trace (\<lambda>x. Inr (f_sub x (flit 1 1))) ''t.csv'' ''t'' (Some small_trace) None"
  have "\<not> isl ?r" by code_simp
  then obtain ft where ft: "?r = Inr ft" by (metis sum.collapse(2))
  from features_in_range [OF ft] ft show ?thesis by blast
qed

end
