(* ===== verification/K_Attribution.thy ===== *)
theory K_Attribution
  imports K_Features
begin

text \<open>
  \<open>examples/lt/tools/demo_project_k_workload_bottleneck_lab.py\<close>, third part: the metrics of a
  model run, the rule scores, the attribution of a bottleneck with its evidence, the what-if
  sweep and its sensitivities, and the summary rows.  A run of the C++ controller is the
  parameter \<open>project_e\<close>: address mapping and bank count to the records of its two CSV files.
\<close>

section \<open>Model metrics\<close>

record metrics =
  m_workload :: "string option"
  m_avg_latency_ns :: "pyfloat option"
  m_p50_latency_ns :: "pyfloat option"
  m_p95_latency_ns :: "pyfloat option"
  m_throughput_txn_per_us :: "pyfloat option"
  m_queue_delay_ratio :: "pyfloat option"
  m_service_delay_ratio :: "pyfloat option"
  m_bank_conflict_proxy :: "pyfloat option"
  m_p95_p50_latency_ratio :: "pyfloat option"
  m_bank_utilization_pct :: "pyfloat option"
  m_avg_queue_occupancy :: "pyfloat option"
  m_max_queue_occupancy :: "int option"
  m_stalled_or_rejected :: "int option"
  m_row_hit_ratio_pct :: "pyfloat option"

text \<open>\<open>row.get(k, "")\<close>: the default replaces a missing column, not an empty cell of a short record.\<close>

definition row_get_default :: "csv_row \<Rightarrow> string \<Rightarrow> string option" where
  "row_get_default row k = (case map_of (rev (cells row)) k of None \<Rightarrow> Some [] | Some v \<Rightarrow> v)"

definition group_trace_rows :: "csv_row list \<Rightarrow> (string option \<times> csv_row list) list" where
  "group_trace_rows trace_rows = group_by (\<lambda>row. row_get_default row ''workload'') trace_rows"

definition safe_ratio_float :: "pyfloat option \<Rightarrow> pyfloat option \<Rightarrow> pyfloat option result" where
  "safe_ratio_float numerator denominator =
     (case (numerator, denominator) of
        (Some n, Some d) \<Rightarrow> if f_is_zero d then Inr None else bindR (f_div n d) (\<lambda>x. Inr (Some x))
      | _ \<Rightarrow> Inr None)"

definition float_column :: "csv_row list \<Rightarrow> string \<Rightarrow> pyfloat list" where
  "float_column rows k = List.map_filter (\<lambda>row. k_parse_float (row_get row k)) rows"

definition sum_or_none :: "pyfloat list \<Rightarrow> pyfloat option" where
  "sum_or_none xs = (if xs = [] then None else Some (py_fsum xs))"

text \<open>The body of the loop of \<open>summarize_model_metrics\<close>.\<close>

definition metrics_of_row :: "csv_row list \<Rightarrow> csv_row \<Rightarrow> metrics result" where
  "metrics_of_row workload_trace_rows row =
     (let accepted = filter (\<lambda>t. row_get t ''response_status'' = Some ''ACCEPTED'') workload_trace_rows;
          latencies = float_column accepted ''total_latency_ns'';
          queue_delays = float_column accepted ''queue_delay_ns'';
          service_delays = float_column accepted ''service_latency_ns'';
          latency_sum = sum_or_none latencies in
      bindR (k_percentile f_lt latencies 50) (\<lambda>p50.
      bindR (case k_parse_float (row_get row ''p95_latency_ns'') of
               None \<Rightarrow> k_percentile f_lt latencies 95 | Some x \<Rightarrow> Inr (Some x)) (\<lambda>p95.
      bindR (safe_ratio_float (sum_or_none queue_delays) latency_sum) (\<lambda>queue_delay_ratio.
      bindR (safe_ratio_float (sum_or_none service_delays) latency_sum) (\<lambda>service_delay_ratio.
      let queue_waits = int (length (filter (f_lt f_zero) queue_delays)) in
      bindR (safe_ratio queue_waits (int (length accepted))) (\<lambda>proxy.
      bindR (safe_ratio_float p95 p50) (\<lambda>tail.
      bindR (k_parse_int (row_get row ''max_queue_occupancy'')) (\<lambda>max_queue.
      bindR (k_parse_int (row_get row ''stalled_or_rejected_transactions'')) (\<lambda>rejected.
      Inr \<lparr>m_workload = row_get_default row ''workload'',
        m_avg_latency_ns = k_parse_float (row_get row ''avg_latency_ns''),
        m_p50_latency_ns = p50, m_p95_latency_ns = p95,
        m_throughput_txn_per_us = k_parse_float (row_get row ''throughput_txn_per_us''),
        m_queue_delay_ratio = queue_delay_ratio, m_service_delay_ratio = service_delay_ratio,
        m_bank_conflict_proxy = proxy, m_p95_p50_latency_ratio = tail,
        m_bank_utilization_pct = k_parse_float (row_get row ''bank_utilization_pct''),
        m_avg_queue_occupancy = k_parse_float (row_get row ''avg_queue_occupancy''),
        m_max_queue_occupancy = max_queue, m_stalled_or_rejected = rejected,
        m_row_hit_ratio_pct = k_parse_float (row_get row ''row_hit_ratio_pct'')\<rparr>)))))))))"

fun metrics_from :: "(string option \<times> csv_row list) list \<Rightarrow> (string option \<times> metrics) list
    \<Rightarrow> csv_row list \<Rightarrow> (string option \<times> metrics) list result" where
  "metrics_from traces acc [] = Inr acc"
| "metrics_from traces acc (row # rows) =
     (let w = row_get_default row ''workload'';
          trace = (case map_of traces w of None \<Rightarrow> [] | Some t \<Rightarrow> t) in
      bindR (metrics_of_row trace row) (\<lambda>m. metrics_from traces (dict_set acc w m) rows))"

definition summarize_model_metrics ::
  "csv_row list \<Rightarrow> csv_row list \<Rightarrow> (string option \<times> metrics) list result" where
  "summarize_model_metrics summary_rows trace_rows =
     metrics_from (group_trace_rows trace_rows) [] summary_rows"

section \<open>Rules\<close>

definition has_high :: "pyfloat option \<Rightarrow> pyfloat \<Rightarrow> bool" where
  "has_high value threshold = (case value of None \<Rightarrow> False | Some v \<Rightarrow> f_le threshold v)"

definition has_low :: "pyfloat option \<Rightarrow> pyfloat \<Rightarrow> bool" where
  "has_low value threshold = (case value of None \<Rightarrow> False | Some v \<Rightarrow> f_le v threshold)"

definition score_confidence :: "int \<Rightarrow> string" where
  "score_confidence score = (if 3 \<le> score then ''high'' else if score = 2 then ''medium''
     else if score = 1 then ''low'' else ''low'')"

definition MAX_BANK_SHARE_HIGH :: pyfloat where "MAX_BANK_SHARE_HIGH = flit 65 100"
definition BANK_ENTROPY_LOW :: pyfloat where "BANK_ENTROPY_LOW = flit 55 100"
definition BANK_CONFLICT_PROXY_HIGH :: pyfloat where "BANK_CONFLICT_PROXY_HIGH = flit 35 100"
definition QUEUE_DELAY_RATIO_HIGH :: pyfloat where "QUEUE_DELAY_RATIO_HIGH = flit 25 100"
definition SERVICE_DELAY_RATIO_HIGH :: pyfloat where "SERVICE_DELAY_RATIO_HIGH = flit 65 100"
definition QUEUE_DELAY_RATIO_LOW :: pyfloat where "QUEUE_DELAY_RATIO_LOW = flit 20 100"
definition TAIL_RATIO_HIGH :: pyfloat where "TAIL_RATIO_HIGH = flit 2 1"
definition BURSTINESS_SCORE_HIGH :: pyfloat where "BURSTINESS_SCORE_HIGH = flit 35 100"
definition MAX_QUEUE_OCCUPANCY_HIGH :: int where "MAX_QUEUE_OCCUPANCY_HIGH = 4"
definition REUSE_RATIO_LOW :: pyfloat where "REUSE_RATIO_LOW = flit 20 100"
definition PHASE_LOCALITY_LOW :: pyfloat where "PHASE_LOCALITY_LOW = flit 25 100"
definition ROW_HIT_RATIO_LOW :: pyfloat where "ROW_HIT_RATIO_LOW = flit 25 1"
definition BANK_UTILIZATION_HIGH :: pyfloat where "BANK_UTILIZATION_HIGH = flit 70 1"
definition SENSITIVITY_SCORE_LOW :: pyfloat where "SENSITIVITY_SCORE_LOW = flit 10 100"

definition points :: "int \<Rightarrow> bool \<Rightarrow> int" where
  "points n c = (if c then n else 0)"

definition queue_full :: "metrics \<Rightarrow> bool" where
  "queue_full m = (case m_max_queue_occupancy m of None \<Rightarrow> False | Some n \<Rightarrow> MAX_QUEUE_OCCUPANCY_HIGH \<le> n)"

definition any_rejected :: "metrics \<Rightarrow> bool" where
  "any_rejected m = (case m_stalled_or_rejected m of None \<Rightarrow> False | Some n \<Rightarrow> 0 < n)"

text \<open>The dictionary of scores, in its insertion order.\<close>

definition rule_scores :: "features \<Rightarrow> metrics \<Rightarrow> (string \<times> int) list" where
  "rule_scores ft m =
     [(''bank_conflict_bound'',
        points 1 (has_high (f_max_bank_share ft) MAX_BANK_SHARE_HIGH)
        + points 1 (has_low (f_bank_entropy ft) BANK_ENTROPY_LOW)
        + points 1 (has_high (m_bank_conflict_proxy m) BANK_CONFLICT_PROXY_HIGH)
        + points 1 (has_high (m_p95_p50_latency_ratio m) TAIL_RATIO_HIGH)),
      (''queueing_bound'',
        points 2 (has_high (m_queue_delay_ratio m) QUEUE_DELAY_RATIO_HIGH)
        + points 1 (queue_full m) + points 2 (any_rejected m)),
      (''service_latency_bound'',
        points 2 (has_high (m_service_delay_ratio m) SERVICE_DELAY_RATIO_HIGH)
        + points 1 (has_low (m_queue_delay_ratio m) QUEUE_DELAY_RATIO_LOW)),
      (''burstiness_bound'',
        points 1 (has_high (Some (f_burstiness_score ft)) BURSTINESS_SCORE_HIGH)
        + points 1 (has_high (m_p95_p50_latency_ratio m) TAIL_RATIO_HIGH)
        + points 1 (queue_full m) + points 1 (any_rejected m)),
      (''locality_loss_bound'',
        points 1 (has_low (f_reuse_ratio ft) REUSE_RATIO_LOW)
        + points 1 (has_low (f_phase_locality_score ft) PHASE_LOCALITY_LOW)
        + points 1 (has_low (m_row_hit_ratio_pct m) ROW_HIT_RATIO_LOW)
        + points 1 (has_high (m_service_delay_ratio m) SERVICE_DELAY_RATIO_HIGH)
        + points 1 (has_low (m_queue_delay_ratio m) QUEUE_DELAY_RATIO_LOW)),
      (''bandwidth_pressure_bound'',
        points 1 (has_high (m_bank_utilization_pct m) BANK_UTILIZATION_HIGH)
        + points 1 (has_high (m_queue_delay_ratio m) QUEUE_DELAY_RATIO_HIGH)
        + points 1 (any_rejected m)
        + points 1 (has_low (f_bank_count_sensitivity_score ft) SENSITIVITY_SCORE_LOW))]"

definition priority_of :: "string \<Rightarrow> int" where
  "priority_of name = the (map_of [(''bank_conflict_bound'', 0), (''queueing_bound'', 1),
     (''bandwidth_pressure_bound'', 2), (''burstiness_bound'', 3), (''locality_loss_bound'', 4),
     (''service_latency_bound'', 5)] name)"

text \<open>\<open>max\<close> with the key \<open>(score, -priority)\<close>: the first entry no later one exceeds.\<close>

definition outranks :: "string \<times> int \<Rightarrow> string \<times> int \<Rightarrow> bool" where
  "outranks p q \<longleftrightarrow> snd q < snd p \<or> (snd q = snd p \<and> priority_of (fst p) < priority_of (fst q))"

definition primary_rule :: "(string \<times> int) list \<Rightarrow> string \<times> int" where
  "primary_rule scores = min_from outranks (hd scores) (tl scores)"

section \<open>Attribution\<close>

definition CLAIM_BOUNDARY :: string where
  "CLAIM_BOUNDARY = ''trend-level synthetic trace over Project E simplified banked memory model; not GPU, silicon, PMU/perf/Nsight, AXI/CHI, GEMM, Transformer, FlashAttention, or LLM inference evidence''"

definition recommendation_for :: "string \<Rightarrow> string" where
  "recommendation_for rule = the (map_of
     [(''bank_conflict_bound'', ''Expected direction: increase bank parallelism or spread addresses across banks in the synthetic mapping before making stronger claims.''),
      (''queueing_bound'', ''Expected direction: reduce injection pressure, smooth request issue, or increase modeled buffering/bank parallelism in a bounded sweep.''),
      (''service_latency_bound'', ''Expected direction: reduce modeled service latency or improve synthetic locality; queue-depth changes alone may have limited effect.''),
      (''burstiness_bound'', ''Expected direction: smooth burst issue pattern or evaluate buffering as a future Project K knob.''),
      (''locality_loss_bound'', ''Expected direction: improve synthetic phase locality or tile/block ordering in the current model; this is not a cache hit/miss claim.''),
      (''bandwidth_pressure_bound'', ''Expected direction: treat the workload as modeled throughput-pressure limited and compare bank/mapping alternatives before stronger claims.''),
      (''no_dominant_bottleneck'', ''Expected direction: treat as current-model baseline and compare against stressed workloads.'')]
     rule)"

definition evidence_for :: "features \<Rightarrow> metrics \<Rightarrow> string \<Rightarrow> (string \<times> string) list" where
  "evidence_for ft m rule =
     (if rule = ''bank_conflict_bound'' then
        [(''max_bank_share'', fmt_float (f_max_bank_share ft)),
         (''bank_entropy'', fmt_float (f_bank_entropy ft)),
         (''bank_conflict_proxy'', fmt_float (m_bank_conflict_proxy m)),
         (''p95_p50_latency_ratio'', fmt_float (m_p95_p50_latency_ratio m)),
         (''bank_utilization_pct'', fmt_float (m_bank_utilization_pct m))]
      else if rule = ''queueing_bound'' then
        [(''queue_delay_ratio'', fmt_float (m_queue_delay_ratio m)),
         (''avg_queue_occupancy'', fmt_float (m_avg_queue_occupancy m)),
         (''max_queue_occupancy'', fmt_int (m_max_queue_occupancy m)),
         (''stalled_or_rejected_transactions'', fmt_int (m_stalled_or_rejected m)),
         (''p95_latency_ns'', fmt_float (m_p95_latency_ns m))]
      else if rule = ''service_latency_bound'' then
        [(''service_delay_ratio'', fmt_float (m_service_delay_ratio m)),
         (''avg_latency_ns'', fmt_float (m_avg_latency_ns m)),
         (''row_hit_ratio_pct'', fmt_float (m_row_hit_ratio_pct m)),
         (''queue_delay_ratio'', fmt_float (m_queue_delay_ratio m))]
      else if rule = ''burstiness_bound'' then
        [(''burstiness_score'', fmt_float (Some (f_burstiness_score ft))),
         (''p95_p50_latency_ratio'', fmt_float (m_p95_p50_latency_ratio m)),
         (''max_queue_occupancy'', fmt_int (m_max_queue_occupancy m)),
         (''stalled_or_rejected_transactions'', fmt_int (m_stalled_or_rejected m))]
      else if rule = ''locality_loss_bound'' then
        [(''reuse_ratio'', fmt_float (f_reuse_ratio ft)),
         (''unique_cacheline_count'', str_int (f_unique_cacheline_count ft)),
         (''row_hit_ratio_pct'', fmt_float (m_row_hit_ratio_pct m)),
         (''phase_locality_score'', fmt_float (f_phase_locality_score ft)),
         (''service_delay_ratio'', fmt_float (m_service_delay_ratio m))]
      else if rule = ''bandwidth_pressure_bound'' then
        [(''throughput_txn_per_us'', fmt_float (m_throughput_txn_per_us m)),
         (''bank_utilization_pct'', fmt_float (m_bank_utilization_pct m)),
         (''queue_delay_ratio'', fmt_float (m_queue_delay_ratio m)),
         (''stalled_or_rejected_transactions'', fmt_int (m_stalled_or_rejected m)),
         (''bank_count_sensitivity_score'', fmt_float (f_bank_count_sensitivity_score ft))]
      else [(''avg_latency_ns'', fmt_float (m_avg_latency_ns m)),
            (''p95_latency_ns'', fmt_float (m_p95_latency_ns m))])"

definition evidence_text :: "(string \<times> string) list \<Rightarrow> string" where
  "evidence_text evidence = py_join ''; '' (map (\<lambda>(key, value). key @ ''='' @ value) evidence)"

record attribution =
  a_primary_bottleneck :: string
  a_confidence :: string
  a_evidence_fields :: string
  a_recommendation :: string
  a_claim_boundary :: string

definition attribution_for :: "features \<Rightarrow> metrics \<Rightarrow> attribution" where
  "attribution_for ft m =
     (let (rule, score) = primary_rule (rule_scores ft m);
          primary = (if score \<le> 0 then ''no_dominant_bottleneck'' else rule) in
      \<lparr>a_primary_bottleneck = primary, a_confidence = score_confidence score,
       a_evidence_fields = evidence_text (evidence_for ft m primary),
       a_recommendation = recommendation_for primary, a_claim_boundary = CLAIM_BOUNDARY\<rparr>)"

section \<open>The what-if sweep\<close>

definition BANK_COUNT_SWEEP :: "int list" where
  "BANK_COUNT_SWEEP = [4, 8, 16]"

definition ADDRESS_MAPPING_SWEEP :: "string list" where
  "ADDRESS_MAPPING_SWEEP = [''word_interleave'', ''cacheline_interleave'', ''row_interleave'']"

definition DEFAULT_ADDRESS_MAPPING :: string where
  "DEFAULT_ADDRESS_MAPPING = ''word_interleave''"

record sweep_row =
  sw_workload :: string
  sw_bank_count :: int
  sw_address_mapping :: string
  sw_metrics :: metrics
  sw_primary_bottleneck :: string
  sw_confidence :: string
  sw_delta_pct :: "pyfloat option"

definition is_baseline :: "sweep_row \<Rightarrow> bool" where
  "is_baseline row \<longleftrightarrow> sw_bank_count row = BANK_COUNT_SWEEP ! 0 \<and> sw_address_mapping row = DEFAULT_ADDRESS_MAPPING"

definition baselines :: "sweep_row list \<Rightarrow> string \<rightharpoonup> pyfloat option" where
  "baselines rows = foldl (\<lambda>d row. if is_baseline row
     then d(sw_workload row \<mapsto> m_p95_latency_ns (sw_metrics row)) else d) Map.empty rows"

definition delta_pct :: "pyfloat option \<Rightarrow> pyfloat option \<Rightarrow> pyfloat option result" where
  "delta_pct baseline p95 =
     (case (baseline, p95) of
        (Some b, Some p) \<Rightarrow> if f_is_zero b then Inr None
          else bindR (f_div (f_mul (flit 100 1) (f_sub p b)) b) (\<lambda>x. Inr (Some x))
      | _ \<Rightarrow> Inr None)"

definition add_sweep_delta_pct :: "sweep_row list \<Rightarrow> sweep_row list result" where
  "add_sweep_delta_pct rows =
     mapR (\<lambda>row. bindR (delta_pct (case baselines rows (sw_workload row) of None \<Rightarrow> None | Some b \<Rightarrow> b)
         (m_p95_latency_ns (sw_metrics row)))
       (\<lambda>d. Inr (row\<lparr>sw_delta_pct := d\<rparr>))) rows"

definition sensitivity_score :: "pyfloat option list \<Rightarrow> pyfloat option result" where
  "sensitivity_score values =
     (let clean_values = List.map_filter (\<lambda>v. v) values in
      if length clean_values < 2 then Inr None
      else bindR (py_max clean_values) (\<lambda>high. bindR (py_min clean_values) (\<lambda>low.
        if f_is_zero high then Inr None
        else bindR (f_div (f_sub high low) high) (\<lambda>x. Inr (Some x)))))"

text \<open>The mapping and the bank-count sensitivity of each workload.\<close>

definition compute_sensitivity_by_workload ::
  "sweep_row list \<Rightarrow> (string \<times> (pyfloat option \<times> pyfloat option)) list result" where
  "compute_sensitivity_by_workload rows =
     mapR (\<lambda>(w, rs).
       bindR (sensitivity_score (map (\<lambda>r. m_p95_latency_ns (sw_metrics r))
         (filter (\<lambda>r. sw_bank_count r = BANK_COUNT_SWEEP ! 0) rs))) (\<lambda>mapping.
       bindR (sensitivity_score (map (\<lambda>r. m_p95_latency_ns (sw_metrics r))
         (filter (\<lambda>r. sw_address_mapping r = DEFAULT_ADDRESS_MAPPING) rs))) (\<lambda>banks.
       Inr (w, (mapping, banks))))) (group_by sw_workload rows)"

record summary_row =
  sr_features :: features
  sr_metrics :: metrics
  sr_attribution :: attribution

definition summary_row_for ::
  "(string \<rightharpoonup> features) \<Rightarrow> (string option \<rightharpoonup> metrics) \<Rightarrow> (string \<rightharpoonup> pyfloat option \<times> pyfloat option) \<Rightarrow>
     string \<Rightarrow> summary_row result" where
  "summary_row_for ft_by m_by sens_by w =
     bindR (opt_or_raise (ft_by w) (DemoError (''missing features for workload: '' @ w))) (\<lambda>ft0.
     bindR (opt_or_raise (m_by (Some w)) (DemoError (''missing model metrics for workload: '' @ w))) (\<lambda>m.
     let ft = (case sens_by w of None \<Rightarrow> ft0
           | Some (mapping, banks) \<Rightarrow> ft0\<lparr>f_mapping_sensitivity_score := mapping,
               f_bank_count_sensitivity_score := banks\<rparr>) in
     Inr \<lparr>sr_features = ft, sr_metrics = m, sr_attribution = attribution_for ft m\<rparr>))"

definition k_build_summary_rows ::
  "(string \<rightharpoonup> features) \<Rightarrow> (string option \<rightharpoonup> metrics) \<Rightarrow> (string \<rightharpoonup> pyfloat option \<times> pyfloat option) \<Rightarrow>
     summary_row list result" where
  "k_build_summary_rows ft_by m_by sens_by = mapR (summary_row_for ft_by m_by sens_by) ALL_WORKLOADS"

text \<open>The sweep loop of \<open>main\<close>: for every mapping and bank count one run and a row per workload.\<close>

definition sweep_point ::
  "(string \<rightharpoonup> features) \<Rightarrow> (string \<Rightarrow> int \<Rightarrow> (csv_row list \<times> csv_row list) result) \<Rightarrow> string \<Rightarrow> int \<Rightarrow>
     ((string option \<times> metrics) list \<times> sweep_row list) result" where
  "sweep_point ft_by project_e mapping bank_count =
     bindR (project_e mapping bank_count) (\<lambda>(summary_rows, trace_rows).
     bindR (summarize_model_metrics summary_rows trace_rows) (\<lambda>model_metrics.
     bindR (mapR (\<lambda>w.
       bindR (opt_or_raise (ft_by w) (KeyError w)) (\<lambda>ft.
       bindR (opt_or_raise (map_of model_metrics (Some w)) (KeyError w)) (\<lambda>m.
       let a = attribution_for ft m in
       Inr \<lparr>sw_workload = w, sw_bank_count = bank_count, sw_address_mapping = mapping, sw_metrics = m,
            sw_primary_bottleneck = a_primary_bottleneck a, sw_confidence = a_confidence a,
            sw_delta_pct = None\<rparr>))) ALL_WORKLOADS) (\<lambda>rows. Inr (model_metrics, rows))))"

definition sweep_points :: "(string \<times> int) list" where
  "sweep_points = concat (map (\<lambda>m. map (\<lambda>b. (m, b)) BANK_COUNT_SWEEP) ADDRESS_MAPPING_SWEEP)"

definition baseline_point :: "string \<times> int" where
  "baseline_point = (DEFAULT_ADDRESS_MAPPING, BANK_COUNT_SWEEP ! 0)"

definition run_sweep ::
  "(string \<rightharpoonup> features) \<Rightarrow> (string \<Rightarrow> int \<Rightarrow> (csv_row list \<times> csv_row list) result) \<Rightarrow>
     (sweep_row list \<times> summary_row list) result" where
  "run_sweep ft_by project_e =
     bindR (mapR (\<lambda>(m, b). bindR (sweep_point ft_by project_e m b) (\<lambda>r. Inr ((m, b), r))) sweep_points) (\<lambda>runs.
     bindR (opt_or_raise (map_of (rev runs) baseline_point)
       (DemoError ''baseline bank_count run did not produce model metrics'')) (\<lambda>(baseline_metrics, _).
     bindR (add_sweep_delta_pct (concat (map (snd \<circ> snd) runs))) (\<lambda>sweep_rows.
     bindR (compute_sensitivity_by_workload sweep_rows) (\<lambda>sens.
     bindR (k_build_summary_rows ft_by (map_of baseline_metrics) (map_of sens)) (\<lambda>rows.
     Inr (sweep_rows, rows))))))"

section \<open>The attributed rule\<close>

definition known_rule :: "string \<times> int \<Rightarrow> bool" where
  "known_rule p \<longleftrightarrow> True"

interpretation rule_order: weak_order outranks known_rule
  by unfold_locales (auto simp: outranks_def)

lemma points_range: "0 \<le> n \<Longrightarrow> 0 \<le> points n c \<and> points n c \<le> n"
  by (simp add: points_def)

lemma points_le: "0 \<le> points 1 c" "points 1 c \<le> 1" "0 \<le> points 2 c" "points 2 c \<le> 2"
  by (simp_all add: points_def)

lemma rule_scores_names: "map fst (rule_scores ft m) = [''bank_conflict_bound'', ''queueing_bound'',
    ''service_latency_bound'', ''burstiness_bound'', ''locality_loss_bound'', ''bandwidth_pressure_bound'']"
  by (simp add: rule_scores_def)

lemma rule_scores_nonneg: "(r, s) \<in> set (rule_scores ft m) \<Longrightarrow> 0 \<le> s"
  unfolding rule_scores_def list.set insert_iff empty_iff prod.inject
  by (elim disjE conjE) (simp_all add: points_le)

lemma rule_scores_distinct_priority:
  "(r, s) \<in> set (rule_scores ft m) \<Longrightarrow> (r', s') \<in> set (rule_scores ft m) \<Longrightarrow> r \<noteq> r' \<Longrightarrow>
     priority_of r \<noteq> priority_of r'"
proof -
  assume a: "(r, s) \<in> set (rule_scores ft m)" "(r', s') \<in> set (rule_scores ft m)" "r \<noteq> r'"
  have "inj_on priority_of (set (map fst (rule_scores ft m)))"
    unfolding rule_scores_names by (simp add: inj_on_def priority_of_def)
  moreover have "r \<in> set (map fst (rule_scores ft m))" "r' \<in> set (map fst (rule_scores ft m))"
    using a(1,2) by force+
  ultimately show ?thesis using a(3) by (auto dest: inj_onD)
qed

lemma primary_rule_best:
  assumes "primary_rule (rule_scores ft m) = (r, s)"
  shows "(r, s) \<in> set (rule_scores ft m) \<and> (\<forall>(r', s') \<in> set (rule_scores ft m).
    s' \<le> s \<and> (s' = s \<and> r' \<noteq> r \<longrightarrow> priority_of r < priority_of r'))"
proof -
  obtain p ps where sc: "rule_scores ft m = p # ps" by (simp add: rule_scores_def)
  have pr: "min_from outranks p ps = (r, s)" using assms by (simp add: primary_rule_def sc)
  have mem: "(r, s) \<in> set (rule_scores ft m)" using min_from_mem [of outranks p ps] pr sc by simp
  have "s' \<le> s \<and> (s' = s \<and> r' \<noteq> r \<longrightarrow> priority_of r < priority_of r')"
    if "(r', s') \<in> set (rule_scores ft m)" for r' s'
  proof -
    have "\<not> outranks (r', s') (r, s)"
      using rule_order.min_by_least [of p ps "(r', s')"] that pr sc by (simp add: known_rule_def)
    then show ?thesis using rule_scores_distinct_priority [OF that mem] by (auto simp: outranks_def)
  qed
  then show ?thesis using mem by blast
qed

text \<open>C31. The attribution is the best-scoring rule: a workload has no dominant bottleneck exactly
  when no rule scores; otherwise the attributed rule has the highest score, every other rule
  with that score has a lower priority, and the confidence is high, medium or low as that
  score is at least 3, 2 or 1.\<close>

theorem attribution_is_best_rule:
  "(a_primary_bottleneck (attribution_for ft m) = ''no_dominant_bottleneck'' \<longleftrightarrow>
      (\<forall>(r, s) \<in> set (rule_scores ft m). s = 0)) \<and>
   (a_primary_bottleneck (attribution_for ft m) \<noteq> ''no_dominant_bottleneck'' \<longrightarrow>
      (\<exists>s. (a_primary_bottleneck (attribution_for ft m), s) \<in> set (rule_scores ft m) \<and> 0 < s \<and>
        (\<forall>(r', s') \<in> set (rule_scores ft m). s' \<le> s \<and>
          (s' = s \<and> r' \<noteq> a_primary_bottleneck (attribution_for ft m) \<longrightarrow>
            priority_of (a_primary_bottleneck (attribution_for ft m)) < priority_of r')) \<and>
        a_confidence (attribution_for ft m) = (if 3 \<le> s then ''high'' else if s = 2 then ''medium'' else ''low'')))"
proof -
  obtain r s where p: "primary_rule (rule_scores ft m) = (r, s)" by fastforce
  note best = primary_rule_best [OF p]
  have "r \<noteq> ''no_dominant_bottleneck''"
  proof -
    have "fst (r, s) \<in> set (map fst (rule_scores ft m))" using best by (metis imageI list.set_map)
    then show ?thesis unfolding rule_scores_names by auto
  qed
  show ?thesis
  proof (cases "s \<le> 0")
    case True
    then have "\<forall>(r', s') \<in> set (rule_scores ft m). s' = 0"
      using best rule_scores_nonneg by fastforce
    moreover have "a_primary_bottleneck (attribution_for ft m) = ''no_dominant_bottleneck''"
      using p True by (simp add: attribution_for_def Let_def)
    ultimately show ?thesis by simp
  next
    case False
    then have pr: "a_primary_bottleneck (attribution_for ft m) = r" "a_confidence (attribution_for ft m) = score_confidence s"
      using p by (simp_all add: attribution_for_def Let_def)
    have "\<not> (\<forall>(r, s) \<in> set (rule_scores ft m). s = 0)" using best False by fastforce
    moreover have "score_confidence s = (if 3 \<le> s then ''high'' else if s = 2 then ''medium'' else ''low'')"
      by (simp add: score_confidence_def)
    ultimately show ?thesis unfolding pr
      using best False \<open>r \<noteq> ''no_dominant_bottleneck''\<close> by auto
  qed
qed


text \<open>A run with a full queue and a rejected request, over features that say nothing.\<close>

definition quiet_features :: features where
  "quiet_features = \<lparr>f_workload = ''w'', f_pattern_class = ''p'', f_phase_count = 1, f_total_requests = 1,
     f_total_bytes = 64, f_read_ratio = None, f_write_ratio = None, f_unique_cacheline_count = 1,
     f_reuse_ratio = None, f_avg_reuse_distance = None, f_p50_reuse_distance = None,
     f_phase_locality_score = None, f_sequentiality_score = f_zero, f_dominant_stride = None,
     f_burstiness_score = f_zero, f_bank_entropy = None, f_max_bank_share = None,
     f_mapping_sensitivity_score = None, f_bank_count_sensitivity_score = None\<rparr>"

definition congested_metrics :: metrics where
  "congested_metrics = \<lparr>m_workload = Some ''w'', m_avg_latency_ns = None, m_p50_latency_ns = None,
     m_p95_latency_ns = None, m_throughput_txn_per_us = None, m_queue_delay_ratio = None,
     m_service_delay_ratio = None, m_bank_conflict_proxy = None, m_p95_p50_latency_ratio = None,
     m_bank_utilization_pct = None, m_avg_queue_occupancy = None, m_max_queue_occupancy = Some 5,
     m_stalled_or_rejected = Some 1, m_row_hit_ratio_pct = None\<rparr>"

theorem attribution_is_best_rule_witness:
  "a_primary_bottleneck (attribution_for quiet_features congested_metrics) = ''queueing_bound'' \<and>
   (\<exists>s. (''queueing_bound'', s) \<in> set (rule_scores quiet_features congested_metrics) \<and>
     (\<forall>p \<in> set (rule_scores quiet_features congested_metrics). snd p \<le> s))"
proof -
  have q: "a_primary_bottleneck (attribution_for quiet_features congested_metrics) = ''queueing_bound''"
    by code_simp
  from attribution_is_best_rule [of quiet_features congested_metrics] show ?thesis
    unfolding q case_prod_unfold by blast
qed

section \<open>Sensitivities\<close>

lemma mag_le_zero: "0 \<le> m \<Longrightarrow> mag m e \<le> 0 \<Longrightarrow> m = 0"
  using mag_pos [of m e] by (cases "m = 0") auto

lemma mag_eq_zero: "0 \<le> m \<Longrightarrow> mag m e = 0 \<Longrightarrow> m = 0"
  using mag_le_zero [of m e] by simp

definition clean_latency :: "pyfloat \<Rightarrow> bool" where
  "clean_latency x \<longleftrightarrow> wf_float x \<and> (\<exists>m e. x = Fin False m e)"

lemma clean_latency_not_nan: "clean_latency x \<Longrightarrow> not_nan x"
  by (auto simp: clean_latency_def)

text \<open>A ratio of a difference to its non-negative minuend.\<close>

lemma spread_ratio_unit:
  assumes "clean_latency h" "clean_latency l" "f_le l h" "\<not> f_is_zero h"
  shows "\<exists>x. f_div (f_sub h l) h = Inr x \<and> f_le f_zero x \<and> f_le x (flit 1 1)"
proof -
  obtain m e where h: "h = Fin False m e" "0 < m" "wf_float h"
    using assms(1,4) by (auto simp: clean_latency_def)
  obtain n f where l: "l = Fin False n f" "0 \<le> n" using assms(2) by (auto simp: clean_latency_def)
  have le: "mag n f \<le> mag m e" using assms(3) by (simp add: h(1) l(1) f_le_val)
  obtain u where u: "rounds_to u \<bar>mag m e - mag n f\<bar> (f_sub h l)" "mag m e - mag n f < 0 \<longrightarrow> u"
    "0 < mag m e - mag n f \<longrightarrow> \<not> u"
    using f_add_rounds [of m n False e True f] h(2) l(2) by (auto simp: f_sub_def h(1) l(1))
  have wf: "b64 (mag m e) = mag m e" "mag m e < b64_bound" using h by simp_all
  have "b64 (mag m e - mag n f) \<le> mag m e"
    using b64_mono [of "mag m e - mag n f" "mag m e"] wf(1) mag_nonneg [OF l(2), of f] by simp
  moreover obtain k g where d: "f_sub h l = Fin u k g" "0 \<le> k" "mag k g = b64 (mag m e - mag n f)"
    using u(1) le wf(2) calculation by (auto simp: rounds_to_def)
  ultimately have kg: "mag k g \<le> mag m e" by simp
  have r: "rounds_to u (mag k g / mag m e) (div_fin u k g m e)" by (rule div_fin_rounds [OF d(2) h(2)])
  have res: "f_div (f_sub h l) h = Inr (div_fin u k g m e)" using h(2) d(1) by (simp add: h(1))
  have one: "mag k g / mag m e \<le> of_int 1" using kg mag_pos [OF h(2), of e] by simp
  show ?thesis
  proof (cases u)
    case False
    have r': "rounds_to False (mag k g / mag m e) (div_fin u k g m e)" using r False by simp
    obtain a b where "div_fin u k g m e = Fin False a b" "mag a b \<le> of_int 1"
      using rounds_le_int [OF r' one] by auto
    moreover obtain c where "flit 1 1 = c" "is_int_val c 1" using flit_val [of 1] by simp
    ultimately have "f_le (div_fin u k g m e) (flit 1 1)" by (auto simp: is_int_val_def f_le_val)
    then show ?thesis using res rounds_nonneg [OF r'] by auto
  next
    case True
    then have "mag m e - mag n f = 0" using u(3) le by auto
    then have "mag k g = 0" using d(3) by simp
    then have "rounds_to u 0 (div_fin u k g m e)" using r by simp
    then obtain a b where "div_fin u k g m e = Fin u a b" "mag a b = 0"
      using rounds_int [of u 0 "div_fin u k g m e"] by auto
    then have "f_le f_zero (div_fin u k g m e)" "f_le (div_fin u k g m e) f_zero"
      by (simp_all add: f_le_val f_zero_def)
    then show ?thesis using res f_le_trans zero_le_one by blast
  qed
qed

text \<open>C33. The sensitivity score of a workload, the spread of its 95th percentiles relative to the
  largest, is absent for fewer than two values or when all are zero, and otherwise lies
  between 0 and 1.\<close>

theorem sensitivity_score_range:
  assumes "\<forall>v \<in> set vs. \<forall>x. v = Some x \<longrightarrow> clean_latency x"
  shows "\<exists>r. sensitivity_score vs = Inr r \<and>
    (case r of None \<Rightarrow> length (filter (\<lambda>v. v \<noteq> None) vs) < 2 \<or> (\<forall>x. Some x \<in> set vs \<longrightarrow> f_is_zero x)
     | Some x \<Rightarrow> f_le f_zero x \<and> f_le x (flit 1 1))"
proof -
  let ?c = "List.map_filter (\<lambda>v. v) vs"
  have set: "set ?c = {x. Some x \<in> set vs}" by (induction vs) (auto simp: List.map_filter_def)
  have len: "length ?c = length (filter (\<lambda>v. v \<noteq> None) vs)" by (simp add: List.map_filter_def)
  have cl: "\<forall>x \<in> set ?c. clean_latency x" using assms set by auto
  show ?thesis
  proof (cases "length ?c < 2")
    case True
    then show ?thesis using len by (simp add: sensitivity_score_def Let_def)
  next
    case False
    then have "?c \<noteq> []" by auto
    then obtain h l where hl: "py_max ?c = Inr h" "py_min ?c = Inr l"
      using py_max_total py_min_total by blast
    have mem: "h \<in> set ?c" "l \<in> set ?c" using hl by (auto dest: py_max_mem py_min_mem)
    have nn: "\<forall>x \<in> set ?c. not_nan x" using cl clean_latency_not_nan by blast
    have le: "f_le l h" using py_max_ge [OF hl(1) nn mem(2)] .
    have eq: "sensitivity_score vs = (if f_is_zero h then Inr None
        else bindR (f_div (f_sub h l) h) (\<lambda>x. Inr (Some x)))"
      using False hl by (simp add: sensitivity_score_def Let_def)
    show ?thesis
    proof (cases "f_is_zero h")
      case True
      have "f_is_zero x" if "Some x \<in> set vs" for x
      proof -
        have "x \<in> set ?c" using that set by simp
        then have "f_le x h" "clean_latency x" using py_max_ge [OF hl(1) nn] cl by auto
        then show ?thesis using True mem(1) cl
          by (cases h) (auto simp: clean_latency_def f_le_val dest: mag_le_zero split: if_splits)
      qed
      then show ?thesis using eq True by simp
    next
      case F: False
      then show ?thesis
        using spread_ratio_unit [of h l] cl mem le eq by (auto simp: eq)
    qed
  qed
qed


lemma lit_100_50: "(\<exists>m e. flit 100 1 = Fin False m e)" "(\<exists>m e. flit 50 1 = Fin False m e)"
  "\<not> f_is_zero (flit 100 1)"
proof -
  have "case flit 100 1 of Fin s m e \<Rightarrow> \<not> s | _ \<Rightarrow> False" by code_simp
  then show "\<exists>m e. flit 100 1 = Fin False m e" by (cases "flit 100 1") auto
  have "case flit 50 1 of Fin s m e \<Rightarrow> \<not> s | _ \<Rightarrow> False" by code_simp
  then show "\<exists>m e. flit 50 1 = Fin False m e" by (cases "flit 50 1") auto
  show "\<not> f_is_zero (flit 100 1)" by code_simp
qed

theorem sensitivity_score_range_witness:
  "\<exists>r. sensitivity_score [Some (flit 100 1), None, Some (flit 50 1)] = Inr r \<and>
    (case r of None \<Rightarrow> False | Some x \<Rightarrow> f_le f_zero x \<and> f_le x (flit 1 1))"
proof -
  have c: "clean_latency (flit 100 1)" "clean_latency (flit 50 1)" and z: "\<not> f_is_zero (flit 100 1)"
    unfolding clean_latency_def
    using is_int_val_wf [OF flit_val [of 100]] is_int_val_wf [OF flit_val [of 50]] lit_100_50 by simp_all
  show ?thesis
    using sensitivity_score_range [of "[Some (flit 100 1), None, Some (flit 50 1)]"] c z
    by (fastforce split: option.splits)
qed

section \<open>The shape of the sweep\<close>

lemma sweep_point_keys:
  "sweep_point ft_by project_e m b = Inr (mm, rows) \<Longrightarrow>
     map (\<lambda>r. (sw_address_mapping r, sw_bank_count r, sw_workload r)) rows = map (\<lambda>w. (m, b, w)) ALL_WORKLOADS"
  unfolding sweep_point_def by (auto simp: bindR_eq_Inr simp del: mapR.simps split: prod.splits
      elim!: mapR_map_eq) (auto simp: result_simps Let_def)

lemma summary_row_for_attribution:
  "summary_row_for ft_by m_by sens_by w = Inr s \<Longrightarrow> sr_attribution s = attribution_for (sr_features s) (sr_metrics s)"
  by (auto simp: summary_row_for_def bindR_eq_Inr Let_def)

lemma add_sweep_delta_pct_rows:
  assumes "add_sweep_delta_pct rows = Inr out"
  shows "length out = length rows" and "i < length rows \<Longrightarrow> \<exists>d. out ! i = (rows ! i)\<lparr>sw_delta_pct := d\<rparr> \<and>
    delta_pct (case baselines rows (sw_workload (rows ! i)) of None \<Rightarrow> None | Some b \<Rightarrow> b)
         (m_p95_latency_ns (sw_metrics (rows ! i))) = Inr d"
  using assms by (auto simp: add_sweep_delta_pct_def result_simps list_all2_conv_all_nth)

lemma baselines_of_baseline:
  "r \<in> set rows \<Longrightarrow> is_baseline r \<Longrightarrow>
     (\<And>r'. r' \<in> set rows \<Longrightarrow> is_baseline r' \<Longrightarrow> sw_workload r' = sw_workload r \<Longrightarrow> r' = r) \<Longrightarrow>
     baselines rows (sw_workload r) = Some (m_p95_latency_ns (sw_metrics r))"
proof (induction rows rule: rev_induct)
  case (snoc x xs)
  have step: "baselines (xs @ [x]) = (if is_baseline x
     then (baselines xs)(sw_workload x \<mapsto> m_p95_latency_ns (sw_metrics x)) else baselines xs)"
    by (simp add: baselines_def)
  show ?case
  proof (cases "is_baseline x \<and> sw_workload x = sw_workload r")
    case True
    then have "x = r" using snoc.prems(3) [of x] by simp
    then show ?thesis using True step by simp
  next
    case False
    then have "r \<in> set xs" using snoc.prems(1,2) by auto
    then have "baselines xs (sw_workload r) = Some (m_p95_latency_ns (sw_metrics r))"
      using snoc by auto
    then show ?thesis using False by (auto simp: step)
  qed
qed simp

lemma delta_pct_self:
  assumes "clean_latency p" and "\<not> f_is_zero p"
  shows "\<exists>d. delta_pct (Some p) (Some p) = Inr (Some d) \<and> f_is_zero d"
proof -
  obtain m e where p: "p = Fin False m e" "0 < m" using assms by (auto simp: clean_latency_def)
  obtain u where "rounds_to u \<bar>0\<bar> (f_sub p p)"
    using f_add_rounds [of m m False e True e] p(2) by (auto simp: f_sub_def p(1))
  then obtain a b where d: "f_sub p p = Fin u a b" "0 \<le> a" "mag a b = 0"
    using rounds_int [of u 0 "f_sub p p"] by auto
  then have a: "a = 0" using mag_eq_zero by auto
  obtain v k f where h: "flit 100 1 = Fin v k f" "0 \<le> k" using flit_val [of 100] by (auto simp: is_int_val_def)
  have "rounds_to (v \<noteq> u) (mag k f * mag a b) (f_mul (flit 100 1) (f_sub p p))"
    unfolding h(1) d(1) by (rule f_mul_rounds) (use h d in simp_all)
  then obtain c g where q: "f_mul (flit 100 1) (f_sub p p) = Fin (v \<noteq> u) c g" "0 \<le> c" "mag c g = 0"
    using rounds_int [of "v \<noteq> u" 0 "f_mul (flit 100 1) (f_sub p p)"] d(3) by auto
  have "rounds_to (v \<noteq> u) (mag c g / mag m e) (div_fin (v \<noteq> u) c g m e)"
    by (rule div_fin_rounds) (use q p in simp_all)
  then obtain x y where z: "div_fin (v \<noteq> u) c g m e = Fin (v \<noteq> u) x y" "0 \<le> x" "mag x y = 0"
    using rounds_int [of "v \<noteq> u" 0 "div_fin (v \<noteq> u) c g m e"] q(3) by auto
  then have "f_is_zero (div_fin (v \<noteq> u) c g m e)" using mag_eq_zero by auto
  moreover have "f_div (f_mul (flit 100 1) (f_sub p p)) p = Inr (div_fin (v \<noteq> u) c g m e)"
    unfolding q(1) using p(2) by (auto simp: p(1))
  ultimately show ?thesis using assms(2) by (auto simp: delta_pct_def)
qed

lemma run_sweep_rows:
  assumes "run_sweep ft_by project_e = Inr (rows, srs)"
  shows "map (\<lambda>r. (sw_address_mapping r, sw_bank_count r, sw_workload r)) rows =
      concat (map (\<lambda>(m, b). map (\<lambda>w. (m, b, w)) ALL_WORKLOADS) sweep_points) \<and>
    length srs = length ALL_WORKLOADS \<and>
    (\<forall>s \<in> set srs. sr_attribution s = attribution_for (sr_features s) (sr_metrics s)) \<and>
    (\<forall>r \<in> set rows. \<forall>p. is_baseline r \<longrightarrow> m_p95_latency_ns (sw_metrics r) = Some p \<longrightarrow>
       clean_latency p \<longrightarrow> \<not> f_is_zero p \<longrightarrow> (\<exists>d. sw_delta_pct r = Some d \<and> f_is_zero d))"
proof -
  let ?key = "\<lambda>r. (sw_address_mapping r, sw_bank_count r, sw_workload r)"
  let ?keys = "concat (map (\<lambda>(m, b). map (\<lambda>w. (m, b, w)) ALL_WORKLOADS) sweep_points)"
  obtain runs bm sens where runs: "mapR (\<lambda>(m, b). bindR (sweep_point ft_by project_e m b) (\<lambda>r. Inr ((m, b), r))) sweep_points = Inr runs"
    and add: "add_sweep_delta_pct (concat (map (snd \<circ> snd) runs)) = Inr rows"
    and srs: "k_build_summary_rows ft_by bm sens = Inr srs"
    using assms unfolding run_sweep_def by (auto simp: bindR_eq_Inr split: prod.splits)
  have "map (\<lambda>x. map ?key (snd (snd x))) runs = map (\<lambda>(m, b). map (\<lambda>w. (m, b, w)) ALL_WORKLOADS) sweep_points"
    by (rule mapR_map_eq [OF runs]) (auto simp: bindR_eq_Inr dest: sweep_point_keys)
  then have k0: "map ?key (concat (map (snd \<circ> snd) runs)) = ?keys"
    by (simp add: map_concat comp_def)
  let ?rows = "concat (map (snd \<circ> snd) runs)"
  note out = add_sweep_delta_pct_rows [OF add]
  have "map ?key rows = map ?key ?rows"
    using out by (intro nth_equalityI) (auto, (metis (no_types, lifting) sweep_row.select_convs sweep_row.surjective sweep_row.update_convs)+)
  with k0 have k: "map ?key rows = ?keys" by simp
  have "distinct ?keys" by code_simp
  then have dist: "distinct (map ?key ?rows)" using k0 by simp
  have "\<exists>d. sw_delta_pct r = Some d \<and> f_is_zero d"
    if r: "r \<in> set rows" "is_baseline r" "m_p95_latency_ns (sw_metrics r) = Some p"
      "clean_latency p" "\<not> f_is_zero p" for r p
  proof -
    obtain i where i: "i < length ?rows" "r = rows ! i" using r(1) out(1) by (metis in_set_conv_nth)
    let ?q = "?rows ! i"
    obtain d where d: "r = ?q\<lparr>sw_delta_pct := d\<rparr>"
      "delta_pct (case baselines ?rows (sw_workload ?q) of None \<Rightarrow> None | Some b \<Rightarrow> b)
         (m_p95_latency_ns (sw_metrics ?q)) = Inr d" using out(2) [OF i(1)] i(2) by auto
    have q: "is_baseline ?q" "m_p95_latency_ns (sw_metrics ?q) = Some p"
      using r(2,3) by (simp_all add: d(1) is_baseline_def)
    have "baselines ?rows (sw_workload ?q) = Some (m_p95_latency_ns (sw_metrics ?q))"
    proof (rule baselines_of_baseline)
      fix r' assume "r' \<in> set ?rows" "is_baseline r'" "sw_workload r' = sw_workload ?q"
      then show "r' = ?q"
        using dist q(1) nth_mem [OF i(1)] by (intro inj_onD [of ?key "set ?rows"])
          (simp_all add: distinct_map is_baseline_def)
    qed (use q nth_mem [OF i(1)] in simp_all)
    then show ?thesis using d q delta_pct_self [OF r(4,5)] by auto
  qed
  moreover have "length srs = length ALL_WORKLOADS" "\<forall>s \<in> set srs. sr_attribution s = attribution_for (sr_features s) (sr_metrics s)"
    using mapR_length [OF srs [unfolded k_build_summary_rows_def]]
      mapR_mem [OF srs [unfolded k_build_summary_rows_def]] by (simp, meson summary_row_for_attribution)
  ultimately show ?thesis using k by blast
qed

text \<open>What the rows of the sweep and of the summary hold.\<close>

lemma metrics_of_row_workload: "metrics_of_row tr row = Inr m \<Longrightarrow> m_workload m = row_get_default row ''workload''"
  by (auto simp: metrics_of_row_def bindR_eq_Inr Let_def)

lemma dict_set_mem: "(k, v) \<in> set (dict_set d k' v') \<Longrightarrow> (k, v) = (k', v') \<or> (k, v) \<in> set d"
  by (induction d) (auto split: if_splits)

lemma metrics_from_rows:
  "metrics_from traces acc rows = Inr out \<Longrightarrow> (k, m) \<in> set out \<Longrightarrow>
     (k, m) \<in> set acc \<or> (\<exists>tr row. metrics_of_row tr row = Inr m \<and> k = row_get_default row ''workload'')"
proof (induction rows arbitrary: acc)
  case (Cons row rows)
  obtain m' tr where m: "metrics_of_row tr row = Inr m'"
    "metrics_from traces (dict_set acc (row_get_default row ''workload'') m') rows = Inr out"
    using Cons.prems(1) by (auto simp: bindR_eq_Inr Let_def)
  from Cons.IH [OF m(2) Cons.prems(2)] show ?case
    using m(1) by (auto dest!: dict_set_mem)
qed simp

lemma summarized_row:
  "summarize_model_metrics srows trows = Inr mm \<Longrightarrow> map_of mm k = Some m \<Longrightarrow>
     m_workload m = k \<and> (\<exists>tr row. metrics_of_row tr row = Inr m)"
  using metrics_from_rows [of "group_trace_rows trows" "[]" srows mm k m] map_of_SomeD [of mm k m]
  by (auto simp: summarize_model_metrics_def dest: metrics_of_row_workload)

lemma sweep_point_rows:
  "sweep_point ft_by project_e mp b = Inr (mm, rows) \<Longrightarrow> r \<in> set rows \<Longrightarrow>
     \<exists>ft. sw_primary_bottleneck r = a_primary_bottleneck (attribution_for ft (sw_metrics r)) \<and>
       sw_confidence r = a_confidence (attribution_for ft (sw_metrics r))"
  unfolding sweep_point_def
  by (auto simp: bindR_eq_Inr Let_def opt_or_raise_eq_Inr simp del: mapR.simps split: prod.splits dest!: mapR_mem)
    blast

lemma sweep_point_metrics:
  "sweep_point ft_by project_e mp b = Inr (mm, rows) \<Longrightarrow> map_of mm k = Some m \<Longrightarrow>
     m_workload m = k \<and> (\<exists>tr row. metrics_of_row tr row = Inr m)"
  unfolding sweep_point_def
  by (auto simp: bindR_eq_Inr simp del: mapR.simps split: prod.splits dest: summarized_row)

lemma run_sweep_row_contents:
  assumes "run_sweep ft_by project_e = Inr (rows, srs)"
  shows "\<forall>r \<in> set rows. \<exists>ft. sw_primary_bottleneck r = a_primary_bottleneck (attribution_for ft (sw_metrics r)) \<and>
       sw_confidence r = a_confidence (attribution_for ft (sw_metrics r))"
    and "\<forall>s \<in> set srs. \<exists>w \<in> set ALL_WORKLOADS. \<exists>ft. m_workload (sr_metrics s) = Some w \<and> ft_by w = Some ft \<and>
       f_pattern_class (sr_features s) = f_pattern_class ft \<and> (\<exists>tr row. metrics_of_row tr row = Inr (sr_metrics s))"
proof -
  obtain runs bm brows sens where runs: "mapR (\<lambda>(m, b). bindR (sweep_point ft_by project_e m b) (\<lambda>r. Inr ((m, b), r))) sweep_points = Inr runs"
    and base: "map_of (rev runs) baseline_point = Some (bm, brows)"
    and add: "add_sweep_delta_pct (concat (map (snd \<circ> snd) runs)) = Inr rows"
    and srs: "k_build_summary_rows ft_by (map_of bm) (map_of sens) = Inr srs"
    using assms unfolding run_sweep_def by (auto simp: bindR_eq_Inr opt_or_raise_eq_Inr split: prod.splits)
  have pt: "\<exists>m b. sweep_point ft_by project_e m b = Inr (snd x)" if "x \<in> set runs" for x
    using mapR_mem [OF runs that] by (auto simp: bindR_eq_Inr) blast
  have old: "\<exists>ft. sw_primary_bottleneck r = a_primary_bottleneck (attribution_for ft (sw_metrics r)) \<and>
       sw_confidence r = a_confidence (attribution_for ft (sw_metrics r))"
    if r: "r \<in> set (concat (map (snd \<circ> snd) runs))" for r
  proof -
    obtain x where x: "x \<in> set runs" "r \<in> set (snd (snd x))" using r by auto
    obtain m b where "sweep_point ft_by project_e m b = Inr (fst (snd x), snd (snd x))" using pt [OF x(1)] by auto
    then show ?thesis using sweep_point_rows x(2) by blast
  qed
  show "\<forall>r \<in> set rows. \<exists>ft. sw_primary_bottleneck r = a_primary_bottleneck (attribution_for ft (sw_metrics r)) \<and>
       sw_confidence r = a_confidence (attribution_for ft (sw_metrics r))"
  proof
    fix r assume "r \<in> set rows"
    then obtain i where i: "i < length (concat (map (snd \<circ> snd) runs))" "r = rows ! i"
      using add_sweep_delta_pct_rows(1) [OF add] by (metis in_set_conv_nth)
    then obtain d where "r = (concat (map (snd \<circ> snd) runs) ! i)\<lparr>sw_delta_pct := d\<rparr>"
      using add_sweep_delta_pct_rows(2) [OF add i(1)] by blast
    then show "\<exists>ft. sw_primary_bottleneck r = a_primary_bottleneck (attribution_for ft (sw_metrics r)) \<and>
       sw_confidence r = a_confidence (attribution_for ft (sw_metrics r))"
      using old [OF nth_mem [OF i(1)]] by simp
  qed
  have "(baseline_point, bm, brows) \<in> set runs" using map_of_SomeD [OF base] by simp
  then obtain m b where "sweep_point ft_by project_e m b = Inr (bm, brows)" using pt by fastforce
  note key = sweep_point_metrics [OF this]
  show "\<forall>s \<in> set srs. \<exists>w \<in> set ALL_WORKLOADS. \<exists>ft. m_workload (sr_metrics s) = Some w \<and> ft_by w = Some ft \<and>
       f_pattern_class (sr_features s) = f_pattern_class ft \<and> (\<exists>tr row. metrics_of_row tr row = Inr (sr_metrics s))"
  proof
    fix s assume "s \<in> set srs"
    then obtain w where w: "w \<in> set ALL_WORKLOADS" "summary_row_for ft_by (map_of bm) (map_of sens) w = Inr s"
      using mapR_mem [OF srs [unfolded k_build_summary_rows_def]] by blast
    then obtain ft m where "ft_by w = Some ft" "map_of bm (Some w) = Some m" "sr_metrics s = m"
      "f_pattern_class (sr_features s) = f_pattern_class ft"
      by (auto simp: summary_row_for_def bindR_eq_Inr opt_or_raise_eq_Inr Let_def split: option.splits prod.splits)
    then show "\<exists>w \<in> set ALL_WORKLOADS. \<exists>ft. m_workload (sr_metrics s) = Some w \<and> ft_by w = Some ft \<and>
       f_pattern_class (sr_features s) = f_pattern_class ft \<and> (\<exists>tr row. metrics_of_row tr row = Inr (sr_metrics s))"
      using w(1) key by blast
  qed
qed

text \<open>C32. A sweep that completes yields one row per mapping, bank count and workload, in that
  order, and one summary row per workload whose attribution is computed from the features and
  metrics of that row; and a baseline row differs from its own baseline by zero percent.\<close>

theorem run_sweep_shape:
  assumes "run_sweep ft_by project_e = Inr (rows, srs)"
  shows "map (\<lambda>r. (sw_address_mapping r, sw_bank_count r, sw_workload r)) rows =
      concat (map (\<lambda>(m, b). map (\<lambda>w. (m, b, w)) ALL_WORKLOADS) sweep_points) \<and>
    length srs = length ALL_WORKLOADS \<and>
    (\<forall>s \<in> set srs. sr_attribution s = attribution_for (sr_features s) (sr_metrics s)) \<and>
    (\<forall>r \<in> set rows. \<forall>p. is_baseline r \<longrightarrow> m_p95_latency_ns (sw_metrics r) = Some p \<longrightarrow>
       clean_latency p \<longrightarrow> \<not> f_is_zero p \<longrightarrow> (\<exists>d. sw_delta_pct r = Some d \<and> f_is_zero d))"
  by (rule run_sweep_rows [OF assms])

text \<open>A controller whose every run has one latency for each workload.\<close>

definition steady_run :: "string \<Rightarrow> int \<Rightarrow> (csv_row list \<times> csv_row list) result" where
  "steady_run mapping bank_count = Inr (map (\<lambda>w. \<lparr>cells = [(''workload'', Some w),
     (''p95_latency_ns'', Some ''8.000'')], extra = False\<rparr>) ALL_WORKLOADS, [])"

text \<open>The sweep divides only where the divisor is not zero, so it fails only for lack of data.\<close>

lemma delta_pct_total: "\<exists>d. delta_pct b p = Inr d"
  using f_div_total by (fastforce simp: delta_pct_def bindR_eq_Inr split: option.splits)

lemma sensitivity_score_total: "\<exists>r. sensitivity_score vs = Inr r"
proof (cases "length (List.map_filter (\<lambda>v. v) vs) < 2")
  case False
  then have "List.map_filter (\<lambda>v. v) vs \<noteq> []" by auto
  then obtain h l where "py_max (List.map_filter (\<lambda>v. v) vs) = Inr h" "py_min (List.map_filter (\<lambda>v. v) vs) = Inr l"
    using py_max_total py_min_total by blast
  then show ?thesis using f_div_total [of h "f_sub h l"] False
    by (auto simp: sensitivity_score_def Let_def)
qed (simp add: sensitivity_score_def Let_def)

lemma compute_sensitivity_total: "\<exists>sens. compute_sensitivity_by_workload rows = Inr sens"
  unfolding compute_sensitivity_by_workload_def
proof (rule mapR_total)
  fix x :: "string \<times> sweep_row list"
  obtain w rs where x: "x = (w, rs)" by (cases x)
  obtain p where p: "sensitivity_score (map (\<lambda>r. m_p95_latency_ns (sw_metrics r))
    (filter (\<lambda>r. sw_bank_count r = BANK_COUNT_SWEEP ! 0) rs)) = Inr p" using sensitivity_score_total by blast
  obtain q where q: "sensitivity_score (map (\<lambda>r. m_p95_latency_ns (sw_metrics r))
    (filter (\<lambda>r. sw_address_mapping r = DEFAULT_ADDRESS_MAPPING) rs)) = Inr q" using sensitivity_score_total by blast
  show "\<exists>y. (case x of (w, rs) \<Rightarrow> bindR (sensitivity_score (map (\<lambda>r. m_p95_latency_ns (sw_metrics r))
         (filter (\<lambda>r. sw_bank_count r = BANK_COUNT_SWEEP ! 0) rs))) (\<lambda>mapping.
       bindR (sensitivity_score (map (\<lambda>r. m_p95_latency_ns (sw_metrics r))
         (filter (\<lambda>r. sw_address_mapping r = DEFAULT_ADDRESS_MAPPING) rs))) (\<lambda>banks.
       Inr (w, (mapping, banks))))) = Inr y"
    by (simp add: x p q)
qed

lemma run_sweep_total:
  assumes ft: "\<forall>w \<in> set ALL_WORKLOADS. ft_by w \<noteq> None"
    and runs: "\<forall>m \<in> set ADDRESS_MAPPING_SWEEP. \<forall>b \<in> set BANK_COUNT_SWEEP. \<exists>srows trows mm.
      project_e m b = Inr (srows, trows) \<and> summarize_model_metrics srows trows = Inr mm \<and>
      (\<forall>w \<in> set ALL_WORKLOADS. map_of mm (Some w) \<noteq> None)"
  shows "\<exists>rows srs. run_sweep ft_by project_e = Inr (rows, srs)"
proof -
  have point: "\<exists>mm rows. sweep_point ft_by project_e m b = Inr (mm, rows) \<and> (\<forall>w \<in> set ALL_WORKLOADS. map_of mm (Some w) \<noteq> None)"
    if mb: "m \<in> set ADDRESS_MAPPING_SWEEP" "b \<in> set BANK_COUNT_SWEEP" for m b
  proof -
    obtain srows trows mm where e: "project_e m b = Inr (srows, trows)" "summarize_model_metrics srows trows = Inr mm"
      "\<forall>w \<in> set ALL_WORKLOADS. map_of mm (Some w) \<noteq> None" using runs mb by blast
    have "\<exists>rows. mapR (\<lambda>w.
       bindR (opt_or_raise (ft_by w) (KeyError w)) (\<lambda>ft.
       bindR (opt_or_raise (map_of mm (Some w)) (KeyError w)) (\<lambda>m'.
       let a = attribution_for ft m' in
       Inr \<lparr>sw_workload = w, sw_bank_count = b, sw_address_mapping = m, sw_metrics = m',
            sw_primary_bottleneck = a_primary_bottleneck a, sw_confidence = a_confidence a,
            sw_delta_pct = None\<rparr>))) ALL_WORKLOADS = Inr rows"
      using ft e(3) by (intro mapR_total) (fastforce simp: opt_or_raise_def Let_def split: option.splits)
    then show ?thesis using e by (auto simp: sweep_point_def)
  qed
  let ?run = "\<lambda>(m, b). bindR (sweep_point ft_by project_e m b) (\<lambda>r. Inr ((m, b), r))"
  have pts: "(m, b) \<in> set sweep_points \<longleftrightarrow> m \<in> set ADDRESS_MAPPING_SWEEP \<and> b \<in> set BANK_COUNT_SWEEP" for m b
    by (auto simp: sweep_points_def)
  obtain rs where rs: "mapR ?run sweep_points = Inr rs"
    using mapR_total [of sweep_points ?run] point pts by (fastforce simp: bindR_eq_Inr)
  have base: "baseline_point \<in> set sweep_points" by code_simp
  have keys: "map fst rs = map id sweep_points" by (rule mapR_map_eq [OF rs]) (auto simp: bindR_eq_Inr)
  then have "baseline_point \<in> fst ` set (rev rs)" using base by (metis list.map_id list.set_map set_rev)
  then obtain r where r: "map_of (rev rs) baseline_point = Some r" by (metis map_of_eq_None_iff not_Some_eq)
  have "(baseline_point, r) \<in> set rs" using map_of_SomeD [OF r] by simp
  then obtain m b where mb: "(m, b) \<in> set sweep_points" "sweep_point ft_by project_e m b = Inr r"
    using mapR_mem [OF rs] by (fastforce simp: bindR_eq_Inr)
  then obtain bm brows where r': "r = (bm, brows)" "\<forall>w \<in> set ALL_WORKLOADS. map_of bm (Some w) \<noteq> None"
    using point [of m b] pts by auto
  obtain rows where rows: "add_sweep_delta_pct (concat (map (snd \<circ> snd) rs)) = Inr rows"
    unfolding add_sweep_delta_pct_def using delta_pct_total
    by (metis (no_types, lifting) bindR_Inr mapR_total)
  obtain sens where sens: "compute_sensitivity_by_workload rows = Inr sens"
    using compute_sensitivity_total by blast
  have "\<exists>srs. k_build_summary_rows ft_by (map_of bm) (map_of sens) = Inr srs"
    unfolding k_build_summary_rows_def
    using ft r'(2) by (intro mapR_total) (fastforce simp: summary_row_for_def opt_or_raise_def Let_def split: option.splits)
  then show ?thesis using rs r r'(1) rows sens by (auto simp: run_sweep_def opt_or_raise_def)
qed

lemma steady_run_sweeps: "\<exists>rows srs. run_sweep (\<lambda>w. Some quiet_features) steady_run = Inr (rows, srs)"
proof (rule run_sweep_total)
  define srows where "srows = map (\<lambda>w. \<lparr>cells = [(''workload'', Some w),
     (''p95_latency_ns'', Some ''8.000'')], extra = False\<rparr>) ALL_WORKLOADS"
  have "case summarize_model_metrics (map (\<lambda>w. \<lparr>cells = [(''workload'', Some w),
     (''p95_latency_ns'', Some ''8.000'')], extra = False\<rparr>) ALL_WORKLOADS) [] of
       Inl _ \<Rightarrow> False | Inr mm \<Rightarrow> list_all (\<lambda>w. map_of mm (Some w) \<noteq> None) ALL_WORKLOADS" by code_simp
  then obtain mm where "summarize_model_metrics srows [] = Inr mm" "\<forall>w \<in> set ALL_WORKLOADS. map_of mm (Some w) \<noteq> None"
    unfolding srows_def [symmetric] by (auto simp: list_all_iff split: sum.splits)
  then show "\<forall>m \<in> set ADDRESS_MAPPING_SWEEP. \<forall>b \<in> set BANK_COUNT_SWEEP. \<exists>srows trows mm.
      steady_run m b = Inr (srows, trows) \<and> summarize_model_metrics srows trows = Inr mm \<and>
      (\<forall>w \<in> set ALL_WORKLOADS. map_of mm (Some w) \<noteq> None)"
    unfolding steady_run_def srows_def [symmetric] by auto
qed simp

theorem run_sweep_shape_witness:
  "\<exists>rows srs. run_sweep (\<lambda>w. Some quiet_features) steady_run = Inr (rows, srs) \<and> length rows = 45 \<and>
     length srs = 5"
proof -
  obtain rows srs where r: "run_sweep (\<lambda>w. Some quiet_features) steady_run = Inr (rows, srs)"
    using steady_run_sweeps by blast
  from run_sweep_shape [OF r] have k: "map (\<lambda>r. (sw_address_mapping r, sw_bank_count r, sw_workload r)) rows =
      concat (map (\<lambda>(m, b). map (\<lambda>w. (m, b, w)) ALL_WORKLOADS) sweep_points)" "length srs = length ALL_WORKLOADS"
    by blast+
  have "length (concat (map (\<lambda>(m, b). map (\<lambda>w. (m, b, w)) ALL_WORKLOADS) sweep_points)) = 45"
    "length ALL_WORKLOADS = 5" by code_simp+
  then show ?thesis using r k by (metis length_map)
qed

end
