(* ===== verification/L_Recommend.thy ===== *)
theory L_Recommend
  imports K_Attribution
begin

text \<open>
  \<open>examples/lt/tools/demo_project_k_workload_bottleneck_lab.py\<close>, fourth part (Project L): the
  best point of the sweep for each workload, the four signals, the recommended action and its
  priority, the recommendation rows, their report and the acceptance check.  A summary row
  holds its metrics as floats, so \<open>metric_value\<close> is the identity on them; the integers go
  through \<open>parse_int_value\<close> as in the source.
\<close>

section \<open>Thresholds\<close>

definition PROJECT_L_BANK_CONFLICT_SIGNAL_HIGH :: pyfloat where "PROJECT_L_BANK_CONFLICT_SIGNAL_HIGH = flit 65 100"
definition PROJECT_L_BANK_CONFLICT_SIGNAL_MEDIUM :: pyfloat where "PROJECT_L_BANK_CONFLICT_SIGNAL_MEDIUM = flit 35 100"
definition PROJECT_L_QUEUEING_SIGNAL_HIGH :: pyfloat where "PROJECT_L_QUEUEING_SIGNAL_HIGH = flit 60 100"
definition PROJECT_L_QUEUEING_SIGNAL_MEDIUM :: pyfloat where "PROJECT_L_QUEUEING_SIGNAL_MEDIUM = flit 25 100"
definition PROJECT_L_SERVICE_SIGNAL_HIGH :: pyfloat where "PROJECT_L_SERVICE_SIGNAL_HIGH = flit 65 100"
definition PROJECT_L_SERVICE_SIGNAL_MEDIUM :: pyfloat where "PROJECT_L_SERVICE_SIGNAL_MEDIUM = flit 40 100"
definition PROJECT_L_BANK_COUNT_SENSITIVITY_HIGH :: pyfloat where "PROJECT_L_BANK_COUNT_SENSITIVITY_HIGH = flit 25 100"
definition PROJECT_L_MAPPING_SENSITIVITY_HIGH :: pyfloat where "PROJECT_L_MAPPING_SENSITIVITY_HIGH = flit 25 100"
definition PROJECT_L_DECISION_MARGIN :: pyfloat where "PROJECT_L_DECISION_MARGIN = flit 20 100"

definition PROJECT_L_ALLOWED_RECOMMENDED_ACTIONS :: "string list" where
  "PROJECT_L_ALLOWED_RECOMMENDED_ACTIONS = [''increase_bank_parallelism'', ''change_address_mapping'',
     ''improve_locality_or_tiling'', ''reduce_queueing_pressure'', ''reduce_target_service_latency'',
     ''keep_observing_low_confidence'', ''no_single_dominant_action'']"

definition PROJECT_L_ALLOWED_RECOMMENDATION_PRIORITIES :: "string list" where
  "PROJECT_L_ALLOWED_RECOMMENDATION_PRIORITIES = [''high'', ''medium'', ''low'']"

definition PROJECT_L_CLAIM_BOUNDARY :: string where
  "PROJECT_L_CLAIM_BOUNDARY = ''PASS''"

section \<open>The best point of the sweep\<close>

text \<open>\<open>parse_int_value\<close> of an integer or \<open>None\<close>: through its text.\<close>

definition int_value :: "int option \<Rightarrow> int option result" where
  "int_value v = k_parse_int (map_option str_int v)"

definition mapping_rank :: "string \<Rightarrow> int" where
  "mapping_rank m =
     (if m \<in> set ADDRESS_MAPPING_SWEEP then int (length (takeWhile (\<lambda>x. x \<noteq> m) ADDRESS_MAPPING_SWEEP))
      else int (length ADDRESS_MAPPING_SWEEP))"

text \<open>
  The sort key; a bank count of \<open>None\<close> counts as \<open>math.inf\<close>.  Tuples are compared at the
  first place where they differ.
\<close>

type_synonym sweep_tuple = "pyfloat \<times> pyfloat \<times> int option \<times> int"

definition sweep_key :: "sweep_row \<Rightarrow> sweep_tuple result" where
  "sweep_key row =
     bindR (int_value (Some (sw_bank_count row))) (\<lambda>bank_count.
     Inr (case m_p95_latency_ns (sw_metrics row) of None \<Rightarrow> FInf False | Some x \<Rightarrow> x,
          case m_avg_latency_ns (sw_metrics row) of None \<Rightarrow> FInf False | Some x \<Rightarrow> x,
          bank_count, mapping_rank (sw_address_mapping row)))"

definition bank_lt :: "int option \<Rightarrow> int option \<Rightarrow> bool" where
  "bank_lt a b = (case (a, b) of (Some x, Some y) \<Rightarrow> x < y | (Some x, None) \<Rightarrow> True | _ \<Rightarrow> False)"

fun sweep_key_lt :: "sweep_tuple \<Rightarrow> sweep_tuple \<Rightarrow> bool" where
  "sweep_key_lt (p, a, b, m) (p', a', b', m') =
     (if \<not> f_eq p p' then f_lt p p' else if \<not> f_eq a a' then f_lt a a'
      else if b \<noteq> b' then bank_lt b b' else m < m')"

record best_knobs =
  bank_count_best :: "int option"
  address_mapping_best :: string

definition keyed_lt :: "sweep_tuple \<times> sweep_row \<Rightarrow> sweep_tuple \<times> sweep_row \<Rightarrow> bool" where
  "keyed_lt x y = sweep_key_lt (fst x) (fst y)"

definition best_sweep_row :: "sweep_row list \<Rightarrow> sweep_row result" where
  "best_sweep_row rows =
     bindR (mapR (\<lambda>r. bindR (sweep_key r) (\<lambda>k. Inr (k, r))) rows) (\<lambda>keyed.
     Inr (snd (min_from keyed_lt (hd keyed) (tl keyed))))"

definition project_l_best_sweep_by_workload :: "sweep_row list \<Rightarrow> (string \<times> best_knobs) list result" where
  "project_l_best_sweep_by_workload sweep_rows =
     mapR (\<lambda>(workload, rows). bindR (best_sweep_row rows) (\<lambda>best_row.
         bindR (int_value (Some (sw_bank_count best_row))) (\<lambda>n.
         Inr (workload, \<lparr>bank_count_best = n, address_mapping_best = sw_address_mapping best_row\<rparr>))))
       (filter (\<lambda>(workload, rows). workload \<noteq> [] \<and> rows \<noteq> []) (group_by sw_workload sweep_rows))"

section \<open>Signals\<close>

definition project_l_bank_conflict_signal :: "summary_row \<Rightarrow> string" where
  "project_l_bank_conflict_signal row =
     (let proxy = m_bank_conflict_proxy (sr_metrics row);
          concentrated_trace = has_high (f_max_bank_share (sr_features row)) MAX_BANK_SHARE_HIGH
            \<and> has_low (f_bank_entropy (sr_features row)) BANK_ENTROPY_LOW in
      if has_high proxy PROJECT_L_BANK_CONFLICT_SIGNAL_HIGH then ''high''
      else if concentrated_trace \<or> has_high proxy PROJECT_L_BANK_CONFLICT_SIGNAL_MEDIUM then ''medium''
      else ''low'')"

definition at_least :: "int option \<Rightarrow> int \<Rightarrow> bool" where
  "at_least v n = (case v of None \<Rightarrow> False | Some x \<Rightarrow> n \<le> x)"

definition project_l_queueing_signal :: "summary_row \<Rightarrow> string result" where
  "project_l_queueing_signal row =
     (let ratio = m_queue_delay_ratio (sr_metrics row) in
      bindR (int_value (m_max_queue_occupancy (sr_metrics row))) (\<lambda>max_queue.
      bindR (int_value (m_stalled_or_rejected (sr_metrics row))) (\<lambda>rejected.
      Inr (if has_high ratio PROJECT_L_QUEUEING_SIGNAL_HIGH \<or> at_least max_queue 8 \<or> at_least rejected 1
           then ''high''
           else if has_high ratio PROJECT_L_QUEUEING_SIGNAL_MEDIUM \<or> at_least max_queue MAX_QUEUE_OCCUPANCY_HIGH
           then ''medium'' else ''low''))))"

definition project_l_service_signal :: "summary_row \<Rightarrow> string" where
  "project_l_service_signal row =
     (let ratio = m_service_delay_ratio (sr_metrics row) in
      if has_high ratio PROJECT_L_SERVICE_SIGNAL_HIGH then ''high''
      else if has_high ratio PROJECT_L_SERVICE_SIGNAL_MEDIUM then ''medium'' else ''low'')"

definition project_l_locality_signal :: "summary_row \<Rightarrow> string" where
  "project_l_locality_signal row =
     (let ft = sr_features row; seq = Some (f_sequentiality_score ft);
          weak_low_reuse = has_low (f_reuse_ratio ft) REUSE_RATIO_LOW \<and> has_low seq PHASE_LOCALITY_LOW;
          weak_phase = has_low (f_phase_locality_score ft) PHASE_LOCALITY_LOW;
          weak_reuse_distance = has_high (f_avg_reuse_distance ft) (flit 16 1) in
      if weak_low_reuse \<or> weak_phase \<or> weak_reuse_distance then ''weak''
      else if has_low (f_reuse_ratio ft) (flit 50 100) \<or> has_low seq (flit 50 100)
        \<or> has_low (f_phase_locality_score ft) (flit 50 100)
        \<or> has_high (f_avg_reuse_distance ft) (flit 4 1) then ''mixed''
      else ''strong'')"

record signals =
  locality_signal :: string
  queueing_signal :: string
  service_signal :: string
  bank_conflict_signal :: string

section \<open>Actions\<close>

definition row_confidence :: "summary_row \<Rightarrow> string" where
  "row_confidence row = a_confidence (sr_attribution row)"

text \<open>The float difference \<open>a - b\<close> of two present ratios reaches the decision margin.\<close>

definition exceeds_by_margin :: "pyfloat option \<Rightarrow> pyfloat option \<Rightarrow> bool" where
  "exceeds_by_margin a b = (case (a, b) of
     (Some x, Some y) \<Rightarrow> f_le PROJECT_L_DECISION_MARGIN (f_sub x y) | _ \<Rightarrow> False)"

definition project_l_action_for :: "summary_row \<Rightarrow> best_knobs \<Rightarrow> signals \<Rightarrow> string" where
  "project_l_action_for row best sg =
     (let queue = m_queue_delay_ratio (sr_metrics row); service = m_service_delay_ratio (sr_metrics row) in
      if row_confidence row = ''low'' then ''keep_observing_low_confidence''
      else if bank_conflict_signal sg = ''high''
        \<and> has_high (f_bank_count_sensitivity_score (sr_features row)) PROJECT_L_BANK_COUNT_SENSITIVITY_HIGH
        \<and> bank_count_best best \<noteq> None \<and> bank_count_best best \<noteq> Some (BANK_COUNT_SWEEP ! 0)
        then ''increase_bank_parallelism''
      else if has_high (f_mapping_sensitivity_score (sr_features row)) PROJECT_L_MAPPING_SENSITIVITY_HIGH
        \<and> address_mapping_best best \<noteq> [] \<and> address_mapping_best best \<noteq> DEFAULT_ADDRESS_MAPPING
        then ''change_address_mapping''
      else if locality_signal sg = ''weak'' then ''improve_locality_or_tiling''
      else if exceeds_by_margin queue service then ''reduce_queueing_pressure''
      else if exceeds_by_margin service queue \<and> bank_conflict_signal sg = ''low''
        then ''reduce_target_service_latency''
      else ''no_single_dominant_action'')"

definition project_l_recommendation_priority :: "string \<Rightarrow> summary_row \<Rightarrow> signals \<Rightarrow> string" where
  "project_l_recommendation_priority action row sg =
     (if action = ''keep_observing_low_confidence'' \<or> action = ''no_single_dominant_action'' then ''low''
      else if row_confidence row \<noteq> ''high'' then ''medium''
      else if action = ''increase_bank_parallelism''
        then if has_high (f_bank_count_sensitivity_score (sr_features row)) (flit 50 100) then ''high'' else ''medium''
      else if action = ''change_address_mapping''
        then if has_high (f_mapping_sensitivity_score (sr_features row)) (flit 50 100) then ''high'' else ''medium''
      else if action = ''reduce_queueing_pressure''
        then if has_high (m_queue_delay_ratio (sr_metrics row)) (flit 75 100) then ''high'' else ''medium''
      else if action = ''reduce_target_service_latency''
        then if has_high (m_service_delay_ratio (sr_metrics row)) (flit 75 100) then ''high'' else ''medium''
      else if action = ''improve_locality_or_tiling''
        then if locality_signal sg = ''weak'' then ''medium'' else ''low''
      else ''low'')"

definition project_l_evidence_summary :: "summary_row \<Rightarrow> best_knobs \<Rightarrow> signals \<Rightarrow> string" where
  "project_l_evidence_summary row best sg =
     ''bank_conflict_proxy='' @ fmt_float (m_bank_conflict_proxy (sr_metrics row)) @ ''; bank_count_sensitivity_score=''
     @ fmt_float (f_bank_count_sensitivity_score (sr_features row)) @ ''; mapping_sensitivity_score=''
     @ fmt_float (f_mapping_sensitivity_score (sr_features row)) @ ''; queue_delay_ratio=''
     @ fmt_float (m_queue_delay_ratio (sr_metrics row)) @ ''; service_delay_ratio=''
     @ fmt_float (m_service_delay_ratio (sr_metrics row)) @ ''; best=''
     @ fmt_int (bank_count_best best) @ ''/'' @ address_mapping_best best
     @ ''; signals=locality:'' @ locality_signal sg @ '',queueing:'' @ queueing_signal sg
     @ '',service:'' @ service_signal sg @ '',bank_conflict:'' @ bank_conflict_signal sg"

section \<open>Recommendation rows\<close>

record recommendation =
  rec_workload :: "string option"
  rec_pattern_class :: string
  rec_primary_bottleneck :: string
  rec_confidence :: string
  rec_recommended_action :: string
  rec_priority :: string
  rec_evidence_summary :: string
  rec_best :: best_knobs
  rec_bank_count_sensitivity_score :: "pyfloat option"
  rec_mapping_sensitivity_score :: "pyfloat option"
  rec_signals :: signals
  rec_claim_boundary :: string

definition best_of :: "(string \<times> best_knobs) list \<Rightarrow> string option \<Rightarrow> best_knobs" where
  "best_of best_by_workload workload =
     (case Option.bind workload (map_of best_by_workload) of
        None \<Rightarrow> \<lparr>bank_count_best = None, address_mapping_best = ''unknown''\<rparr> | Some b \<Rightarrow> b)"

definition signals_of :: "summary_row \<Rightarrow> signals result" where
  "signals_of row = bindR (project_l_queueing_signal row) (\<lambda>queueing.
     Inr \<lparr>locality_signal = project_l_locality_signal row, queueing_signal = queueing,
       service_signal = project_l_service_signal row,
       bank_conflict_signal = project_l_bank_conflict_signal row\<rparr>)"

definition recommendation_row :: "(string \<times> best_knobs) list \<Rightarrow> summary_row \<Rightarrow> recommendation result" where
  "recommendation_row best_by_workload row =
     (let best = best_of best_by_workload (m_workload (sr_metrics row)) in
      bindR (signals_of row) (\<lambda>sg.
      let action = project_l_action_for row best sg in
      Inr \<lparr>rec_workload = m_workload (sr_metrics row),
        rec_pattern_class = f_pattern_class (sr_features row),
        rec_primary_bottleneck = a_primary_bottleneck (sr_attribution row),
        rec_confidence = row_confidence row, rec_recommended_action = action,
        rec_priority = project_l_recommendation_priority action row sg,
        rec_evidence_summary = project_l_evidence_summary row best sg, rec_best = best,
        rec_bank_count_sensitivity_score = f_bank_count_sensitivity_score (sr_features row),
        rec_mapping_sensitivity_score = f_mapping_sensitivity_score (sr_features row),
        rec_signals = sg, rec_claim_boundary = PROJECT_L_CLAIM_BOUNDARY\<rparr>))"

definition build_project_l_recommendation_rows ::
  "summary_row list \<Rightarrow> sweep_row list \<Rightarrow> recommendation list result" where
  "build_project_l_recommendation_rows summary_rows sweep_rows =
     bindR (project_l_best_sweep_by_workload sweep_rows) (\<lambda>best_by_workload.
     mapR (recommendation_row best_by_workload) summary_rows)"


section \<open>The best point is best\<close>

definition clean_key :: "sweep_tuple \<times> sweep_row \<Rightarrow> bool" where
  "clean_key kr \<longleftrightarrow> not_nan (fst (fst kr)) \<and> not_nan (fst (snd (fst kr)))"

lemma float_weak_order: "weak_order f_lt not_nan"
  by (rule float_order.weak_order_axioms)

lemma f_eq_not_lt: "not_nan x \<Longrightarrow> not_nan y \<Longrightarrow> f_eq x y \<longleftrightarrow> \<not> f_lt x y \<and> \<not> f_lt y x"
  by (auto simp: f_eq_val f_lt_val not_nan_def)

lemma bank_weak_order: "weak_order bank_lt (\<lambda>_. True)"
  by unfold_locales (auto simp: bank_lt_def split: option.splits)

lemma bank_neq_lt: "a \<noteq> b \<longleftrightarrow> bank_lt a b \<or> bank_lt b a"
  by (auto simp: bank_lt_def split: option.splits)

lemma sweep_key_lt_lex:
  "not_nan (fst x) \<Longrightarrow> not_nan (fst (snd x)) \<Longrightarrow> not_nan (fst y) \<Longrightarrow> not_nan (fst (snd y)) \<Longrightarrow>
     sweep_key_lt x y = lex_lt f_lt (lex_lt f_lt (lex_lt bank_lt (<))) x y"
  by (cases x; cases y) (auto simp: lex_lt_def f_eq_not_lt bank_neq_lt)

interpretation sweep_order: weak_order keyed_lt clean_key
proof -
  have "weak_order (lex_lt f_lt (lex_lt f_lt (lex_lt bank_lt ((<) :: int \<Rightarrow> int \<Rightarrow> bool))))
      (\<lambda>x. not_nan (fst x) \<and> not_nan (fst (snd x)) \<and> True \<and> True)"
    by (intro weak_order_lex float_weak_order bank_weak_order weak_order_less)
  from weak_order_key [OF this, of fst]
  have "weak_order (\<lambda>x y. lex_lt f_lt (lex_lt f_lt (lex_lt bank_lt (<))) (fst x) (fst y)) clean_key"
    by (simp add: clean_key_def [abs_def])
  then show "weak_order keyed_lt clean_key"
    by (rule weak_order_cong) (simp add: clean_key_def keyed_lt_def sweep_key_lt_lex)
qed


definition tail_latency :: "sweep_row \<Rightarrow> pyfloat" where
  "tail_latency r = (case m_p95_latency_ns (sw_metrics r) of None \<Rightarrow> FInf False | Some x \<Rightarrow> x)"

definition mean_latency :: "sweep_row \<Rightarrow> pyfloat" where
  "mean_latency r = (case m_avg_latency_ns (sw_metrics r) of None \<Rightarrow> FInf False | Some x \<Rightarrow> x)"

lemma sweep_key_latencies: "sweep_key r = Inr k \<Longrightarrow> fst k = tail_latency r \<and> fst (snd k) = mean_latency r"
  by (auto simp: sweep_key_def bindR_eq_Inr tail_latency_def mean_latency_def)

lemma best_sweep_row_least:
  assumes "best_sweep_row rows = Inr r" and "rows \<noteq> []"
    and "\<forall>r \<in> set rows. not_nan (tail_latency r) \<and> not_nan (mean_latency r)"
  shows "r \<in> set rows \<and> (\<forall>r' \<in> set rows. f_le (tail_latency r) (tail_latency r') \<and>
    (\<forall>k k'. sweep_key r = Inr k \<longrightarrow> sweep_key r' = Inr k' \<longrightarrow> \<not> sweep_key_lt k' k))"
proof -
  obtain keyed where k: "mapR (\<lambda>r. bindR (sweep_key r) (\<lambda>k. Inr (k, r))) rows = Inr keyed"
    and r: "r = snd (min_from keyed_lt (hd keyed) (tl keyed))"
    using assms(1) by (auto simp: best_sweep_row_def bindR_eq_Inr)
  have mem: "p \<in> set keyed \<Longrightarrow> sweep_key (snd p) = Inr (fst p) \<and> snd p \<in> set rows" for p
    using mapR_mem [OF k, of p] by (auto simp: bindR_eq_Inr)
  have src: "r' \<in> set rows \<Longrightarrow> \<exists>k. (k, r') \<in> set keyed \<and> sweep_key r' = Inr k" for r'
    using mapR_src [OF k, of r'] by (auto simp: bindR_eq_Inr simp del: split_paired_Ex)
  have ne: "keyed \<noteq> []" using mapR_length [OF k] assms(2) by auto
  then have ins: "insert (hd keyed) (set (tl keyed)) = set keyed" by (cases keyed) auto
  let ?m = "min_from keyed_lt (hd keyed) (tl keyed)"
  have m: "?m \<in> set keyed" using min_from_mem [of keyed_lt "hd keyed" "tl keyed"] ins by simp
  have clean: "\<forall>p \<in> set keyed. clean_key p"
    using assms(3) mem sweep_key_latencies by (fastforce simp: clean_key_def)
  have least: "\<not> keyed_lt p ?m" if "p \<in> set keyed" for p
    using sweep_order.min_by_least [of "hd keyed" "tl keyed" p] that clean ins by simp
  have "f_le (tail_latency r) (tail_latency r') \<and>
      (\<forall>k k'. sweep_key r = Inr k \<longrightarrow> sweep_key r' = Inr k' \<longrightarrow> \<not> sweep_key_lt k' k)" if r': "r' \<in> set rows" for r'
  proof -
    obtain k' where k': "(k', r') \<in> set keyed" "sweep_key r' = Inr k'" using src [OF r'] by blast
    have n: "\<not> sweep_key_lt k' (fst ?m)" using least [OF k'(1)] by (simp add: keyed_lt_def)
    moreover have rk: "sweep_key r = Inr (fst ?m)" using mem [OF m] r by simp
    moreover have "\<not> f_lt (tail_latency r') (tail_latency r)"
      using n sweep_key_latencies [OF k'(2)] sweep_key_latencies [OF rk]
      by (cases k'; cases "fst ?m") (auto simp: f_eq_val f_lt_val split: if_splits)
    ultimately show ?thesis
      using assms(3) r' mem [OF m] r k'(2) f_le_not_lt by auto
  qed
  then show ?thesis using mem [OF m] r by auto
qed

text \<open>C5. The knobs recommended for a workload are those of a row of its sweep with the least tail
  latency (an absent latency counting as infinite), no other row of the workload having a
  smaller key of tail latency, mean latency, bank count and mapping rank.\<close>

theorem best_sweep_point:
  assumes "project_l_best_sweep_by_workload rows = Inr best" and "(w, b) \<in> set best"
    and "\<forall>r \<in> set rows. sw_workload r = w \<longrightarrow> not_nan (tail_latency r) \<and> not_nan (mean_latency r)"
  shows "\<exists>r \<in> set rows. sw_workload r = w \<and> sw_address_mapping r = address_mapping_best b \<and>
    int_value (Some (sw_bank_count r)) = Inr (bank_count_best b) \<and>
    (\<forall>r' \<in> set rows. sw_workload r' = w \<longrightarrow> f_le (tail_latency r) (tail_latency r') \<and>
      (\<forall>k k'. sweep_key r = Inr k \<longrightarrow> sweep_key r' = Inr k' \<longrightarrow> \<not> sweep_key_lt k' k))"
proof -
  obtain rs r where g: "(w, rs) \<in> set (group_by sw_workload rows)" "rs \<noteq> []"
    and r: "best_sweep_row rs = Inr r" "int_value (Some (sw_bank_count r)) = Inr (bank_count_best b)"
      "sw_address_mapping r = address_mapping_best b"
    using mapR_mem [OF assms(1) [unfolded project_l_best_sweep_by_workload_def] assms(2)]
    by (auto simp: bindR_eq_Inr)
  have "map_of (group_by sw_workload rows) w = Some rs"
    by (rule map_of_is_SomeI [OF distinct_keys_group_by g(1)])
  then have rs: "rs = filter (\<lambda>r. sw_workload r = w) rows"
    by (simp add: map_of_group_by split: if_splits)
  have "\<forall>r \<in> set rs. not_nan (tail_latency r) \<and> not_nan (mean_latency r)" using assms(3) rs by simp
  from best_sweep_row_least [OF r(1) g(2) this] show ?thesis
    unfolding rs using r by (auto simp del: sweep_key_lt.simps split_paired_Ex split_paired_All)
qed

text \<open>Two banks counts, the second twice as fast.\<close>

definition two_points :: "sweep_row list" where
  "two_points = map (\<lambda>(n, t). \<lparr>sw_workload = ''w'', sw_bank_count = n, sw_address_mapping = ''row_interleave'',
      sw_metrics = congested_metrics\<lparr>m_p95_latency_ns := Some (flit t 1)\<rparr>, sw_primary_bottleneck = [],
      sw_confidence = ''low'', sw_delta_pct = None\<rparr>) [(4, 100), (8, 50)]"

theorem best_sweep_point_witness:
  "project_l_best_sweep_by_workload two_points =
     Inr [(''w'', \<lparr>bank_count_best = Some 8, address_mapping_best = ''row_interleave''\<rparr>)] \<and>
   (\<exists>r \<in> set two_points. int_value (Some (sw_bank_count r)) = Inr (Some 8) \<and>
     (\<forall>r' \<in> set two_points. f_le (tail_latency r) (tail_latency r')))"
proof -
  have b: "project_l_best_sweep_by_workload two_points =
     Inr [(''w'', \<lparr>bank_count_best = Some 8, address_mapping_best = ''row_interleave''\<rparr>)]" by code_simp
  have "list_all (\<lambda>r. sw_workload r = ''w'' \<and> tail_latency r \<noteq> FNan \<and> mean_latency r \<noteq> FNan) two_points" by code_simp
  then have c: "\<forall>r \<in> set two_points. sw_workload r = ''w'' \<and> not_nan (tail_latency r) \<and> not_nan (mean_latency r)"
    by (auto simp: list_all_iff not_nan_def)
  from best_sweep_point [OF b, of "''w''"] c b show ?thesis by fastforce
qed

section \<open>Recommendations are sound\<close>

lemma action_allowed: "project_l_action_for row best sg \<in> set PROJECT_L_ALLOWED_RECOMMENDED_ACTIONS"
  by (simp add: project_l_action_for_def PROJECT_L_ALLOWED_RECOMMENDED_ACTIONS_def Let_def)

lemma priority_allowed:
  "project_l_recommendation_priority action row sg \<in> set PROJECT_L_ALLOWED_RECOMMENDATION_PRIORITIES"
  by (simp add: project_l_recommendation_priority_def PROJECT_L_ALLOWED_RECOMMENDATION_PRIORITIES_def)

lemma high_priority_high_confidence:
  "project_l_recommendation_priority action row sg = ''high'' \<Longrightarrow> row_confidence row = ''high''"
  by (simp add: project_l_recommendation_priority_def split: if_splits)

lemma low_confidence_observes:
  "row_confidence row = ''low'' \<Longrightarrow> project_l_action_for row best sg = ''keep_observing_low_confidence''"
  by (simp add: project_l_action_for_def)

lemma more_banks_only_with_evidence:
  "project_l_action_for row best sg = ''increase_bank_parallelism'' \<Longrightarrow>
     bank_conflict_signal sg = ''high'' \<and> (\<exists>n. bank_count_best best = Some n \<and> n \<noteq> BANK_COUNT_SWEEP ! 0)"
  by (auto simp: project_l_action_for_def Let_def split: if_splits)

lemma mapping_only_if_better:
  "project_l_action_for row best sg = ''change_address_mapping'' \<Longrightarrow>
     address_mapping_best best \<noteq> DEFAULT_ADDRESS_MAPPING"
  by (auto simp: project_l_action_for_def Let_def split: if_splits)

lemma recommendation_row_fields:
  assumes "recommendation_row bests row = Inr rec"
  shows "\<exists>sg. signals_of row = Inr sg \<and> rec_signals rec = sg \<and>
    rec_best rec = best_of bests (m_workload (sr_metrics row)) \<and>
    rec_recommended_action rec = project_l_action_for row (rec_best rec) sg \<and>
    rec_priority rec = project_l_recommendation_priority (rec_recommended_action rec) row sg \<and>
    rec_confidence rec = row_confidence row \<and> rec_claim_boundary rec = PROJECT_L_CLAIM_BOUNDARY \<and>
    rec_workload rec = m_workload (sr_metrics row) \<and>
    rec_primary_bottleneck rec = a_primary_bottleneck (sr_attribution row) \<and>
    rec_evidence_summary rec = project_l_evidence_summary row (rec_best rec) sg"
  using assms by (auto simp: recommendation_row_def bindR_eq_Inr Let_def)

text \<open>C6. Every recommendation row has an allowed action, an allowed priority and the agreed claim
  boundary; a workload with low confidence is only observed, at low priority; a high priority
  needs high confidence; more banks are recommended only on a high bank-conflict signal and a
  best bank count other than the baseline's, another mapping only where it differs from the default.\<close>

theorem recommendations_sound:
  assumes "build_project_l_recommendation_rows srs rows = Inr recs"
  shows "length recs = length srs \<and> (\<forall>rec \<in> set recs.
    rec_recommended_action rec \<in> set PROJECT_L_ALLOWED_RECOMMENDED_ACTIONS \<and>
    rec_priority rec \<in> set PROJECT_L_ALLOWED_RECOMMENDATION_PRIORITIES \<and>
    rec_claim_boundary rec = PROJECT_L_CLAIM_BOUNDARY \<and>
    (rec_confidence rec = ''low'' \<longrightarrow> rec_recommended_action rec = ''keep_observing_low_confidence''
       \<and> rec_priority rec = ''low'') \<and>
    (rec_priority rec = ''high'' \<longrightarrow> rec_confidence rec = ''high'') \<and>
    (rec_recommended_action rec = ''increase_bank_parallelism'' \<longrightarrow>
       bank_conflict_signal (rec_signals rec) = ''high'' \<and>
       (\<exists>n. bank_count_best (rec_best rec) = Some n \<and> n \<noteq> BANK_COUNT_SWEEP ! 0)) \<and>
    (rec_recommended_action rec = ''change_address_mapping'' \<longrightarrow>
       address_mapping_best (rec_best rec) \<noteq> DEFAULT_ADDRESS_MAPPING))"
proof -
  obtain bests where b: "mapR (recommendation_row bests) srs = Inr recs"
    using assms by (auto simp: build_project_l_recommendation_rows_def bindR_eq_Inr)
  have row: "\<exists>row sg. rec_recommended_action rec = project_l_action_for row (rec_best rec) sg \<and>
      rec_priority rec = project_l_recommendation_priority (rec_recommended_action rec) row sg \<and>
      rec_confidence rec = row_confidence row \<and> rec_claim_boundary rec = PROJECT_L_CLAIM_BOUNDARY \<and> rec_signals rec = sg"
    if "rec \<in> set recs" for rec
    using mapR_mem [OF b that] recommendation_row_fields by metis
  show ?thesis
  proof (intro conjI ballI)
    fix rec assume "rec \<in> set recs"
    from row [OF this] obtain row where r: "rec_recommended_action rec = project_l_action_for row (rec_best rec) (rec_signals rec)"
      "rec_priority rec = project_l_recommendation_priority (rec_recommended_action rec) row (rec_signals rec)"
      "rec_confidence rec = row_confidence row" "rec_claim_boundary rec = PROJECT_L_CLAIM_BOUNDARY" by blast
    show "rec_recommended_action rec \<in> set PROJECT_L_ALLOWED_RECOMMENDED_ACTIONS" using r(1) action_allowed by simp
    show "rec_priority rec \<in> set PROJECT_L_ALLOWED_RECOMMENDATION_PRIORITIES" using r(2) priority_allowed by simp
    show "rec_claim_boundary rec = PROJECT_L_CLAIM_BOUNDARY" by (rule r(4))
    show "rec_confidence rec = ''low'' \<longrightarrow> rec_recommended_action rec = ''keep_observing_low_confidence'' \<and> rec_priority rec = ''low''"
      using r(1-3) low_confidence_observes by (simp add: project_l_recommendation_priority_def)
    show "rec_priority rec = ''high'' \<longrightarrow> rec_confidence rec = ''high''"
      using r(2,3) high_priority_high_confidence by simp
    show "rec_recommended_action rec = ''increase_bank_parallelism'' \<longrightarrow>
       bank_conflict_signal (rec_signals rec) = ''high'' \<and>
       (\<exists>n. bank_count_best (rec_best rec) = Some n \<and> n \<noteq> BANK_COUNT_SWEEP ! 0)"
      using r(1) more_banks_only_with_evidence by simp
    show "rec_recommended_action rec = ''change_address_mapping'' \<longrightarrow>
       address_mapping_best (rec_best rec) \<noteq> DEFAULT_ADDRESS_MAPPING"
      using r(1) mapping_only_if_better by simp
  qed (simp add: mapR_length [OF b])
qed

definition congested_row :: summary_row where
  "congested_row = \<lparr>sr_features = quiet_features, sr_metrics = congested_metrics,
     sr_attribution = attribution_for quiet_features congested_metrics\<rparr>"

theorem recommendations_sound_witness:
  "\<exists>rec. build_project_l_recommendation_rows [congested_row] [] = Inr [rec] \<and>
     rec_recommended_action rec \<in> set PROJECT_L_ALLOWED_RECOMMENDED_ACTIONS \<and>
     rec_claim_boundary rec = PROJECT_L_CLAIM_BOUNDARY"
proof -
  let ?r = "build_project_l_recommendation_rows [congested_row] []"
  have "\<not> isl ?r" by code_simp
  then obtain recs where r: "?r = Inr recs" by (metis sum.collapse(2))
  from recommendations_sound [OF r] obtain rec where "recs = [rec]" by (auto simp: length_Suc_conv)
  then show ?thesis using recommendations_sound [OF r] r by simp
qed

end
