(* ===== verification/K_Reports.thy ===== *)
theory K_Reports
  imports L_Recommend Tool_Common
begin

text \<open>
  \<open>examples/lt/tools/demo_project_k_workload_bottleneck_lab.py\<close>, last part: the CSV columns, the
  two reports and the two acceptance checks of Project K and Project L.  Text outside ASCII
  is held as its UTF-8 bytes: lower-casing, searching and splitting into lines treat them as
  Python treats the characters, none of which has a case or ends a line.
\<close>

section \<open>Columns\<close>

definition STABLE_SUMMARY_FIELDS :: "string list" where
  "STABLE_SUMMARY_FIELDS = [''workload'', ''pattern_class'', ''phase_count'', ''total_requests'', ''total_bytes'',
     ''read_ratio'', ''write_ratio'', ''unique_cacheline_count'', ''reuse_ratio'',
     ''sequentiality_score'', ''dominant_stride'', ''burstiness_score'', ''bank_entropy'',
     ''max_bank_share'', ''avg_latency_ns'', ''p50_latency_ns'', ''p95_latency_ns'',
     ''throughput_txn_per_us'', ''queue_delay_ratio'', ''service_delay_ratio'', ''bank_conflict_proxy'',
     ''p95_p50_latency_ratio'', ''bank_utilization_pct'', ''avg_queue_occupancy'',
     ''max_queue_occupancy'', ''stalled_or_rejected_transactions'', ''row_hit_ratio_pct'',
     ''primary_bottleneck'', ''confidence'', ''evidence_fields'', ''recommendation'', ''claim_boundary'']"

definition EXPERIMENTAL_SUMMARY_FIELDS :: "string list" where
  "EXPERIMENTAL_SUMMARY_FIELDS = [''avg_reuse_distance'', ''p50_reuse_distance'', ''phase_locality_score'',
     ''mapping_sensitivity_score'', ''bank_count_sensitivity_score'']"

definition K_SUMMARY_FIELDS :: "string list" where
  "K_SUMMARY_FIELDS = [''workload'', ''pattern_class'', ''phase_count'', ''total_requests'', ''total_bytes'',
     ''read_ratio'', ''write_ratio'', ''unique_cacheline_count'', ''reuse_ratio'',
     ''avg_reuse_distance'', ''p50_reuse_distance'', ''phase_locality_score'', ''sequentiality_score'',
     ''dominant_stride'', ''burstiness_score'', ''bank_entropy'', ''max_bank_share'',
     ''avg_latency_ns'', ''p50_latency_ns'', ''p95_latency_ns'', ''throughput_txn_per_us'',
     ''queue_delay_ratio'', ''service_delay_ratio'', ''bank_conflict_proxy'', ''p95_p50_latency_ratio'',
     ''mapping_sensitivity_score'', ''bank_count_sensitivity_score'', ''bank_utilization_pct'',
     ''avg_queue_occupancy'', ''max_queue_occupancy'', ''stalled_or_rejected_transactions'',
     ''row_hit_ratio_pct'', ''primary_bottleneck'', ''confidence'', ''evidence_fields'',
     ''recommendation'', ''claim_boundary'']"

definition STABLE_SWEEP_FIELDS :: "string list" where
  "STABLE_SWEEP_FIELDS = [''workload'', ''bank_count'', ''address_mapping'', ''avg_latency_ns'', ''p50_latency_ns'',
     ''p95_latency_ns'', ''throughput_txn_per_us'', ''queue_delay_ratio'', ''service_delay_ratio'',
     ''bank_conflict_proxy'', ''p95_p50_latency_ratio'', ''sweep_delta_pct'', ''primary_bottleneck'',
     ''confidence'']"

definition PROJECT_L_RECOMMENDATION_FIELDS :: "string list" where
  "PROJECT_L_RECOMMENDATION_FIELDS = [''workload'', ''pattern_class'', ''primary_bottleneck'', ''confidence'', ''recommended_action'',
     ''recommendation_priority'', ''evidence_summary'', ''bank_count_best'', ''address_mapping_best'',
     ''bank_count_sensitivity_score'', ''mapping_sensitivity_score'', ''locality_signal'',
     ''queueing_signal'', ''service_signal'', ''bank_conflict_signal'', ''claim_boundary'']"

definition PROJECT_L_REQUIRED_UNSUPPORTED_CLAIM_MARKERS :: "string list" where
  "PROJECT_L_REQUIRED_UNSUPPORTED_CLAIM_MARKERS = [''This is not cycle-accurate simulation'', ''This is not silicon validation'',
     ''This is not GPU simulation'',
     ''This is not real GEMM / Transformer / attention performance claim'',
     ''This is not AXI / CHI protocol compliance'', ''This is not production signoff'']"

definition REQUIRED_UNSUPPORTED_CLAIM_MARKERS :: "string list" where
  "REQUIRED_UNSUPPORTED_CLAIM_MARKERS = [
     [CHR 0xE4, CHR 0xB8, CHR 0x8D, CHR 0xE5, CHR 0xA3, CHR 0xB0, CHR 0xE7, CHR 0xA7, CHR 0xB0, CHR 0xE7, CHR 0x9C, CHR 0x9F, CHR 0xE5, CHR 0xAE, CHR 0x9E] @ '' GPU '' @ [CHR 0xE6, CHR 0x80, CHR 0xA7, CHR 0xE8, CHR 0x83, CHR 0xBD],
     [CHR 0xE4, CHR 0xB8, CHR 0x8D, CHR 0xE5, CHR 0xA3, CHR 0xB0, CHR 0xE7, CHR 0xA7, CHR 0xB0] @ '' NVIDIA Nsight '' @ [CHR 0xE9, CHR 0x9B, CHR 0x86, CHR 0xE6, CHR 0x88, CHR 0x90],
     [CHR 0xE4, CHR 0xB8, CHR 0x8D, CHR 0xE5, CHR 0xA3, CHR 0xB0, CHR 0xE7, CHR 0xA7, CHR 0xB0] @ '' ARM PMU '' @ [CHR 0xE9, CHR 0xAA, CHR 0x8C, CHR 0xE8, CHR 0xAF, CHR 0x81],
     [CHR 0xE4, CHR 0xB8, CHR 0x8D, CHR 0xE5, CHR 0xA3, CHR 0xB0, CHR 0xE7, CHR 0xA7, CHR 0xB0] @ '' Linux perf '' @ [CHR 0xE9, CHR 0xAA, CHR 0x8C, CHR 0xE8, CHR 0xAF, CHR 0x81],
     [CHR 0xE4, CHR 0xB8, CHR 0x8D, CHR 0xE5, CHR 0xA3, CHR 0xB0, CHR 0xE7, CHR 0xA7, CHR 0xB0] @ '' silicon validation'',
     [CHR 0xE4, CHR 0xB8, CHR 0x8D, CHR 0xE5, CHR 0xA3, CHR 0xB0, CHR 0xE7, CHR 0xA7, CHR 0xB0] @ '' production signoff'',
     [CHR 0xE4, CHR 0xB8, CHR 0x8D, CHR 0xE5, CHR 0xA3, CHR 0xB0, CHR 0xE7, CHR 0xA7, CHR 0xB0] @ '' full-system cycle accuracy'',
     [CHR 0xE4, CHR 0xB8, CHR 0x8D, CHR 0xE5, CHR 0xA3, CHR 0xB0, CHR 0xE7, CHR 0xA7, CHR 0xB0] @ '' AXI / CHI protocol compliance'',
     [CHR 0xE4, CHR 0xB8, CHR 0x8D, CHR 0xE5, CHR 0xA3, CHR 0xB0, CHR 0xE7, CHR 0xA7, CHR 0xB0, CHR 0xE7, CHR 0x9C, CHR 0x9F, CHR 0xE5, CHR 0xAE, CHR 0x9E] @ '' GEMM kernel performance'',
     [CHR 0xE4, CHR 0xB8, CHR 0x8D, CHR 0xE5, CHR 0xA3, CHR 0xB0, CHR 0xE7, CHR 0xA7, CHR 0xB0, CHR 0xE7, CHR 0x9C, CHR 0x9F, CHR 0xE5, CHR 0xAE, CHR 0x9E] @ '' Transformer / attention kernel performance'',
     [CHR 0xE4, CHR 0xB8, CHR 0x8D, CHR 0xE5, CHR 0xA3, CHR 0xB0, CHR 0xE7, CHR 0xA7, CHR 0xB0] @ '' FlashAttention '' @ [CHR 0xE6, CHR 0x88, CHR 0x96] @ '' LLM inference performance'',
     [CHR 0xE4, CHR 0xB8, CHR 0x8D, CHR 0xE5, CHR 0xA3, CHR 0xB0, CHR 0xE7, CHR 0xA7, CHR 0xB0] @ '' GPU simulation'']"

definition FORBIDDEN_AFFIRMATIVE_CLAIM_PATTERNS :: "string list" where
  "FORBIDDEN_AFFIRMATIVE_CLAIM_PATTERNS = [''real GPU performance'', ''real GEMM performance'', ''real attention performance'',
     ''real Transformer performance'', ''cycle accurate'', ''cycle-accurate'', ''production signoff'',
     ''silicon validation'', ''hardware validation claim'', ''Nsight correlation'', ''PMU correlation'',
     ''perf correlation'']"

definition CLAIM_NEGATION_MARKERS :: "string list" where
  "CLAIM_NEGATION_MARKERS = [[CHR 0xE4, CHR 0xB8, CHR 0x8D, CHR 0xE5, CHR 0xA3, CHR 0xB0, CHR 0xE7, CHR 0xA7, CHR 0xB0],
     [CHR 0xE4, CHR 0xB8, CHR 0x8D, CHR 0xE6, CHR 0x98, CHR 0xAF],
     [CHR 0xE4, CHR 0xB8, CHR 0x8D, CHR 0xE6, CHR 0x94, CHR 0xAF, CHR 0xE6, CHR 0x8C, CHR 0x81],
     ''not '', ''no '', ''unsupported'', ''without'']"

definition PROJECT_K_SCHEMA_VERSION :: string where "PROJECT_K_SCHEMA_VERSION = ''k0.2''"
definition PROJECT_L_SCHEMA_VERSION :: string where "PROJECT_L_SCHEMA_VERSION = ''l0.1''"
definition EXPECTED_CORE_WORKLOADS :: nat where "EXPECTED_CORE_WORKLOADS = 3"
definition EXPECTED_OPTIONAL_SYNTHETIC_PATTERNS :: nat where "EXPECTED_OPTIONAL_SYNTHETIC_PATTERNS = 2"
definition EXPECTED_TOTAL_WORKLOADS :: nat where "EXPECTED_TOTAL_WORKLOADS = 5"
definition EXPECTED_SWEEP_ROWS :: nat where "EXPECTED_SWEEP_ROWS = 45"
definition PROJECT_L_EXPECTED_TOTAL_WORKLOADS :: nat where "PROJECT_L_EXPECTED_TOTAL_WORKLOADS = 5"
definition PROJECT_L_EXPECTED_RECOMMENDATION_ROWS :: nat where "PROJECT_L_EXPECTED_RECOMMENDATION_ROWS = 5"

section \<open>Rows of the CSV files\<close>

definition fmt_str :: "string option \<Rightarrow> string" where
  "fmt_str value = (case value of None \<Rightarrow> ''NA'' | Some s \<Rightarrow> s)"

text \<open>The combined dictionary of a summary row, a sweep row and a recommendation, as text.\<close>

definition summary_cells :: "summary_row \<Rightarrow> (string \<times> string) list" where
  "summary_cells row = (let ft = sr_features row; m = sr_metrics row; a = sr_attribution row in
     [(''workload'', fmt_str (m_workload m)), (''pattern_class'', f_pattern_class ft),
      (''phase_count'', str_int (f_phase_count ft)), (''total_requests'', str_int (f_total_requests ft)),
      (''total_bytes'', str_int (f_total_bytes ft)), (''read_ratio'', fmt_float (f_read_ratio ft)),
      (''write_ratio'', fmt_float (f_write_ratio ft)),
      (''unique_cacheline_count'', str_int (f_unique_cacheline_count ft)),
      (''reuse_ratio'', fmt_float (f_reuse_ratio ft)),
      (''avg_reuse_distance'', fmt_float (f_avg_reuse_distance ft)),
      (''p50_reuse_distance'', fmt_int (f_p50_reuse_distance ft)),
      (''phase_locality_score'', fmt_float (f_phase_locality_score ft)),
      (''sequentiality_score'', fmt_float (Some (f_sequentiality_score ft))),
      (''dominant_stride'', fmt_int (f_dominant_stride ft)),
      (''burstiness_score'', fmt_float (Some (f_burstiness_score ft))),
      (''bank_entropy'', fmt_float (f_bank_entropy ft)), (''max_bank_share'', fmt_float (f_max_bank_share ft)),
      (''mapping_sensitivity_score'', fmt_float (f_mapping_sensitivity_score ft)),
      (''bank_count_sensitivity_score'', fmt_float (f_bank_count_sensitivity_score ft)),
      (''avg_latency_ns'', fmt_float (m_avg_latency_ns m)), (''p50_latency_ns'', fmt_float (m_p50_latency_ns m)),
      (''p95_latency_ns'', fmt_float (m_p95_latency_ns m)),
      (''throughput_txn_per_us'', fmt_float (m_throughput_txn_per_us m)),
      (''queue_delay_ratio'', fmt_float (m_queue_delay_ratio m)),
      (''service_delay_ratio'', fmt_float (m_service_delay_ratio m)),
      (''bank_conflict_proxy'', fmt_float (m_bank_conflict_proxy m)),
      (''p95_p50_latency_ratio'', fmt_float (m_p95_p50_latency_ratio m)),
      (''bank_utilization_pct'', fmt_float (m_bank_utilization_pct m)),
      (''avg_queue_occupancy'', fmt_float (m_avg_queue_occupancy m)),
      (''max_queue_occupancy'', fmt_int (m_max_queue_occupancy m)),
      (''stalled_or_rejected_transactions'', fmt_int (m_stalled_or_rejected m)),
      (''row_hit_ratio_pct'', fmt_float (m_row_hit_ratio_pct m)),
      (''primary_bottleneck'', a_primary_bottleneck a), (''confidence'', a_confidence a),
      (''evidence_fields'', a_evidence_fields a), (''recommendation'', a_recommendation a),
      (''claim_boundary'', a_claim_boundary a)])"

definition sweep_cells :: "sweep_row \<Rightarrow> (string \<times> string) list" where
  "sweep_cells row = (let m = sw_metrics row in
     [(''workload'', sw_workload row), (''bank_count'', str_int (sw_bank_count row)),
      (''address_mapping'', sw_address_mapping row),
      (''avg_latency_ns'', fmt_float (m_avg_latency_ns m)), (''p50_latency_ns'', fmt_float (m_p50_latency_ns m)),
      (''p95_latency_ns'', fmt_float (m_p95_latency_ns m)),
      (''throughput_txn_per_us'', fmt_float (m_throughput_txn_per_us m)),
      (''queue_delay_ratio'', fmt_float (m_queue_delay_ratio m)),
      (''service_delay_ratio'', fmt_float (m_service_delay_ratio m)),
      (''bank_conflict_proxy'', fmt_float (m_bank_conflict_proxy m)),
      (''p95_p50_latency_ratio'', fmt_float (m_p95_p50_latency_ratio m)),
      (''sweep_delta_pct'', fmt_float (sw_delta_pct row)),
      (''primary_bottleneck'', sw_primary_bottleneck row), (''confidence'', sw_confidence row)])"

definition recommendation_cells :: "recommendation \<Rightarrow> (string \<times> string) list" where
  "recommendation_cells row = (let sg = rec_signals row in
     [(''workload'', fmt_str (rec_workload row)), (''pattern_class'', rec_pattern_class row),
      (''primary_bottleneck'', rec_primary_bottleneck row), (''confidence'', rec_confidence row),
      (''recommended_action'', rec_recommended_action row), (''recommendation_priority'', rec_priority row),
      (''evidence_summary'', rec_evidence_summary row),
      (''bank_count_best'', fmt_int (bank_count_best (rec_best row))),
      (''address_mapping_best'', address_mapping_best (rec_best row)),
      (''bank_count_sensitivity_score'', fmt_float (rec_bank_count_sensitivity_score row)),
      (''mapping_sensitivity_score'', fmt_float (rec_mapping_sensitivity_score row)),
      (''locality_signal'', locality_signal sg), (''queueing_signal'', queueing_signal sg),
      (''service_signal'', service_signal sg), (''bank_conflict_signal'', bank_conflict_signal sg),
      (''claim_boundary'', rec_claim_boundary row)])"

text \<open>\<open>fmt(row.get(field))\<close> for each field, and the records \<open>write_csv\<close> writes.\<close>

definition row_fields :: "string list \<Rightarrow> (string \<times> string) list \<Rightarrow> string list" where
  "row_fields fieldnames row = map (\<lambda>f. fmt_str (map_of row f)) fieldnames"

definition csv_records :: "string list \<Rightarrow> (string \<times> string) list list \<Rightarrow> string list list" where
  "csv_records fieldnames rows = fieldnames # map (row_fields fieldnames) rows"

definition csv_header :: "string list list \<Rightarrow> string list" where
  "csv_header recs = (case recs of [] \<Rightarrow> [] | h # _ \<Rightarrow> h)"

definition missing_fields :: "string list \<Rightarrow> string list \<Rightarrow> string list" where
  "missing_fields actual_fields required_fields = filter (\<lambda>f. f \<notin> set actual_fields) required_fields"

section \<open>Scanning a report\<close>

definition has_negation :: "string \<Rightarrow> bool" where
  "has_negation lower_line \<longleftrightarrow> list_ex (\<lambda>m. py_in m lower_line) CLAIM_NEGATION_MARKERS"

definition has_forbidden :: "string \<Rightarrow> bool" where
  "has_forbidden lower_line \<longleftrightarrow> list_ex (\<lambda>p. py_in (py_lower p) lower_line) FORBIDDEN_AFFIRMATIVE_CLAIM_PATTERNS"

definition claim_hit :: "string \<Rightarrow> bool" where
  "claim_hit l \<longleftrightarrow> (let lower_line = py_lower l in \<not> has_negation lower_line \<and> has_forbidden lower_line)"

definition forbidden_affirmative_claim_hits :: "string \<Rightarrow> string list" where
  "forbidden_affirmative_claim_hits report_text =
     map (\<lambda>(n, l). ''line '' @ str_nat n @ '': '' @ py_strip l)
       (filter (\<lambda>(n, l). claim_hit l) (enumerate 1 (splitlines report_text)))"

section \<open>The Project K report\<close>

definition field_list :: "string list \<Rightarrow> string" where
  "field_list fs = py_join '', '' (map (\<lambda>f. ''`'' @ f @ ''`'') fs)"

definition k_summary_headers :: "string list" where
  "k_summary_headers = [''workload'', ''pattern_class'', ''primary_bottleneck'', ''confidence'', ''max_bank_share'',
     ''bank_entropy'', ''phase_locality_score'', ''queue_delay_ratio'', ''service_delay_ratio'',
     ''mapping_sensitivity_score'', ''bank_count_sensitivity_score'', ''p95_p50_latency_ratio'']"

definition k_sweep_headers :: "string list" where
  "k_sweep_headers = [''workload'', ''bank_count'', ''address_mapping'', ''avg_latency_ns'', ''p95_latency_ns'',
     ''bank_conflict_proxy'', ''sweep_delta_pct'', ''primary_bottleneck'']"

definition k_report_scope :: "string list" where
  "k_report_scope = [''# Project K.3 Workload-Aware Memory Bottleneck Report'',
      [],
      [CHR 0xE7, CHR 0x8A, CHR 0xB6, CHR 0xE6, CHR 0x80, CHR 0x81, CHR 0xEF, CHR 0xBC, CHR 0x9A] @ ''generated demo report with K.3 schema and self-check hardening'' @ [CHR 0xE3, CHR 0x80, CHR 0x82],
      [],
      ''## Scope'',
      [],
      ''Project K.3 '' @ [CHR 0xE4, CHR 0xBD, CHR 0xBF, CHR 0xE7, CHR 0x94, CHR 0xA8, CHR 0xE5, CHR 0x8F, CHR 0x97, CHR 0xE6, CHR 0x8E, CHR 0xA7] @ '' synthetic workload traces '' @ [CHR 0xE8, CHR 0xBF, CHR 0x90, CHR 0xE8, CHR 0xA1, CHR 0x8C] @ '' Project E simplified banked memory model'' @ [CHR 0xEF, CHR 0xBC, CHR 0x8C, CHR 0xE5, CHR 0xB9, CHR 0xB6, CHR 0xE8, CHR 0xBE, CHR 0x93, CHR 0xE5, CHR 0x87, CHR 0xBA, CHR 0xE8, CHR 0xB6, CHR 0x8B, CHR 0xE5, CHR 0x8A, CHR 0xBF, CHR 0xE7, CHR 0xBA, CHR 0xA7] @ '' bottleneck attribution '' @ [CHR 0xE5, CHR 0x92, CHR 0x8C] @ '' mapping sensitivity sweep'' @ [CHR 0xE3, CHR 0x80, CHR 0x82, CHR 0xE5, CHR 0xAE, CHR 0x83, CHR 0xE4, CHR 0xB8, CHR 0x8D, CHR 0xE6, CHR 0x98, CHR 0xAF, CHR 0xE6, CHR 0x96, CHR 0xB0, CHR 0xE7, CHR 0x9A, CHR 0x84] @ '' C++ memory model'' @ [CHR 0xEF, CHR 0xBC, CHR 0x8C, CHR 0xE4, CHR 0xB9, CHR 0x9F, CHR 0xE4, CHR 0xB8, CHR 0x8D, CHR 0xE4, CHR 0xBF, CHR 0xAE, CHR 0xE6, CHR 0x94, CHR 0xB9] @ '' Project G/H/I/J'' @ [CHR 0xE3, CHR 0x80, CHR 0x82],
      [],
      ''## Architecture Summary'',
      [],
      ''Project K frames the architecture question as a bounded evidence chain: `workload access pattern -> memory-system stressor -> measurable symptom -> bottleneck attribution -> bounded recommendation`. The demo keeps `streaming`, `stride`, and `hot_bank` as core workloads, then adds `tiled_gemm_like` and `attention_like_blocked` as optional synthetic access-pattern-inspired traces.'',
      [],
      ''Recommendations in this report are expected directions inside the Project E simplified model. They are not hardware performance claims, not GPU claims, and not GEMM / attention / AI-kernel performance claims.'',
      [],
      ''## Flow'',
      [],
      ''```text'',
      ''synthetic workload trace'',
      ''-> workload feature extraction'',
      ''-> Project E simplified banked memory model run'',
      ''-> model metric normalization'',
      ''-> bottleneck attribution'',
      ''-> bank_count and address_mapping sweep'',
      ''-> CSV / markdown report'',
      ''-> demo PASS'',
      ''```'',
      [],
      ''## Workloads'',
      [],
      ''- `streaming`: consecutive addresses, low-conflict baseline.'',
      ''- `stride`: fixed stride addresses, exposes mapping sensitivity.'',
      ''- `hot_bank`: addresses concentrated on one modeled bank with bursty issue.'',
      ''- `tiled_gemm_like`: synthetic A/B/C tile read/write pattern; no matrix multiply compute, FLOPS, or GEMM throughput model.'',
      ''- `attention_like_blocked`: synthetic Q/K/V repeated-read plus output-write pattern; no softmax, FlashAttention, Transformer, or LLM inference model.'',
      [],
      ''`tiled_gemm_like` and `attention_like_blocked` are optional synthetic access-pattern-inspired traces. They are not real AI kernel workloads.'',
      [],
      ''## Metric Split'',
      [],
      ''Trace-derived features describe the input shape: request count, bytes, read/write mix, locality proxies, stride, burstiness, and modeled bank concentration. Model-derived metrics describe the symptoms after replay: latency, throughput, queue delay, service delay, bank-conflict proxy, tail amplification, and sweep sensitivity.'',
      [],
      ''## CSV Schema Contract'',
      [],
      ''- Project K CSV schema version: `'' @ PROJECT_K_SCHEMA_VERSION @ ''`.'',
      ''- Stable summary fields: '' @ field_list STABLE_SUMMARY_FIELDS @ ''.'',
      ''- Experimental summary fields: '' @ field_list EXPERIMENTAL_SUMMARY_FIELDS @ ''.'',
      ''- Stable sweep fields: '' @ field_list STABLE_SWEEP_FIELDS @ ''.'',
      [],
      ''## Attribution Summary'',
      []]"

definition k_report_evidence :: "string list" where
  "k_report_evidence = [[],
      ''## Evidence Chain'',
      [],
      ''- `streaming`: low queue pressure in the current model, so the baseline is expected to be service-latency dominated.'',
      ''- `stride`: fixed address deltas can concentrate modeled bank access and increase same-bank waiting.'',
      ''- `hot_bank`: concentrated addresses plus bursty issue can saturate the modeled bank queue, increasing tail latency and rejected transactions.'',
      ''- `tiled_gemm_like`: synthetic A/B/C tile phases expose locality proxy and mapping sensitivity without modeling matrix multiply compute.'',
      ''- `attention_like_blocked`: synthetic Q/K/V repeated-read phases expose blocked reuse and output-write pressure without modeling attention.'',
      [],
      ''Each row keeps `evidence_fields` in the CSV so the primary bottleneck can be audited without treating the attribution as a black-box model.'',
      [],
      ''## Current Sweep'',
      [],
      ''The current hard sweep covers `bank_count = 4 / 8 / 16` and `address_mapping = word_interleave / cacheline_interleave / row_interleave`. `xor_folded`, queue-depth sweep, service-latency sweep, and burstiness-mode sweep are future work.'',
      []]"

definition k_report_closing :: "nat \<Rightarrow> nat \<Rightarrow> string list" where
  "k_report_closing n_summary n_sweep = [[],
      ''## Acceptance Result'',
      [],
      ''- `core_workloads='' @ str_nat (length CORE_WORKLOADS) @ ''`'',
      ''- `optional_synthetic_patterns='' @ str_nat (length OPTIONAL_SYNTHETIC_PATTERNS) @ ''`'',
      ''- `total_workloads='' @ str_nat (length ALL_WORKLOADS) @ ''`'',
      ''- `summary_rows='' @ str_nat n_summary @ ''`'',
      ''- `sweep_rows='' @ str_nat n_sweep @ ''`'',
      ''- `claim_boundary=PASS`'',
      ''- `schema_version='' @ PROJECT_K_SCHEMA_VERSION @ ''`'',
      [],
      ''## Supported Claims'',
      [],
      ''- '' @ [CHR 0xE6, CHR 0x9C, CHR 0xAC, CHR 0xE9, CHR 0xA1, CHR 0xB9, CHR 0xE7, CHR 0x9B, CHR 0xAE, CHR 0xE5, CHR 0xB1, CHR 0x95, CHR 0xE7, CHR 0xA4, CHR 0xBA, CHR 0xE4, CHR 0xB8, CHR 0x80, CHR 0xE7, CHR 0xA7, CHR 0x8D, CHR 0xE5, CHR 0x8F, CHR 0x97, CHR 0xE6, CHR 0x8E, CHR 0xA7] @ '' synthetic trace '' @ [CHR 0xE6, CHR 0x96, CHR 0xB9, CHR 0xE6, CHR 0xB3, CHR 0x95, CHR 0xEF, CHR 0xBC, CHR 0x8C, CHR 0xE7, CHR 0x94, CHR 0xA8, CHR 0xE4, CHR 0xBA, CHR 0x8E, CHR 0xE8, CHR 0xA7, CHR 0x82, CHR 0xE5, CHR 0xAF, CHR 0x9F] @ '' workload access pattern '' @ [CHR 0xE5, CHR 0xA6, CHR 0x82, CHR 0xE4, CHR 0xBD, CHR 0x95, CHR 0xE5, CHR 0xBD, CHR 0xB1, CHR 0xE5, CHR 0x93, CHR 0x8D, CHR 0xE5, CHR 0xBD, CHR 0x93, CHR 0xE5, CHR 0x89, CHR 0x8D] @ '' Project E simplified banked memory model'' @ [CHR 0xE3, CHR 0x80, CHR 0x82],
      ''- '' @ [CHR 0xE6, CHR 0x9C, CHR 0xAC, CHR 0xE9, CHR 0xA1, CHR 0xB9, CHR 0xE7, CHR 0x9B, CHR 0xAE, CHR 0xE6, CHR 0x94, CHR 0xAF, CHR 0xE6, CHR 0x8C, CHR 0x81, CHR 0xE8, CHR 0xB6, CHR 0x8B, CHR 0xE5, CHR 0x8A, CHR 0xBF, CHR 0xE7, CHR 0xBA, CHR 0xA7] @ '' bottleneck attribution'' @ [CHR 0xEF, CHR 0xBC, CHR 0x8C, CHR 0xE4, CHR 0xB8, CHR 0x8D, CHR 0xE6, CHR 0x94, CHR 0xAF, CHR 0xE6, CHR 0x8C, CHR 0x81, CHR 0xE7, CHR 0x9C, CHR 0x9F, CHR 0xE5, CHR 0xAE, CHR 0x9E, CHR 0xE7, CHR 0xA1, CHR 0xAC, CHR 0xE4, CHR 0xBB, CHR 0xB6] @ '' accuracy claim'' @ [CHR 0xE3, CHR 0x80, CHR 0x82],
      ''- '' @ [CHR 0xE6, CHR 0x9C, CHR 0xAC, CHR 0xE9, CHR 0xA1, CHR 0xB9, CHR 0xE7, CHR 0x9B, CHR 0xAE, CHR 0xE5, CHR 0x8F, CHR 0xAF, CHR 0xE4, CHR 0xBB, CHR 0xA5, CHR 0xE6, CHR 0xAF, CHR 0x94, CHR 0xE8, CHR 0xBE, CHR 0x83] @ '' `bank_count` '' @ [CHR 0xE5, CHR 0x92, CHR 0x8C] @ '' `address_mapping` '' @ [CHR 0xE5, CHR 0x9C, CHR 0xA8, CHR 0xE5, CHR 0xBD, CHR 0x93, CHR 0xE5, CHR 0x89, CHR 0x8D, CHR 0xE6, CHR 0xA8, CHR 0xA1, CHR 0xE5, CHR 0x9E, CHR 0x8B, CHR 0xE5, CHR 0xAE, CHR 0x9A, CHR 0xE4, CHR 0xB9, CHR 0x89, CHR 0xE4, CHR 0xB8, CHR 0x8B, CHR 0xE5, CHR 0xAF, CHR 0xB9] @ '' latency'' @ [CHR 0xE3, CHR 0x80, CHR 0x81] @ ''queueing'' @ [CHR 0xE3, CHR 0x80, CHR 0x81] @ ''bank concentration proxy '' @ [CHR 0xE5, CHR 0x92, CHR 0x8C] @ '' throughput '' @ [CHR 0xE7, CHR 0x9A, CHR 0x84, CHR 0xE7, CHR 0x9B, CHR 0xB8, CHR 0xE5, CHR 0xAF, CHR 0xB9, CHR 0xE5, CHR 0xBD, CHR 0xB1, CHR 0xE5, CHR 0x93, CHR 0x8D, CHR 0xE3, CHR 0x80, CHR 0x82],
      [],
      ''## Unsupported Claims'',
      [],
      ''- '' @ [CHR 0xE4, CHR 0xB8, CHR 0x8D, CHR 0xE5, CHR 0xA3, CHR 0xB0, CHR 0xE7, CHR 0xA7, CHR 0xB0, CHR 0xE7, CHR 0x9C, CHR 0x9F, CHR 0xE5, CHR 0xAE, CHR 0x9E] @ '' GPU '' @ [CHR 0xE6, CHR 0x80, CHR 0xA7, CHR 0xE8, CHR 0x83, CHR 0xBD, CHR 0xE3, CHR 0x80, CHR 0x82],
      ''- '' @ [CHR 0xE4, CHR 0xB8, CHR 0x8D, CHR 0xE5, CHR 0xA3, CHR 0xB0, CHR 0xE7, CHR 0xA7, CHR 0xB0] @ '' Apple Silicon '' @ [CHR 0xE9, CHR 0xAA, CHR 0x8C, CHR 0xE8, CHR 0xAF, CHR 0x81, CHR 0xE3, CHR 0x80, CHR 0x82],
      ''- '' @ [CHR 0xE4, CHR 0xB8, CHR 0x8D, CHR 0xE5, CHR 0xA3, CHR 0xB0, CHR 0xE7, CHR 0xA7, CHR 0xB0] @ '' NVIDIA Nsight '' @ [CHR 0xE9, CHR 0x9B, CHR 0x86, CHR 0xE6, CHR 0x88, CHR 0x90, CHR 0xE3, CHR 0x80, CHR 0x82],
      ''- '' @ [CHR 0xE4, CHR 0xB8, CHR 0x8D, CHR 0xE5, CHR 0xA3, CHR 0xB0, CHR 0xE7, CHR 0xA7, CHR 0xB0] @ '' ARM PMU '' @ [CHR 0xE9, CHR 0xAA, CHR 0x8C, CHR 0xE8, CHR 0xAF, CHR 0x81, CHR 0xE3, CHR 0x80, CHR 0x82],
      ''- '' @ [CHR 0xE4, CHR 0xB8, CHR 0x8D, CHR 0xE5, CHR 0xA3, CHR 0xB0, CHR 0xE7, CHR 0xA7, CHR 0xB0] @ '' Linux perf '' @ [CHR 0xE9, CHR 0xAA, CHR 0x8C, CHR 0xE8, CHR 0xAF, CHR 0x81, CHR 0xE3, CHR 0x80, CHR 0x82],
      ''- '' @ [CHR 0xE4, CHR 0xB8, CHR 0x8D, CHR 0xE5, CHR 0xA3, CHR 0xB0, CHR 0xE7, CHR 0xA7, CHR 0xB0] @ '' silicon validation'' @ [CHR 0xE3, CHR 0x80, CHR 0x82],
      ''- '' @ [CHR 0xE4, CHR 0xB8, CHR 0x8D, CHR 0xE5, CHR 0xA3, CHR 0xB0, CHR 0xE7, CHR 0xA7, CHR 0xB0] @ '' production signoff'' @ [CHR 0xE3, CHR 0x80, CHR 0x82],
      ''- '' @ [CHR 0xE4, CHR 0xB8, CHR 0x8D, CHR 0xE5, CHR 0xA3, CHR 0xB0, CHR 0xE7, CHR 0xA7, CHR 0xB0] @ '' full-system cycle accuracy'' @ [CHR 0xE3, CHR 0x80, CHR 0x82],
      ''- '' @ [CHR 0xE4, CHR 0xB8, CHR 0x8D, CHR 0xE5, CHR 0xA3, CHR 0xB0, CHR 0xE7, CHR 0xA7, CHR 0xB0] @ '' full SoC validation'' @ [CHR 0xE3, CHR 0x80, CHR 0x82],
      ''- '' @ [CHR 0xE4, CHR 0xB8, CHR 0x8D, CHR 0xE5, CHR 0xA3, CHR 0xB0, CHR 0xE7, CHR 0xA7, CHR 0xB0] @ '' AXI / CHI protocol compliance'' @ [CHR 0xE3, CHR 0x80, CHR 0x82],
      ''- '' @ [CHR 0xE4, CHR 0xB8, CHR 0x8D, CHR 0xE5, CHR 0xA3, CHR 0xB0, CHR 0xE7, CHR 0xA7, CHR 0xB0, CHR 0xE7, CHR 0x9C, CHR 0x9F, CHR 0xE5, CHR 0xAE, CHR 0x9E] @ '' GEMM kernel performance'' @ [CHR 0xE3, CHR 0x80, CHR 0x82],
      ''- '' @ [CHR 0xE4, CHR 0xB8, CHR 0x8D, CHR 0xE5, CHR 0xA3, CHR 0xB0, CHR 0xE7, CHR 0xA7, CHR 0xB0, CHR 0xE7, CHR 0x9C, CHR 0x9F, CHR 0xE5, CHR 0xAE, CHR 0x9E] @ '' Transformer / attention kernel performance'' @ [CHR 0xE3, CHR 0x80, CHR 0x82],
      ''- '' @ [CHR 0xE4, CHR 0xB8, CHR 0x8D, CHR 0xE5, CHR 0xA3, CHR 0xB0, CHR 0xE7, CHR 0xA7, CHR 0xB0] @ '' FlashAttention '' @ [CHR 0xE6, CHR 0x88, CHR 0x96] @ '' LLM inference performance'' @ [CHR 0xE3, CHR 0x80, CHR 0x82],
      ''- '' @ [CHR 0xE4, CHR 0xB8, CHR 0x8D, CHR 0xE5, CHR 0xA3, CHR 0xB0, CHR 0xE7, CHR 0xA7, CHR 0xB0] @ '' GPU simulation'' @ [CHR 0xE3, CHR 0x80, CHR 0x82],
      [],
      ''## Future Work'',
      [],
      ''- Keep optional synthetic patterns small and bounded.'',
      ''- Add future `xor_folded` mapping only after the model interface explicitly supports it.'',
      ''- Add queue-depth, service-latency, and burstiness sweeps in a later Project K step.'',
      ''- Keep Project G/H/I/J unchanged unless a later validation-integration task explicitly requests it.'',
      [],
      ''Claim boundary: '' @ CLAIM_BOUNDARY @ ''.'',
      []]"

definition output_lines :: "(string \<times> string) list \<Rightarrow> string list" where
  "output_lines generated = map (\<lambda>(label, path). ''- `'' @ label @ ''`: `'' @ path @ ''`'') generated"

definition k_report_lines ::
  "summary_row list \<Rightarrow> sweep_row list \<Rightarrow> (string \<times> string) list \<Rightarrow> string list" where
  "k_report_lines summary_rows sweep_rows generated =
     k_report_scope
     @ markdown_table k_summary_headers (map (\<lambda>r. row_fields k_summary_headers (summary_cells r)) summary_rows)
     @ k_report_evidence
     @ markdown_table k_sweep_headers (map (\<lambda>r. row_fields k_sweep_headers (sweep_cells r)) sweep_rows)
     @ [[], ''## Generated Outputs'', []] @ output_lines generated
     @ k_report_closing (length summary_rows) (length sweep_rows)"

definition write_generated_report ::
  "summary_row list \<Rightarrow> sweep_row list \<Rightarrow> (string \<times> string) list \<Rightarrow> string" where
  "write_generated_report summary_rows sweep_rows generated =
     py_join [CHR 0x0A] (k_report_lines summary_rows sweep_rows generated)"

section \<open>The Project L report\<close>

definition l_table_headers :: "string list" where
  "l_table_headers = [''workload'', ''primary_bottleneck'', ''recommended_action'', ''recommendation_priority'',
     ''evidence_summary'']"

definition l_report_story :: "string list" where
  "l_report_story = [''# Project L Evidence-Driven Memory Architecture Recommendation Report'',
      [],
      [CHR 0xE7, CHR 0x8A, CHR 0xB6, CHR 0xE6, CHR 0x80, CHR 0x81, CHR 0xEF, CHR 0xBC, CHR 0x9A] @ ''generated recommendation layer over Project K evidence'' @ [CHR 0xE3, CHR 0x80, CHR 0x82],
      [],
      ''## Architecture Story'',
      [],
      ''Project L keeps the Project K model boundary intact and adds a lightweight recommendation layer above the generated workload metrics. It converts trace-derived and model-derived evidence into bounded memory-architecture hypotheses: bank parallelism, address mapping, locality / tiling, queueing pressure, service latency, or continued observation when the evidence is not strong enough.'',
      [],
      ''This layer does not change Project E or the underlying SystemC/TLM model. It reads Project K summary and sweep evidence, applies deterministic heuristics, and writes auditable CSV / markdown artifacts for early architecture tradeoff discussion.'',
      [],
      ''## Workload-Level Recommendations'',
      []]"

definition l_report_rules :: "string list" where
  "l_report_rules = [[],
      ''## Rule Logic'',
      [],
      ''- Low Project K confidence keeps the workload in observation mode.'',
      ''- High bank-conflict evidence plus high bank-count sensitivity maps to `increase_bank_parallelism`.'',
      ''- High mapping sensitivity maps to `change_address_mapping` only when the best observed mapping differs from the current baseline.'',
      ''- Weak locality evidence maps to `improve_locality_or_tiling`.'',
      ''- Queue delay clearly above service delay maps to `reduce_queueing_pressure`.'',
      ''- Service delay clearly above queue delay, with low bank-conflict evidence, maps to `reduce_target_service_latency`.'',
      ''- If no single rule dominates, the recommendation stays `no_single_dominant_action`.'',
      [],
      ''## Generated Outputs'',
      []]"

definition l_report_closing :: "nat \<Rightarrow> string list" where
  "l_report_closing n_rows = [[],
      ''## Acceptance Result'',
      [],
      ''- `recommendation_rows='' @ str_nat n_rows @ ''`'',
      ''- `claim_boundary=PASS`'',
      ''- `schema_version='' @ PROJECT_L_SCHEMA_VERSION @ ''`'',
      [],
      ''## Claim Boundary / Unsupported Claims'',
      [],
      ''- This is not cycle-accurate simulation.'',
      ''- This is not silicon validation.'',
      ''- This is not GPU simulation.'',
      ''- This is not real GEMM / Transformer / attention performance claim.'',
      ''- This is not AXI / CHI protocol compliance.'',
      ''- This is not production signoff.'',
      ''- This layer does not claim PMU / perf / Nsight correlation.'',
      [],
      ''## Portfolio / Interview Narrative'',
      [],
      ''Project L is an evidence-driven architecture recommendation layer. It shows how workload traces, model-derived metrics, bank-conflict proxies, queueing symptoms, service-latency split, and sweep sensitivity can be interpreted as bounded design hypotheses.'',
      [],
      ''The useful interview framing is architecture decision support, not absolute prediction. The output helps explain why an early-stage SoC architecture or performance modeling discussion might prioritize more modeled bank parallelism, a different address mapping, locality improvement, queue-pressure reduction, service-latency work, or more measurement before recommending a design change.'',
      []]"

definition l_report_lines :: "recommendation list \<Rightarrow> (string \<times> string) list \<Rightarrow> string list" where
  "l_report_lines rows generated =
     l_report_story
     @ markdown_table l_table_headers (map (\<lambda>r. row_fields l_table_headers (recommendation_cells r)) rows)
     @ l_report_rules @ output_lines generated @ l_report_closing (length rows)"

definition write_project_l_report :: "recommendation list \<Rightarrow> (string \<times> string) list \<Rightarrow> string" where
  "write_project_l_report rows generated = py_join [CHR 0x0A] (l_report_lines rows generated)"

section \<open>The acceptance checks\<close>

text \<open>\<open>if c: errors.append(message)\<close>.\<close>

definition report_if :: "bool \<Rightarrow> string \<Rightarrow> string list" where
  "report_if c message = (if c then [message] else [])"

definition count_differs :: "string \<Rightarrow> nat \<Rightarrow> nat \<Rightarrow> string list" where
  "count_differs what n expected = report_if (n \<noteq> expected) (what @ str_nat n @ '' != '' @ str_nat expected)"

definition k_acceptance_errors ::
  "string list list \<Rightarrow> string list list \<Rightarrow> string \<Rightarrow> summary_row list \<Rightarrow> sweep_row list \<Rightarrow> string list" where
  "k_acceptance_errors summary_csv sweep_csv report_text summary_rows sweep_rows =
     (let expected_sweep_from_knobs = EXPECTED_TOTAL_WORKLOADS * length BANK_COUNT_SWEEP * length ADDRESS_MAPPING_SWEEP;
          summary_missing = missing_fields (csv_header summary_csv) STABLE_SUMMARY_FIELDS;
          sweep_missing = missing_fields (csv_header sweep_csv) STABLE_SWEEP_FIELDS;
          missing_claim_markers = filter (\<lambda>m. \<not> py_in m report_text) REQUIRED_UNSUPPORTED_CLAIM_MARKERS;
          forbidden_hits = forbidden_affirmative_claim_hits report_text in
      count_differs ''core workload count '' (length CORE_WORKLOADS) EXPECTED_CORE_WORKLOADS
      @ count_differs ''optional synthetic pattern count '' (length OPTIONAL_SYNTHETIC_PATTERNS)
          EXPECTED_OPTIONAL_SYNTHETIC_PATTERNS
      @ count_differs ''total workload count '' (length ALL_WORKLOADS) EXPECTED_TOTAL_WORKLOADS
      @ count_differs ''summary rows '' (length summary_rows) EXPECTED_TOTAL_WORKLOADS
      @ count_differs ''sweep rows '' (length sweep_rows) EXPECTED_SWEEP_ROWS
      @ report_if (EXPECTED_SWEEP_ROWS \<noteq> expected_sweep_from_knobs)
          (''expected sweep rows '' @ str_nat EXPECTED_SWEEP_ROWS @ '' != knob product '' @ str_nat expected_sweep_from_knobs)
      @ report_if (list_ex (\<lambda>row. a_claim_boundary (sr_attribution row) \<noteq> CLAIM_BOUNDARY) summary_rows)
          ''one or more summary rows have a mismatched claim boundary''
      @ report_if (summary_missing \<noteq> []) (''summary CSV missing stable fields: '' @ py_join '', '' summary_missing)
      @ report_if (sweep_missing \<noteq> []) (''sweep CSV missing stable fields: '' @ py_join '', '' sweep_missing)
      @ report_if (missing_claim_markers \<noteq> [])
          (''generated report missing unsupported-claim markers: '' @ py_join '', '' missing_claim_markers)
      @ report_if (forbidden_hits \<noteq> [])
          (''generated report has possible affirmative forbidden claim(s): '' @ py_join ''; '' forbidden_hits))"

definition raise_errors :: "string \<Rightarrow> string list \<Rightarrow> unit result" where
  "raise_errors project errors =
     raise_if (errors \<noteq> []) (DemoError (project @ '' acceptance self-check failed: '' @ py_join '' | '' errors))"

definition validate_project_k_acceptance ::
  "string list list \<Rightarrow> string list list \<Rightarrow> string \<Rightarrow> summary_row list \<Rightarrow> sweep_row list \<Rightarrow> unit result" where
  "validate_project_k_acceptance summary_csv sweep_csv report_text summary_rows sweep_rows =
     raise_errors ''Project K'' (k_acceptance_errors summary_csv sweep_csv report_text summary_rows sweep_rows)"

text \<open>\<open>f"{row.get('workload')}"\<close> prints a missing workload as \<open>None\<close>.\<close>

definition recommendation_errors :: "recommendation \<Rightarrow> string list" where
  "recommendation_errors row =
     (let w = (case rec_workload row of None \<Rightarrow> ''None'' | Some s \<Rightarrow> s) in
      report_if (rec_recommended_action row \<notin> set PROJECT_L_ALLOWED_RECOMMENDED_ACTIONS)
        (''Project L row has invalid recommended_action: '' @ w @ ''='' @ rec_recommended_action row)
      @ report_if (rec_priority row \<notin> set PROJECT_L_ALLOWED_RECOMMENDATION_PRIORITIES)
        (''Project L row has invalid recommendation_priority: '' @ w @ ''='' @ rec_priority row)
      @ report_if (rec_claim_boundary row \<noteq> PROJECT_L_CLAIM_BOUNDARY)
        (''Project L row has mismatched claim_boundary: '' @ w @ ''='' @ rec_claim_boundary row))"

definition L_REQUIRED_SECTIONS :: "string list" where
  "L_REQUIRED_SECTIONS = [''## Architecture Story'', ''## Workload-Level Recommendations'', ''## Rule Logic'',
     ''## Claim Boundary / Unsupported Claims'', ''## Portfolio / Interview Narrative'']"

definition l_acceptance_errors ::
  "string list list \<Rightarrow> string \<Rightarrow> string option \<Rightarrow> recommendation list \<Rightarrow> string list" where
  "l_acceptance_errors recommendation_csv report_path report rows =
     (let missing = missing_fields (csv_header recommendation_csv) PROJECT_L_RECOMMENDATION_FIELDS in
      report_if (length ALL_WORKLOADS \<noteq> PROJECT_L_EXPECTED_TOTAL_WORKLOADS) (''Project L workload count ''
          @ str_nat (length ALL_WORKLOADS) @ '' != '' @ str_nat PROJECT_L_EXPECTED_TOTAL_WORKLOADS)
      @ report_if (length rows \<noteq> PROJECT_L_EXPECTED_RECOMMENDATION_ROWS) (''Project L recommendation rows ''
          @ str_nat (length rows) @ '' != '' @ str_nat PROJECT_L_EXPECTED_RECOMMENDATION_ROWS)
      @ report_if (missing \<noteq> []) (''Project L recommendation CSV missing fields: '' @ py_join '', '' missing)
      @ concat (map recommendation_errors rows)
      @ (case report of
           None \<Rightarrow> [''Project L report not found: '' @ report_path]
         | Some report_text \<Rightarrow>
             (let missing_sections = filter (\<lambda>s. \<not> py_in s report_text) L_REQUIRED_SECTIONS;
                  missing_claim_markers = filter (\<lambda>m. \<not> py_in m report_text) PROJECT_L_REQUIRED_UNSUPPORTED_CLAIM_MARKERS;
                  forbidden_hits = forbidden_affirmative_claim_hits report_text in
              report_if (missing_sections \<noteq> []) (''Project L report missing sections: '' @ py_join '', '' missing_sections)
              @ report_if (missing_claim_markers \<noteq> [])
                  (''Project L report missing unsupported-claim markers: '' @ py_join '', '' missing_claim_markers)
              @ report_if (forbidden_hits \<noteq> [])
                  (''Project L report has possible affirmative forbidden claim(s): '' @ py_join ''; '' forbidden_hits))))"

definition validate_project_l_acceptance ::
  "string list list \<Rightarrow> string \<Rightarrow> string option \<Rightarrow> recommendation list \<Rightarrow> unit result" where
  "validate_project_l_acceptance recommendation_csv report_path report rows =
     raise_errors ''Project L'' (l_acceptance_errors recommendation_csv report_path report rows)"

text \<open>The second half of \<open>main\<close>: reports, checks and recommendations, from the rows of the sweep.\<close>

record k_outputs =
  out_summary_csv :: "string list list"
  out_sweep_csv :: "string list list"
  out_report :: string
  out_recommendation_csv :: "string list list"
  out_l_report :: string

definition finish_run ::
  "(string \<times> string) list \<Rightarrow> (string \<times> string) list \<Rightarrow> string \<Rightarrow> summary_row list \<Rightarrow> sweep_row list \<Rightarrow> k_outputs result" where
  "finish_run k_generated l_generated l_report_path summary_rows sweep_rows =
     (let summary_csv = csv_records K_SUMMARY_FIELDS (map summary_cells summary_rows);
          sweep_csv = csv_records STABLE_SWEEP_FIELDS (map sweep_cells sweep_rows);
          report = write_generated_report summary_rows sweep_rows k_generated in
      bindR (validate_project_k_acceptance summary_csv sweep_csv report summary_rows sweep_rows) (\<lambda>_.
      bindR (build_project_l_recommendation_rows summary_rows sweep_rows) (\<lambda>recommendation_rows.
      let recommendation_csv = csv_records PROJECT_L_RECOMMENDATION_FIELDS (map recommendation_cells recommendation_rows);
          l_report = write_project_l_report recommendation_rows l_generated in
      bindR (validate_project_l_acceptance recommendation_csv l_report_path (Some l_report) recommendation_rows) (\<lambda>_.
      Inr \<lparr>out_summary_csv = summary_csv, out_sweep_csv = sweep_csv, out_report = report,
        out_recommendation_csv = recommendation_csv, out_l_report = l_report\<rparr>))))"

definition main_project_k ::
  "(string \<rightharpoonup> features) \<Rightarrow> (string \<Rightarrow> int \<Rightarrow> (csv_row list \<times> csv_row list) result) \<Rightarrow>
     (string \<times> string) list \<Rightarrow> (string \<times> string) list \<Rightarrow> string \<Rightarrow> k_outputs result" where
  "main_project_k ft_by project_e k_generated l_generated l_report_path =
     bindR (run_sweep ft_by project_e) (\<lambda>(sweep_rows, summary_rows).
     finish_run k_generated l_generated l_report_path summary_rows sweep_rows)"

end
