(* ===== verification/K_Acceptance.thy ===== *)
theory K_Acceptance
  imports K_Reports
begin

text \<open>
  The acceptance checks of Project K and Project L never reject the reports the tool itself
  writes.  A forbidden claim is two words joined by a blank or a hyphen; no table line of a
  report has such a pair.  A fixed line is scanned once for the words that the forbidden
  claims share; the few that contain one are searched in full.
\<close>

section \<open>Lines of a report\<close>

definition line_ok :: "string \<Rightarrow> bool" where
  "line_ok l \<longleftrightarrow> no_break l \<and> \<not> claim_hit l"

lemma no_claim_hits:
  assumes "list_all line_ok ls"
  shows "forbidden_affirmative_claim_hits (py_join [CHR 0x0A] ls) = []"
proof -
  have "list_all no_break ls" using assms by (auto simp: list_all_iff line_ok_def)
  from set_splitlines_join [OF this]
  have "\<forall>l \<in> set (splitlines (py_join [CHR 0x0A] ls)). \<not> claim_hit l"
    using assms by (auto simp: list_all_iff line_ok_def)
  then show ?thesis
    by (auto simp: forbidden_affirmative_claim_hits_def filter_empty_conv in_set_enumerate_eq)
qed

section \<open>Scanning a fixed line once\<close>

definition CLAIM_WORDS :: "string list" where
  "CLAIM_WORDS = [''rform'', ''rela'', ''cycle'', ''ignof'', ''valid'']"

fun reads :: "string \<Rightarrow> string \<Rightarrow> bool" where
  "reads [] s = True"
| "reads (k # ks) [] = False"
| "reads (k # ks) (c # cs) = (lower_char c = k \<and> reads ks cs)"

fun plain_line :: "string \<Rightarrow> bool" where
  "plain_line [] = True"
| "plain_line (c # cs) =
     (\<not> is_line_break c
      \<and> \<not> (lower_char c = CHR ''r'' \<and> (reads ''form'' cs \<or> reads ''ela'' cs))
      \<and> \<not> (lower_char c = CHR ''c'' \<and> reads ''ycle'' cs)
      \<and> \<not> (lower_char c = CHR ''i'' \<and> reads ''gnof'' cs)
      \<and> \<not> (lower_char c = CHR ''v'' \<and> reads ''alid'' cs) \<and> plain_line cs)"

lemma reads_starts: "starts_with w (py_lower s) = reads w s"
  by (induction w s rule: reads.induct) (auto simp: py_lower_def)

lemma plain_line_word:
  "plain_line l \<Longrightarrow> w \<in> set CLAIM_WORDS \<Longrightarrow> \<not> py_in w (py_lower l)"
proof (induction l)
  case Nil
  then show ?case by (auto simp: py_lower_def CLAIM_WORDS_def)
next
  case (Cons c cs)
  have "\<not> starts_with w (py_lower (c # cs))"
    unfolding reads_starts using Cons.prems by (auto simp: CLAIM_WORDS_def)
  then show ?case using Cons by (simp add: py_lower_def)
qed

lemma claims_have_words:
  "list_all (\<lambda>p. list_ex (\<lambda>w. py_in w (py_lower p)) CLAIM_WORDS) FORBIDDEN_AFFIRMATIVE_CLAIM_PATTERNS"
  by code_simp

lemma plain_line_ok: "plain_line l \<Longrightarrow> line_ok l"
proof -
  assume l: "plain_line l"
  have "no_break l" using l by (induction l) (auto simp: no_break_def)
  moreover have "\<not> has_forbidden (py_lower l)"
  proof
    assume "has_forbidden (py_lower l)"
    then obtain p where p: "p \<in> set FORBIDDEN_AFFIRMATIVE_CLAIM_PATTERNS" "sublist (py_lower p) (py_lower l)"
      by (auto simp: has_forbidden_def list_ex_iff py_in_sublist)
    then obtain w where "w \<in> set CLAIM_WORDS" "sublist w (py_lower p)"
      using claims_have_words by (auto simp: list_all_iff list_ex_iff py_in_sublist)
    then show False using plain_line_word [OF l] p(2) by (metis py_in_sublist sublist_order.order_trans)
  qed
  ultimately show ?thesis by (simp add: line_ok_def claim_hit_def Let_def)
qed

text \<open>Lines with one of the words: in full, a negation first.\<close>

definition fixed_line :: "string \<Rightarrow> bool" where
  "fixed_line l \<longleftrightarrow> plain_line l \<or> line_ok l"

lemma fixed_lines_ok: "list_all fixed_line ls \<Longrightarrow> list_all line_ok ls"
  by (auto simp: list_all_iff fixed_line_def plain_line_ok)

lemma printed_counts: "str_nat (length CORE_WORKLOADS) = ''3''" "str_nat (length OPTIONAL_SYNTHETIC_PATTERNS) = ''2''"
  "str_nat (length ALL_WORKLOADS) = ''5''" "str_nat 5 = ''5''" "str_nat 45 = ''45''"
proof -
  have "length CORE_WORKLOADS = 3" "length OPTIONAL_SYNTHETIC_PATTERNS = 2" "length ALL_WORKLOADS = 5"
    by (simp_all add: CORE_WORKLOADS_def OPTIONAL_SYNTHETIC_PATTERNS_def ALL_WORKLOADS_def)
  then show "str_nat (length CORE_WORKLOADS) = ''3''" "str_nat (length OPTIONAL_SYNTHETIC_PATTERNS) = ''2''"
    "str_nat (length ALL_WORKLOADS) = ''5''"
    by (simp_all only:) code_simp+
  show "str_nat 5 = ''5''" "str_nat 45 = ''45''" by code_simp+
qed

lemma l_story_ok: "list_all fixed_line l_report_story"
  unfolding l_report_story_def list.pred_inject by (intro conjI TrueI; code_simp)

lemma l_rules_ok: "list_all fixed_line l_report_rules"
  unfolding l_report_rules_def list.pred_inject by (intro conjI TrueI; code_simp)

lemma l_closing_ok: "list_all fixed_line (l_report_closing 5)"
  unfolding l_report_closing_def printed_counts list.pred_inject by (intro conjI TrueI; code_simp)

lemma k_scope_ok: "list_all fixed_line k_report_scope"
  unfolding k_report_scope_def list.pred_inject by (intro conjI TrueI; code_simp)

lemma k_evidence_ok: "list_all fixed_line k_report_evidence"
  unfolding k_report_evidence_def list.pred_inject by (intro conjI TrueI; code_simp)

lemma k_closing_ok: "list_all fixed_line (k_report_closing 5 45)"
  unfolding k_report_closing_def printed_counts list.pred_inject by (intro conjI TrueI; code_simp)

text \<open>Each required marker is a bullet of the closing part.\<close>

lemmas literal_simps = list.pred_inject list.set insert_iff append_assoc append_Cons append_Nil simp_thms

lemma k_marker_lines:
  "list_all (\<lambda>m. ''- '' @ m @ [CHR 0xE3, CHR 0x80, CHR 0x82] \<in> set (k_report_closing 5 45)) REQUIRED_UNSUPPORTED_CLAIM_MARKERS"
  unfolding k_report_closing_def REQUIRED_UNSUPPORTED_CLAIM_MARKERS_def by (simp only: literal_simps)

lemma l_marker_lines:
  "list_all (\<lambda>m. ''- '' @ m @ ''.'' \<in> set (l_report_closing 5)) PROJECT_L_REQUIRED_UNSUPPORTED_CLAIM_MARKERS"
  unfolding l_report_closing_def PROJECT_L_REQUIRED_UNSUPPORTED_CLAIM_MARKERS_def by (simp only: literal_simps)

lemma l_section_lines:
  "list_all (\<lambda>s. s \<in> set (l_report_story @ l_report_rules @ l_report_closing 5)) L_REQUIRED_SECTIONS"
  unfolding l_report_closing_def l_report_story_def l_report_rules_def L_REQUIRED_SECTIONS_def
  by (simp only: literal_simps)


section \<open>Table lines\<close>

definition letter :: "char \<Rightarrow> bool" where
  "letter c \<longleftrightarrow> (65 \<le> ccode c \<and> ccode c \<le> 90) \<or> (97 \<le> ccode c \<and> ccode c \<le> 122)"

lemma letter_code [code]:
  "letter (Char b0 b1 b2 b3 b4 b5 b6 b7) \<longleftrightarrow> \<not> b7 \<and> b6 \<and> (b0 \<or> b1 \<or> b2 \<or> b3 \<or> b4) \<and> \<not> (b4 \<and> b3 \<and> (b2 \<or> b1 \<and> b0))"
  by (cases b0; cases b1; cases b2; cases b3; cases b4; cases b5; cases b6; cases b7)
     (simp_all add: letter_def ccode_def of_char_def)

definition gap :: "char \<Rightarrow> bool" where
  "gap c \<longleftrightarrow> c = CHR '' '' \<or> c = CHR ''-''"

text \<open>No two letters joined by a blank or a hyphen.\<close>

fun no_gap :: "string \<Rightarrow> bool" where
  "no_gap (a # g # b # s) = (\<not> (letter a \<and> gap g \<and> letter b) \<and> no_gap (g # b # s))"
| "no_gap _ = True"

definition joined :: "string \<Rightarrow> bool" where
  "joined l \<longleftrightarrow> no_gap l \<and> no_break l"

lemma lower_letter: "letter (lower_char c) = letter c" "gap (lower_char c) = gap c"
  by (cases c; simp add: lower_char_code letter_code gap_def; blast)+

lemma no_gap_lower: "no_gap (py_lower s) = no_gap s"
  by (induction s rule: no_gap.induct) (auto simp: py_lower_def lower_letter)

lemma no_gap_Cons: "no_gap (c # s) \<Longrightarrow> no_gap s"
  by (cases "c # s" rule: no_gap.cases) auto

lemma no_gap_append1: "no_gap (s @ t) \<Longrightarrow> no_gap s"
proof (induction s rule: no_gap.induct)
  case (1 a g b s)
  then show ?case by simp
qed simp_all

lemma no_gap_append2: "no_gap (s @ t) \<Longrightarrow> no_gap t"
  by (induction s) (auto dest: no_gap_Cons)

lemma no_gap_sublist: "sublist s t \<Longrightarrow> no_gap t \<Longrightarrow> no_gap s"
  by (auto simp: sublist_def dest: no_gap_append1 no_gap_append2)

lemma claims_have_gaps: "list_all (\<lambda>p. \<not> no_gap (py_lower p)) FORBIDDEN_AFFIRMATIVE_CLAIM_PATTERNS"
  by code_simp

lemma joined_ok: "joined l \<Longrightarrow> line_ok l"
  using claims_have_gaps no_gap_sublist [of _ "py_lower l"] no_gap_lower [of l]
  by (auto simp: joined_def line_ok_def claim_hit_def has_forbidden_def list_ex_iff list_all_iff Let_def py_in_sublist)

text \<open>A character that is neither letter nor gap separates what is before from what is after.\<close>

lemma no_gap_skip: "\<not> letter c \<Longrightarrow> no_gap (c # t) = no_gap t"
  by (cases t rule: no_gap.cases) auto

lemma no_gap_skip2: "\<not> letter c \<Longrightarrow> \<not> gap c \<Longrightarrow> no_gap (a # c # t) = no_gap t"
  by (cases t) (auto simp: no_gap_skip)

lemma no_gap_cut:
  "\<not> letter c \<Longrightarrow> \<not> gap c \<Longrightarrow> no_gap (s @ c # t) \<longleftrightarrow> no_gap s \<and> no_gap t"
  by (induction s rule: no_gap.induct) (auto simp: no_gap_skip no_gap_skip2)

text \<open>A cell: blanks around it do not make a pair.\<close>

definition cell_ok :: "string \<Rightarrow> bool" where
  "cell_ok v \<longleftrightarrow> no_gap ('' '' @ markdown_cell v @ '' '') \<and> no_break (markdown_cell v)"

definition word :: "string \<Rightarrow> bool" where
  "word w \<longleftrightarrow> list_all (\<lambda>c. \<not> gap c \<and> \<not> is_line_break c) w"

lemma no_gap_word: "list_all (\<lambda>c. \<not> gap c) w \<Longrightarrow> no_gap (c # w @ [d])"
  by (induction w arbitrary: c) (simp, case_tac w, auto)

lemma markdown_cell_word: "word v \<Longrightarrow> word (markdown_cell v)"
proof -
  assume v: "word v"
  have facts: "is_line_break (CHR 0x0A)" "\<not> gap (CHR 0x5C)" "\<not> is_line_break (CHR 0x5C)"
    "\<not> gap (CHR ''|'')" "\<not> is_line_break (CHR ''|'')" by code_simp+
  then have "CHR 0x0A \<notin> set v" using v by (auto simp: word_def list_all_iff)
  then have "c \<in> set v \<or> c = CHR 0x5C \<or> c = CHR ''|''" if "c \<in> set (markdown_cell v)" for c
    using that by (auto simp: markdown_cell_def py_replace1_def split: if_splits)
  then show ?thesis using v facts by (fastforce simp: word_def list_all_iff)
qed

lemma word_cell_ok: "word v \<Longrightarrow> cell_ok v"
  using markdown_cell_word [of v] no_gap_word [of "markdown_cell v"]
  by (auto simp: cell_ok_def word_def no_break_def list_all_iff)

lemma no_break_append: "no_break (s @ t) \<longleftrightarrow> no_break s \<and> no_break t"
  by (auto simp: no_break_def)

lemma bar_facts: "\<not> letter (CHR ''|'')" "\<not> gap (CHR ''|'')" "\<not> is_line_break (CHR ''|'')" "\<not> is_line_break (CHR '' '')"
  by (simp_all add: letter_code gap_def is_line_break_code)

lemma row_tail_joined:
  "vs \<noteq> [] \<Longrightarrow> \<forall>v \<in> set vs. cell_ok v \<Longrightarrow> joined ('' '' @ py_join '' | '' (map markdown_cell vs) @ '' |'')"
proof (induction vs)
  case (Cons v vs)
  have v: "no_gap ('' '' @ markdown_cell v @ '' '')" "no_break (markdown_cell v)"
    using Cons.prems by (auto simp: cell_ok_def)
  show ?case
  proof (cases vs)
    case Nil
    then show ?thesis using v no_gap_cut [OF bar_facts(1,2), of "'' '' @ markdown_cell v @ '' ''" "[]"]
      by (simp add: joined_def no_break_append no_break_def bar_facts)
  next
    case (Cons w ws)
    have "joined ('' '' @ py_join '' | '' (map markdown_cell vs) @ '' |'')"
      using Cons.IH Cons.prems Cons by auto
    then show ?thesis
      using v Cons no_gap_cut [OF bar_facts(1,2), of "'' '' @ markdown_cell v @ '' ''"
          "'' '' @ py_join '' | '' (map markdown_cell vs) @ '' |''"]
      by (auto simp: joined_def no_break_append no_break_def bar_facts)
  qed
qed simp

lemma markdown_line_joined: "vs \<noteq> [] \<Longrightarrow> \<forall>v \<in> set vs. cell_ok v \<Longrightarrow> joined (markdown_line vs)"
  using row_tail_joined [of vs] no_gap_cut [OF bar_facts(1,2), of "[]"]
  by (auto simp: joined_def markdown_line_def no_break_def bar_facts)


section \<open>The values in the tables\<close>

lemma dec_digits_digit: "c \<in> set (dec_digits n) \<Longrightarrow> is_digit c"
proof (induction n rule: dec_digits.induct)
  case (1 n)
  have "is_digit (dchar n)" if "n < 10"
    using that is_digit_dchar [of n] by (cases "0 \<le> n") (auto simp: dchar_def is_digit_code)
  then show ?case
    using 1 is_digit_dchar [of "n mod 10"] unfolding dec_digits.simps [of n] by (auto split: if_splits)
qed

lemma fixed_digit: "c \<in> set (fixed k n) \<Longrightarrow> is_digit c \<or> c = CHR ''.''"
  using digits_pad0 [of "dec_digits (n mod 10 ^ k)" c k] dec_digits_digit
  by (auto simp: fixed_def)

lemma digit_word: "is_digit c \<Longrightarrow> \<not> gap c \<and> \<not> is_line_break c"
  by (cases c) (auto simp: is_digit_code gap_def is_line_break_code)

lemma word_digits: "\<forall>c \<in> set w. is_digit c \<or> c = CHR ''.'' \<Longrightarrow> word w"
proof -
  assume w: "\<forall>c \<in> set w. is_digit c \<or> c = CHR ''.''"
  have "\<not> gap (CHR ''.'')" "\<not> is_line_break (CHR ''.'')" by code_simp+
  then show ?thesis using w digit_word by (auto simp: word_def list_all_iff)
qed

text \<open>A number: digits, or a minus sign before them, or \<open>NA\<close>.\<close>

definition number :: "string \<Rightarrow> bool" where
  "number v \<longleftrightarrow> (\<exists>w. word w \<and> (v = w \<or> v = CHR ''-'' # w))"

lemma number_fmt_float: "number (fmt_float v)"
proof (cases v)
  case (Some x)
  show ?thesis
  proof (cases "\<exists>s m e. x = Fin s m e")
    case True
    then obtain s m e where x: "x = Fin s m e" by blast
    obtain n d where nd: "frac_of 2 m e = (n, d)" by fastforce
    let ?w = "fixed 3 (rhe_div (n * 10 ^ 3) d)"
    have "word ?w" using fixed_digit word_digits by blast
    moreover have "fmt_float v = (if s then ''-'' else []) @ ?w"
      using Some by (simp add: x fmt_float_def fmt3_def nd)
    ultimately show ?thesis by (auto simp: number_def)
  next
    case False
    then have "fmt_float v = ''NA''" using Some by (cases x) (auto simp: fmt_float_def)
    moreover have "word ''NA''" by code_simp
    ultimately show ?thesis by (auto simp: number_def)
  qed
next
  case None
  have "word ''NA''" by code_simp
  then show ?thesis using None by (auto simp: number_def fmt_float_def)
qed

lemma number_str_int: "number (str_int n)"
  using word_digits [of "dec_digits n"] word_digits [of "dec_digits (- n)"] dec_digits_digit
  by (auto simp: number_def str_int_def)

lemma number_fmt_int: "number (fmt_int v)"
proof -
  have "word ''NA''" by code_simp
  then show ?thesis using number_str_int by (auto simp: fmt_int_def number_def split: option.splits)
qed

lemma number_word: "word w \<Longrightarrow> number w"
  by (auto simp: number_def)

lemma markdown_cell_append: "markdown_cell (s @ t) = markdown_cell s @ markdown_cell t"
  by (simp add: markdown_cell_def py_replace1_def)

lemma minus_facts: "\<not> letter (CHR ''-'')" "\<not> letter (CHR '' '')" "\<not> is_line_break (CHR ''-'')"
  "markdown_cell ''-'' = ''-''"
  by code_simp+

lemma number_cell: "number v \<Longrightarrow> no_gap (markdown_cell v) \<and> no_break (markdown_cell v) \<and> cell_ok v"
proof -
  assume "number v"
  then obtain w where w: "word w" "v = w \<or> v = ''-'' @ w" by (auto simp: number_def)
  let ?m = "markdown_cell w"
  have m: "list_all (\<lambda>c. \<not> gap c) ?m" "no_break ?m"
    using markdown_cell_word [OF w(1)] by (auto simp: word_def no_break_def list_all_iff)
  have g: "no_gap (c # ?m @ [d])" for c d by (rule no_gap_word [OF m(1)])
  have "no_gap (CHR '' '' # CHR ''-'' # ?m @ '' '')"
    using g [of "CHR ''-''" "CHR '' ''"] minus_facts(2) by (cases ?m) auto
  moreover have "markdown_cell (''-'' @ w) = CHR ''-'' # ?m"
    unfolding markdown_cell_append minus_facts by simp
  ultimately have "cell_ok v" using w(2) g [of "CHR '' ''" "CHR '' ''"] m(2) minus_facts
    by (auto simp: cell_ok_def no_break_def)
  moreover have "no_gap (markdown_cell v)"
    using \<open>cell_ok v\<close> no_gap_append1 no_gap_append2 unfolding cell_ok_def by blast
  ultimately show ?thesis by (auto simp: cell_ok_def)
qed

text \<open>A literal that ends in a separator, and a value that is followed by one.\<close>

definition lead :: "string \<Rightarrow> bool" where
  "lead s \<longleftrightarrow> s \<noteq> [] \<and> markdown_cell s = s \<and> no_break s \<and> no_gap s \<and> \<not> letter (last s) \<and> \<not> gap (last s)"

definition smooth :: "string \<Rightarrow> bool" where
  "smooth s \<longleftrightarrow> no_gap (markdown_cell s) \<and> no_break (markdown_cell s)"

lemma smooth_lead: "lead s \<Longrightarrow> smooth t \<Longrightarrow> smooth (s @ t)"
proof -
  assume s: "lead s" and t: "smooth t"
  have eq: "s @ u = butlast s @ last s # u" for u
    using s by (metis append.assoc append_Cons append_Nil append_butlast_last_id lead_def)
  have "no_gap (butlast s)" using s eq [of "[]"] no_gap_append1 [of "butlast s" "[last s]"] by (simp add: lead_def)
  then have "no_gap (s @ markdown_cell t)"
    unfolding eq using s t by (subst no_gap_cut) (auto simp: lead_def smooth_def)
  then show ?thesis using s t by (simp add: lead_def smooth_def markdown_cell_append no_break_append)
qed

lemma smooth_value:
  "number v \<Longrightarrow> smooth (c # t) \<Longrightarrow> markdown_cell [c] = [c] \<Longrightarrow> \<not> letter c \<Longrightarrow> \<not> gap c \<Longrightarrow> smooth (v @ c # t)"
  using number_cell [of v] no_gap_cut [of c "markdown_cell v" "markdown_cell t"]
    markdown_cell_append [of "[c]" t] no_gap_Cons [of c "markdown_cell t"]
  by (auto simp: smooth_def markdown_cell_append no_break_append)

lemma separators: "markdown_cell [CHR '';''] = [CHR '';'']" "\<not> letter (CHR '';'')" "\<not> gap (CHR '';'')"
  "markdown_cell [CHR ''/''] = [CHR ''/'']" "\<not> letter (CHR ''/'')" "\<not> gap (CHR ''/'')"
  "markdown_cell [CHR '','' ] = [CHR '','' ]" "\<not> letter (CHR '','')" "\<not> gap (CHR '','')"
  by code_simp+

lemma evidence_leads: "list_all lead ['' bank_conflict_proxy='', ''; bank_count_sensitivity_score='',
   ''; mapping_sensitivity_score='', ''; queue_delay_ratio='', ''; service_delay_ratio='', ''; best='', ''/'',
   ''; signals=locality:'', '',queueing:'', '',service:'', '',bank_conflict:'']"
  by code_simp


section \<open>The acceptance checks always pass\<close>

lemma evidence_smooth:
  assumes "word (address_mapping_best best)" "word (locality_signal sg)" "word (queueing_signal sg)"
    "word (service_signal sg)" "word (bank_conflict_signal sg)"
  shows "cell_ok (project_l_evidence_summary row best sg)"
proof -
  have L: "\<And>s. s \<in> set ['' bank_conflict_proxy='', ''; bank_count_sensitivity_score='',
   ''; mapping_sensitivity_score='', ''; queue_delay_ratio='', ''; service_delay_ratio='', ''; best='', ''/'',
   ''; signals=locality:'', '',queueing:'', '',service:'', '',bank_conflict:''] \<Longrightarrow> lead s"
    using evidence_leads unfolding list_all_iff by blast
  note w = assms [THEN number_word]
  have blank: "smooth (v @ '' '')" if "number v" for v
  proof -
    have "no_gap (markdown_cell v @ '' '')"
      using number_cell [OF that] no_gap_append2 [of "'' ''" "markdown_cell v @ '' ''"] by (simp add: cell_ok_def)
    moreover have "markdown_cell '' '' = '' ''" "no_break '' ''" by code_simp+
    ultimately show ?thesis using number_cell [OF that]
      by (simp add: smooth_def markdown_cell_append no_break_append)
  qed
  have val: "number v \<Longrightarrow> smooth (CHR '';'' # t) \<Longrightarrow> smooth (v @ CHR '';'' # t)"
    "number v \<Longrightarrow> smooth (CHR ''/'' # t) \<Longrightarrow> smooth (v @ CHR ''/'' # t)"
    "number v \<Longrightarrow> smooth (CHR '','' # t) \<Longrightarrow> smooth (v @ CHR '','' # t)" for v t
    using separators by (blast intro: smooth_value)+
  have lit: "smooth t \<Longrightarrow> smooth ('' bank_conflict_proxy='' @ t)" "smooth t \<Longrightarrow> smooth (''; bank_count_sensitivity_score='' @ t)"
    "smooth t \<Longrightarrow> smooth (''; mapping_sensitivity_score='' @ t)" "smooth t \<Longrightarrow> smooth (''; queue_delay_ratio='' @ t)"
    "smooth t \<Longrightarrow> smooth (''; service_delay_ratio='' @ t)" "smooth t \<Longrightarrow> smooth (''; best='' @ t)"
    "smooth t \<Longrightarrow> smooth (''/'' @ t)" "smooth t \<Longrightarrow> smooth (''; signals=locality:'' @ t)"
    "smooth t \<Longrightarrow> smooth ('',queueing:'' @ t)" "smooth t \<Longrightarrow> smooth ('',service:'' @ t)"
    "smooth t \<Longrightarrow> smooth ('',bank_conflict:'' @ t)" for t
    by (rule smooth_lead, rule L, simp, assumption)+
  let ?f = fmt_float
  have s1: "smooth ('',bank_conflict:'' @ bank_conflict_signal sg @ '' '')" by (rule lit blank w)+
  have s2: "smooth ('',service:'' @ service_signal sg @ '',bank_conflict:'' @ bank_conflict_signal sg @ '' '')"
    using val(3) [OF w(4)] s1 by (intro lit) simp
  have s3: "smooth ('',queueing:'' @ queueing_signal sg @ '',service:'' @ service_signal sg @
     '',bank_conflict:'' @ bank_conflict_signal sg @ '' '')"
    using val(3) [OF w(3)] s2 by (intro lit) simp
  have s4: "smooth (''; signals=locality:'' @ locality_signal sg @ '',queueing:'' @ queueing_signal sg @ '',service:'' @
     service_signal sg @ '',bank_conflict:'' @ bank_conflict_signal sg @ '' '')" (is "smooth ?t4")
    using val(3) [OF w(2)] s3 by (intro lit) simp
  have s5: "smooth (''; best='' @ fmt_int (bank_count_best best) @ ''/'' @ address_mapping_best best @ ?t4)" (is "smooth ?t5")
    using val(1) [OF w(1)] s4 val(2) [OF number_fmt_int] lit(7) [of "address_mapping_best best @ ?t4"] by (intro lit) simp
  have s6: "smooth (''; service_delay_ratio='' @ ?f x @ ?t5)" (is "smooth (?t6 x)") for x
    using val(1) [OF number_fmt_float] s5 by (intro lit) simp
  have s7: "smooth (''; queue_delay_ratio='' @ ?f y @ ?t6 x)" (is "smooth (?t7 x y)") for x y
    using val(1) [OF number_fmt_float] s6 by (intro lit) simp
  have s8: "smooth (''; mapping_sensitivity_score='' @ ?f z @ ?t7 x y)" (is "smooth (?t8 x y z)") for x y z
    using val(1) [OF number_fmt_float] s7 by (intro lit) simp
  have s9: "smooth (''; bank_count_sensitivity_score='' @ ?f u @ ?t8 x y z)" (is "smooth (?t9 x y z u)") for x y z u
    using val(1) [OF number_fmt_float] s8 by (intro lit) simp
  have "smooth ('' bank_conflict_proxy='' @ ?f v @ ?t9 x y z u)" for x y z u v
    using val(1) [OF number_fmt_float] s9 by (intro lit) simp
  then have "smooth ('' '' @ project_l_evidence_summary row best sg @ '' '')"
    by (simp add: project_l_evidence_summary_def)
  moreover have "markdown_cell '' '' = '' ''" by code_simp
  ultimately show ?thesis
    by (simp only: smooth_def cell_ok_def markdown_cell_append no_break_append)
qed


lemma table_line_ok:
  "fs \<noteq> [] \<Longrightarrow> \<forall>r \<in> set rows. \<forall>v \<in> set (row_fields fs r). cell_ok v \<Longrightarrow> \<forall>f \<in> set fs. cell_ok f \<Longrightarrow>
     line_ok (''| '' @ py_join '' | '' (map (\<lambda>_. ''---'') fs) @ '' |'') \<Longrightarrow>
     list_all line_ok (markdown_table fs (map (row_fields fs) rows))"
  by (auto simp: markdown_table_def list_all_iff row_fields_def intro!: joined_ok markdown_line_joined)

lemma rule_lines_ok: "line_ok (''| '' @ py_join '' | '' (map (\<lambda>_. ''---'') k_summary_headers) @ '' |'')"
  "line_ok (''| '' @ py_join '' | '' (map (\<lambda>_. ''---'') k_sweep_headers) @ '' |'')"
  "line_ok (''| '' @ py_join '' | '' (map (\<lambda>_. ''---'') l_table_headers) @ '' |'')"
  by (rule plain_line_ok, code_simp)+

lemma headers_ok: "list_all word k_summary_headers" "list_all word k_sweep_headers" "list_all word l_table_headers"
  by code_simp+

lemma fixed_names: "list_all word ALL_WORKLOADS" "list_all word ADDRESS_MAPPING_SWEEP"
  "list_all word PROJECT_L_ALLOWED_RECOMMENDED_ACTIONS" "list_all word PROJECT_L_ALLOWED_RECOMMENDATION_PRIORITIES"
  "word ''NA''" "word ''unknown''"
  "list_all word [''high'', ''medium'', ''low'', ''weak'', ''mixed'', ''strong'', ''no_dominant_bottleneck'',
     ''bank_conflict_bound'', ''queueing_bound'', ''service_latency_bound'', ''burstiness_bound'',
     ''locality_loss_bound'', ''bandwidth_pressure_bound'']"
  by code_simp+

lemma word_attribution:
  "word (a_primary_bottleneck (attribution_for ft m))" "word (a_confidence (attribution_for ft m))"
proof -
  obtain r s where p: "primary_rule (rule_scores ft m) = (r, s)" by fastforce
  have "fst (r, s) \<in> set (map fst (rule_scores ft m))" using primary_rule_best [OF p] by (metis imageI list.set_map)
  then show "word (a_primary_bottleneck (attribution_for ft m))" "word (a_confidence (attribution_for ft m))"
    unfolding rule_scores_names using p fixed_names(7)
    by (auto simp: attribution_for_def Let_def score_confidence_def)
qed

text \<open>Every value the tables print, given the words among them.\<close>

lemma number_ok: "number v \<Longrightarrow> cell_ok v"
  using number_cell by blast

lemmas cell_intros = number_ok number_fmt_float number_fmt_int number_str_int word_cell_ok

lemma summary_row_ok:
  assumes "m_workload (sr_metrics r) = Some w" "word w" "word (f_pattern_class (sr_features r))"
    "sr_attribution r = attribution_for ft m"
  shows "\<forall>v \<in> set (row_fields k_summary_headers (summary_cells r)). cell_ok v"
  using assms word_attribution
  by (simp add: k_summary_headers_def row_fields_def summary_cells_def fmt_str_def Let_def cell_intros)

lemma sweep_row_ok:
  assumes "word (sw_workload r)" "word (sw_address_mapping r)" "word (sw_primary_bottleneck r)"
  shows "\<forall>v \<in> set (row_fields k_sweep_headers (sweep_cells r)). cell_ok v"
  using assms by (simp add: k_sweep_headers_def row_fields_def sweep_cells_def fmt_str_def Let_def cell_intros)

lemma recommendation_ok:
  assumes "rec_workload r = Some w" "word w" "word (rec_primary_bottleneck r)" "word (rec_recommended_action r)"
    "word (rec_priority r)" "cell_ok (rec_evidence_summary r)"
  shows "\<forall>v \<in> set (row_fields l_table_headers (recommendation_cells r)). cell_ok v"
  using assms by (simp add: l_table_headers_def row_fields_def recommendation_cells_def fmt_str_def Let_def cell_intros)


section \<open>Integers survive their text\<close>

text \<open>An integer that was read from a cell can be printed and read again without overflow.\<close>

lemma parse_str_int: "\<exists>x. parse_float (str_int n) = Some x \<and> rounds_to (n < 0) (of_int \<bar>n\<bar>) x"
proof (cases "n < 0")
  case False
  then show ?thesis
    using parse_dec_digits [of n] mk_float_rounds [of n 1 False] by (simp add: str_int_def)
next
  case True
  let ?s = "dec_digits (- n)"
  have all: "\<forall>c \<in> set ?s. is_digit c" using dec_digits_digit by blast
  then have hd: "is_digit (hd ?s)" by simp
  have m: "\<not> is_space (CHR ''-'')" by code_simp
  have st: "py_strip (CHR ''-'' # ?s) = CHR ''-'' # ?s"
    by (rule py_strip_word) (use all m digit_not_space in auto)
  have us: "CHR ''_'' \<notin> set (CHR ''-'' # ?s)" using all digit_not_underscore by auto
  have d: "takeWhile is_digit ?s = ?s" "dropWhile is_digit ?s = []" using digits_split [OF all] by blast+
  have "dec_literal ?s = Some (- n, 0)"
    unfolding dec_literal_def Let_def d frac_split_def exp_part_def using True by (simp add: dval_dec_digits)
  moreover have "py_lower ?s \<noteq> ''inf''" "py_lower ?s \<noteq> ''infinity''" "py_lower ?s \<noteq> ''nan''"
    using hd by (cases ?s; auto simp: py_lower_def lower_char_def is_digit_def ccode_def split: if_splits)+
  ultimately have "parse_float (CHR ''-'' # ?s) = Some (mk_float True (- n) 1)"
    using no_underscores [OF us, of None] st
    by (simp add: parse_float_def frac_of_def split_sign_def)
  then show ?thesis using True mk_float_rounds [of "- n" 1 True] by (simp add: str_int_def)
qed

definition small :: "int \<Rightarrow> bool" where
  "small n \<longleftrightarrow> b64 (of_int \<bar>n\<bar>) < b64_bound"

lemma trunc_total: "rounds_to s q x \<Longrightarrow> b64 q < b64_bound \<Longrightarrow> \<exists>n. trunc_to_int x = Inr n"
  by (auto simp: rounds_to_def trunc_to_int_def split: prod.splits)

lemma clean_text_str_int: "clean_text (Some (str_int n)) = Some (str_int n)"
proof -
  have m: "\<not> is_space (CHR ''-'')" "\<not> is_digit (CHR ''N'')" by code_simp+
  have "\<forall>c \<in> set (str_int n). \<not> is_space c"
    using dec_digits_digit digit_not_space m by (auto simp: str_int_def)
  moreover have "str_int n \<noteq> ''NA''"
    using dec_digits_digit [of "CHR ''N''" n] m by (auto simp: str_int_def)
  ultimately show ?thesis by (simp add: clean_text_def py_strip_word)
qed

lemma int_value_total: "(\<And>n. v = Some n \<Longrightarrow> small n) \<Longrightarrow> \<exists>k. int_value v = Inr k"
proof (cases v)
  case (Some n)
  assume "\<And>n. v = Some n \<Longrightarrow> small n"
  then have n: "small n" using Some by simp
  obtain x where x: "parse_float (str_int n) = Some x" "rounds_to (n < 0) (of_int \<bar>n\<bar>) x"
    using parse_str_int by blast
  then obtain k where "trunc_to_int x = Inr k" using trunc_total [OF x(2)] n by (auto simp: small_def)
  then show ?thesis using x(1) Some by (simp add: int_value_def k_parse_int_def clean_text_str_int)
qed (simp add: int_value_def k_parse_int_def clean_text_def)

lemma small_le: "rat_of_int \<bar>n\<bar> \<le> q \<Longrightarrow> b64 q < b64_bound \<Longrightarrow> small n"
  using b64_mono [of "of_int \<bar>n\<bar>" q] by (simp add: small_def)

lemma trunc_bound:
  assumes "trunc_to_int (Fin s m e) = Inr n" and "0 \<le> m"
  shows "rat_of_int \<bar>n\<bar> \<le> mag m e"
proof -
  obtain a d where f: "frac_of 2 (if s then - m else m) e = (a, d)" by fastforce
  have d: "0 < d" "(of_int a :: rat) / of_int d = mag (if s then - m else m) e" using frac_of_mag [OF f] by auto
  have n: "n = (if a < 0 then - ((- a) div d) else a div d)" using assms(1) f by (simp add: trunc_to_int_def)
  have "\<bar>n\<bar> = \<bar>a\<bar> div d" using n d(1) by (auto simp: pos_imp_zdiv_nonneg_iff)
  then have "\<bar>n\<bar> * d \<le> \<bar>a\<bar>" using d(1) by (metis div_mult_mod_eq le_add_same_cancel1 pos_mod_sign)
  then have "rat_of_int (\<bar>n\<bar> * d) \<le> rat_of_int \<bar>a\<bar>" by (simp only: of_int_le_iff)
  then have "rat_of_int \<bar>n\<bar> \<le> rat_of_int \<bar>a\<bar> / of_int d" using d(1) by (simp add: pos_le_divide_eq)
  also have "\<dots> = \<bar>mag (if s then - m else m) e\<bar>" using d by (simp add: d(2) [symmetric] abs_divide)
  also have "\<dots> = mag m e" using mag_nonneg [OF assms(2), of e] by (auto simp: mag_minus)
  finally show ?thesis .
qed

lemma parsed_int_small: "k_parse_int v = Inr (Some n) \<Longrightarrow> small n"
proof -
  assume "k_parse_int v = Inr (Some n)"
  then obtain t x where t: "parse_float t = Some x" "trunc_to_int x = Inr n"
    by (auto simp: k_parse_int_def split: option.splits sum.splits exn.splits)
  then obtain s m e where x: "x = Fin s m e" by (cases x) (auto simp: trunc_to_int_def)
  have wf: "0 \<le> m" "mag m e < b64_bound" "b64 (mag m e) = mag m e"
    using wf_parse_float [OF t(1)] by (simp_all add: x)
  then show ?thesis using small_le [OF trunc_bound] t(2) x by auto
qed

lemma metrics_small:
  assumes "metrics_of_row tr row = Inr m"
  shows "m_max_queue_occupancy m = Some n \<Longrightarrow> small n" "m_stalled_or_rejected m = Some n \<Longrightarrow> small n"
  using assms by (auto simp: metrics_of_row_def bindR_eq_Inr Let_def intro: parsed_int_small)


section \<open>A finished sweep is always accepted\<close>

lemma best_sweep_row_mem:
  assumes "best_sweep_row rows = Inr r" and "rows \<noteq> []"
  shows "r \<in> set rows"
proof -
  obtain keyed where k: "mapR (\<lambda>r. bindR (sweep_key r) (\<lambda>k. Inr (k, r))) rows = Inr keyed"
    and r: "r = snd (min_from keyed_lt (hd keyed) (tl keyed))"
    using assms(1) by (auto simp: best_sweep_row_def bindR_eq_Inr)
  have "keyed \<noteq> []" using mapR_length [OF k] assms(2) by auto
  then have "min_from keyed_lt (hd keyed) (tl keyed) \<in> set keyed"
    using min_from_mem [of keyed_lt "hd keyed" "tl keyed"] by (cases keyed) auto
  then obtain x where "x \<in> set rows" "bindR (sweep_key x) (\<lambda>k. Inr (k, x)) = Inr (min_from keyed_lt (hd keyed) (tl keyed))"
    using mapR_mem [OF k] by blast
  then show ?thesis using r by (cases "sweep_key x") (auto dest: sym)
qed

lemma best_sweep_total:
  assumes "\<forall>r \<in> set rows. small (sw_bank_count r)"
  shows "\<exists>best. project_l_best_sweep_by_workload rows = Inr best \<and>
    (\<forall>(w, b) \<in> set best. \<exists>r \<in> set rows. address_mapping_best b = sw_address_mapping r)"
proof -
  let ?one = "\<lambda>(workload, rs). bindR (best_sweep_row rs) (\<lambda>best_row.
         bindR (int_value (Some (sw_bank_count best_row))) (\<lambda>n.
         Inr (workload, \<lparr>bank_count_best = n, address_mapping_best = sw_address_mapping best_row\<rparr>)))"
  let ?groups = "filter (\<lambda>(workload, rs). workload \<noteq> [] \<and> rs \<noteq> []) (group_by sw_workload rows)"
  have sub: "set rs \<subseteq> set rows \<and> rs \<noteq> []" if "(w, rs) \<in> set ?groups" for w rs
  proof -
    have "map_of (group_by sw_workload rows) w = Some rs"
      using that by (auto intro: map_of_is_SomeI [OF distinct_keys_group_by])
    then show ?thesis using that by (auto simp: map_of_group_by split: if_splits)
  qed
  have row: "\<exists>r \<in> set rs. best_sweep_row rs = Inr r" if g: "(w, rs) \<in> set ?groups" for w rs
  proof -
    have "\<exists>k. sweep_key r = Inr k" if "r \<in> set rs" for r
      using int_value_total [of "Some (sw_bank_count r)"] assms sub [OF g] that
      by (fastforce simp: sweep_key_def)
    then have "\<exists>keyed. mapR (\<lambda>r. bindR (sweep_key r) (\<lambda>k. Inr (k, r))) rs = Inr keyed"
      by (intro mapR_total) fastforce
    then obtain r where "best_sweep_row rs = Inr r" by (auto simp: best_sweep_row_def)
    then show ?thesis using best_sweep_row_mem sub [OF g] by blast
  qed
  have "\<exists>y. ?one x = Inr y" if grp: "x \<in> set ?groups" for x
  proof -
    obtain w rs where x: "x = (w, rs)" by fastforce
    obtain r where r: "r \<in> set rs" "best_sweep_row rs = Inr r" using row grp x by blast
    obtain k where "int_value (Some (sw_bank_count r)) = Inr k"
      using int_value_total [of "Some (sw_bank_count r)"] assms sub grp r(1) x by blast
    then show ?thesis using r(2) by (simp add: x)
  qed
  then obtain best where b: "mapR ?one ?groups = Inr best" using mapR_total by blast
  have "\<exists>r \<in> set rows. address_mapping_best k = sw_address_mapping r" if k: "(w, k) \<in> set best" for w k
  proof -
    obtain w' rs r where "(w', rs) \<in> set ?groups" "best_sweep_row rs = Inr r" "address_mapping_best k = sw_address_mapping r"
      using mapR_mem [OF b k] by (auto simp: bindR_eq_Inr)
    then show ?thesis using best_sweep_row_mem sub by blast
  qed
  then show ?thesis using b by (auto simp: project_l_best_sweep_by_workload_def)
qed

lemma signals_words:
  "signals_of row = Inr sg \<Longrightarrow> word (locality_signal sg) \<and> word (queueing_signal sg) \<and> word (service_signal sg) \<and>
     word (bank_conflict_signal sg)"
  using fixed_names(7) by (auto simp: signals_of_def bindR_eq_Inr project_l_locality_signal_def
    project_l_queueing_signal_def project_l_service_signal_def project_l_bank_conflict_signal_def Let_def)

lemma recommendations_built:
  assumes rows: "\<forall>r \<in> set rows. small (sw_bank_count r) \<and> word (sw_address_mapping r)"
    and srs: "\<forall>s \<in> set srs. \<exists>tr row. metrics_of_row tr row = Inr (sr_metrics s)"
  shows "\<exists>recs. build_project_l_recommendation_rows srs rows = Inr recs \<and> length recs = length srs \<and>
    (\<forall>rec \<in> set recs. recommendation_errors rec = [] \<and> word (rec_recommended_action rec) \<and> word (rec_priority rec) \<and>
       cell_ok (rec_evidence_summary rec) \<and> (\<exists>s \<in> set srs. rec_workload rec = m_workload (sr_metrics s) \<and>
         rec_primary_bottleneck rec = a_primary_bottleneck (sr_attribution s)))"
proof -
  obtain best where best: "project_l_best_sweep_by_workload rows = Inr best"
    "\<forall>(w, b) \<in> set best. \<exists>r \<in> set rows. address_mapping_best b = sw_address_mapping r"
    using best_sweep_total rows by blast
  have mapping: "word (address_mapping_best (best_of best w))" for w
    using best(2) rows fixed_names(6)
    by (fastforce simp: best_of_def dest: map_of_SomeD split: option.splits bind_splits)
  have sig: "\<exists>sg. signals_of s = Inr sg" if s: "s \<in> set srs" for s
  proof -
    obtain tr row where m: "metrics_of_row tr row = Inr (sr_metrics s)" using srs s by blast
    obtain a where "int_value (m_max_queue_occupancy (sr_metrics s)) = Inr a"
      using int_value_total metrics_small(1) [OF m] by blast
    moreover obtain b where "int_value (m_stalled_or_rejected (sr_metrics s)) = Inr b"
      using int_value_total metrics_small(2) [OF m] by blast
    ultimately show ?thesis by (simp add: signals_of_def project_l_queueing_signal_def Let_def)
  qed
  have "\<exists>y. recommendation_row best s = Inr y" if "s \<in> set srs" for s
    using sig [OF that] by (auto simp: recommendation_row_def Let_def)
  then obtain recs where recs: "mapR (recommendation_row best) srs = Inr recs" using mapR_total by blast
  have "recommendation_errors rec = [] \<and> word (rec_recommended_action rec) \<and> word (rec_priority rec) \<and>
       cell_ok (rec_evidence_summary rec) \<and> (\<exists>s \<in> set srs. rec_workload rec = m_workload (sr_metrics s) \<and>
         rec_primary_bottleneck rec = a_primary_bottleneck (sr_attribution s))" if rec: "rec \<in> set recs" for rec
  proof -
    obtain s sg where s: "s \<in> set srs" "signals_of s = Inr sg" "rec_best rec = best_of best (m_workload (sr_metrics s))"
      "rec_recommended_action rec = project_l_action_for s (rec_best rec) sg"
      "rec_priority rec = project_l_recommendation_priority (rec_recommended_action rec) s sg"
      "rec_claim_boundary rec = PROJECT_L_CLAIM_BOUNDARY" "rec_workload rec = m_workload (sr_metrics s)"
      "rec_primary_bottleneck rec = a_primary_bottleneck (sr_attribution s)"
      "rec_evidence_summary rec = project_l_evidence_summary s (rec_best rec) sg"
      using mapR_mem [OF recs rec] recommendation_row_fields by blast
    have a: "rec_recommended_action rec \<in> set PROJECT_L_ALLOWED_RECOMMENDED_ACTIONS"
      "rec_priority rec \<in> set PROJECT_L_ALLOWED_RECOMMENDATION_PRIORITIES"
      using s(4,5) action_allowed priority_allowed by simp_all
    moreover have "cell_ok (rec_evidence_summary rec)"
      unfolding s(9) by (intro evidence_smooth) (use mapping signals_words [OF s(2)] s(3) in auto)
    ultimately show ?thesis
      using s(1,6-8) fixed_names(3,4) by (auto simp: recommendation_errors_def report_if_def list_all_iff Let_def)
  qed
  then show ?thesis using best(1) recs mapR_length [OF recs]
    by (auto simp: build_project_l_recommendation_rows_def)
qed

lemma output_line_ok: "word l \<Longrightarrow> word p \<Longrightarrow> line_ok (''- `'' @ l @ ''`: `'' @ p @ ''`'')"
proof (rule joined_ok)
  assume w: "word l" "word p"
  have b: "\<not> letter (CHR ''`'')" "\<not> gap (CHR ''`'')" "no_gap '': ''" "no_gap ''- ''" "no_break ''- `''" "no_break ''`: `''" "no_break ''`''"
    by code_simp+
  have g: "no_gap v" if "word v" for v
  proof -
    have "no_gap (''`'' @ v @ ''`'')" using no_gap_word [of v "CHR ''`''" "CHR ''`''"] that
      by (simp add: word_def list_all_iff)
    then show ?thesis using no_gap_append1 no_gap_append2 by blast
  qed
  have "no_gap (''- '' @ CHR ''`'' # l @ CHR ''`'' # '': '' @ CHR ''`'' # p @ CHR ''`'' # [])"
    unfolding no_gap_cut [OF b(1,2)] using b w g by simp
  moreover have "no_break l" "no_break p" using w by (auto simp: word_def no_break_def list_all_iff)
  ultimately show "joined (''- `'' @ l @ ''`: `'' @ p @ ''`'')"
    using b by (simp add: joined_def no_break_append no_break_def)
qed


lemma missing_none: "missing_fields (csv_header (csv_records fs rows)) fs' = [] \<longleftrightarrow> set fs' \<subseteq> set fs"
  by (auto simp: missing_fields_def csv_header_def csv_records_def filter_empty_conv)

lemma stable_subset: "set STABLE_SUMMARY_FIELDS \<subseteq> set K_SUMMARY_FIELDS"
  by (simp add: STABLE_SUMMARY_FIELDS_def K_SUMMARY_FIELDS_def)

lemma workload_counts: "length CORE_WORKLOADS = 3" "length OPTIONAL_SYNTHETIC_PATTERNS = 2" "length ALL_WORKLOADS = 5"
  "length BANK_COUNT_SWEEP = 3" "length ADDRESS_MAPPING_SWEEP = 3"
  by (simp_all add: CORE_WORKLOADS_def OPTIONAL_SYNTHETIC_PATTERNS_def ALL_WORKLOADS_def BANK_COUNT_SWEEP_def
      ADDRESS_MAPPING_SWEEP_def)

lemmas expected_counts = EXPECTED_CORE_WORKLOADS_def EXPECTED_OPTIONAL_SYNTHETIC_PATTERNS_def EXPECTED_TOTAL_WORKLOADS_def
  EXPECTED_SWEEP_ROWS_def PROJECT_L_EXPECTED_TOTAL_WORKLOADS_def PROJECT_L_EXPECTED_RECOMMENDATION_ROWS_def

lemma marker_in_report: "\<forall>m \<in> set ms. l1 @ m @ l2 \<in> set ls \<Longrightarrow> filter (\<lambda>m. \<not> py_in m (py_join sep ls)) ms = []"
proof -
  assume a: "\<forall>m \<in> set ms. l1 @ m @ l2 \<in> set ls"
  have "py_in m (l1 @ m @ l2)" for m by (simp add: py_in_sublist sublist_appendI)
  then show ?thesis using a py_in_join by (fastforce simp: filter_empty_conv)
qed

lemma small_int: "0 \<le> n \<Longrightarrow> n < 2 ^ 53 \<Longrightarrow> small n"
  unfolding small_def by (subst abs_of_nonneg) (simp_all only: b64_int int_below_bound)

lemma swept_rows:
  assumes "run_sweep ft_by project_e = Inr (rows, srs)"
  shows "length rows = 45" "length srs = 5"
    "\<forall>r \<in> set rows. small (sw_bank_count r) \<and> word (sw_address_mapping r) \<and> word (sw_workload r) \<and> word (sw_primary_bottleneck r)"
proof -
  let ?key = "\<lambda>r. (sw_address_mapping r, sw_bank_count r, sw_workload r)"
  let ?keys = "concat (map (\<lambda>(m, b). map (\<lambda>w. (m, b, w)) ALL_WORKLOADS) sweep_points)"
  have k: "map ?key rows = ?keys" and s: "length srs = length ALL_WORKLOADS"
    using run_sweep_rows [OF assms] by blast+
  have "length ?keys = 45" by code_simp
  then show "length rows = 45" using k by (metis length_map)
  show "length srs = 5" using s workload_counts by simp
  have bound: "small 4" "small 8" "small 16"
    using small_int [of 4] small_int [of 8] small_int [of 16] by simp_all
  have mem: "p \<in> set ?keys \<Longrightarrow> fst p \<in> set ADDRESS_MAPPING_SWEEP \<and> fst (snd p) \<in> set BANK_COUNT_SWEEP \<and> snd (snd p) \<in> set ALL_WORKLOADS" for p
    by (auto simp: sweep_points_def)
  have "?key r \<in> set ?keys" if "r \<in> set rows" for r
    unfolding k [symmetric] list.set_map using that by (rule imageI)
  from mem [OF this] have at: "sw_address_mapping r \<in> set ADDRESS_MAPPING_SWEEP \<and> sw_bank_count r \<in> set BANK_COUNT_SWEEP \<and> sw_workload r \<in> set ALL_WORKLOADS"
    if "r \<in> set rows" for r using that by simp
  have small: "\<forall>n \<in> set BANK_COUNT_SWEEP. small n" using bound by (simp add: BANK_COUNT_SWEEP_def)
  have names: "\<forall>r \<in> set rows. word (sw_primary_bottleneck r)"
    using run_sweep_row_contents(1) [OF assms] word_attribution(1) by metis
  show "\<forall>r \<in> set rows. small (sw_bank_count r) \<and> word (sw_address_mapping r) \<and> word (sw_workload r) \<and> word (sw_primary_bottleneck r)"
    using fixed_names(1,2) small names at by (simp add: list_all_iff)
qed

lemma k_report_accepted:
  assumes sweep: "run_sweep ft_by project_e = Inr (rows, srs)"
    and cls: "\<forall>w ft. ft_by w = Some ft \<longrightarrow> word (f_pattern_class ft)"
    and outs: "\<forall>(l, p) \<in> set generated. word l \<and> word p"
  shows "validate_project_k_acceptance (csv_records K_SUMMARY_FIELDS (map summary_cells srs))
    (csv_records STABLE_SWEEP_FIELDS (map sweep_cells rows)) (write_generated_report srs rows generated) srs rows = Inr ()"
proof -
  note len = swept_rows(1,2) [OF sweep] and row = swept_rows(3) [OF sweep]
  have srow: "\<forall>s \<in> set srs. (\<exists>w. m_workload (sr_metrics s) = Some w \<and> word w) \<and> word (f_pattern_class (sr_features s)) \<and>
      sr_attribution s = attribution_for (sr_features s) (sr_metrics s)"
    using run_sweep_row_contents(2) [OF sweep] run_sweep_rows [OF sweep] fixed_names(1) cls
    by (fastforce simp: list_all_iff)
  have "list_all line_ok (markdown_table k_summary_headers (map (row_fields k_summary_headers) (map summary_cells srs)))"
  proof (rule table_line_ok [OF _ _ _ rule_lines_ok(1)])
    show "\<forall>r \<in> set (map summary_cells srs). \<forall>v \<in> set (row_fields k_summary_headers r). cell_ok v"
      using srow summary_row_ok by (simp, blast)
  qed (use headers_ok(1) in \<open>auto simp: k_summary_headers_def word_cell_ok\<close>)
  moreover have "list_all line_ok (markdown_table k_sweep_headers (map (row_fields k_sweep_headers) (map sweep_cells rows)))"
  proof (rule table_line_ok [OF _ _ _ rule_lines_ok(2)])
    show "\<forall>r \<in> set (map sweep_cells rows). \<forall>v \<in> set (row_fields k_sweep_headers r). cell_ok v"
      using row sweep_row_ok by (simp, blast)
  qed (use headers_ok(2) in \<open>auto simp: k_sweep_headers_def word_cell_ok\<close>)
  moreover have "list_all line_ok (output_lines generated)"
    using outs output_line_ok by (fastforce simp: output_lines_def list_all_iff)
  moreover have "list_all line_ok [[], ''## Generated Outputs'', []]" by code_simp
  ultimately have "list_all line_ok (k_report_lines srs rows generated)"
    using k_scope_ok k_evidence_ok k_closing_ok
    by (simp add: k_report_lines_def len fixed_lines_ok comp_def)
  then have hits: "forbidden_affirmative_claim_hits (write_generated_report srs rows generated) = []"
    unfolding write_generated_report_def by (rule no_claim_hits)
  have markers: "filter (\<lambda>m. \<not> py_in m (write_generated_report srs rows generated)) REQUIRED_UNSUPPORTED_CLAIM_MARKERS = []"
    unfolding write_generated_report_def
    by (rule marker_in_report [of _ "''- ''" "[CHR 0xE3, CHR 0x80, CHR 0x82]"])
      (use k_marker_lines in \<open>auto simp: k_report_lines_def len list_all_iff\<close>)
  have "\<forall>s \<in> set srs. a_claim_boundary (sr_attribution s) = CLAIM_BOUNDARY"
    using srow by (simp add: attribution_for_def Let_def split: prod.splits)
  then show ?thesis
    using hits markers len stable_subset
    by (simp add: validate_project_k_acceptance_def raise_errors_def raise_if_def k_acceptance_errors_def Let_def
        report_if_def count_differs_def workload_counts expected_counts missing_none list_ex_iff)
qed

lemma l_report_accepted:
  assumes recs: "length recs = 5" "\<forall>rec \<in> set recs. recommendation_errors rec = [] \<and> word (rec_recommended_action rec) \<and>
      word (rec_priority rec) \<and> cell_ok (rec_evidence_summary rec) \<and>
      (\<exists>w. rec_workload rec = Some w \<and> word w) \<and> word (rec_primary_bottleneck rec)"
    and outs: "\<forall>(l, p) \<in> set generated. word l \<and> word p"
  shows "validate_project_l_acceptance (csv_records PROJECT_L_RECOMMENDATION_FIELDS (map recommendation_cells recs))
    path (Some (write_project_l_report recs generated)) recs = Inr ()"
proof -
  have "list_all line_ok (markdown_table l_table_headers (map (row_fields l_table_headers) (map recommendation_cells recs)))"
  proof (rule table_line_ok [OF _ _ _ rule_lines_ok(3)])
    show "\<forall>r \<in> set (map recommendation_cells recs). \<forall>v \<in> set (row_fields l_table_headers r). cell_ok v"
      using recs(2) recommendation_ok by (simp, blast)
  qed (use headers_ok(3) in \<open>auto simp: l_table_headers_def word_cell_ok\<close>)
  moreover have "list_all line_ok (output_lines generated)"
    using outs output_line_ok by (fastforce simp: output_lines_def list_all_iff)
  ultimately have "list_all line_ok (l_report_lines recs generated)"
    using l_story_ok l_rules_ok l_closing_ok
    by (simp add: l_report_lines_def recs(1) fixed_lines_ok comp_def)
  then have hits: "forbidden_affirmative_claim_hits (write_project_l_report recs generated) = []"
    unfolding write_project_l_report_def by (rule no_claim_hits)
  have sections: "filter (\<lambda>m. \<not> py_in m (write_project_l_report recs generated)) L_REQUIRED_SECTIONS = []"
    unfolding write_project_l_report_def
    by (rule marker_in_report [of _ "[]" "[]"]) (use l_section_lines in \<open>auto simp: l_report_lines_def recs(1) list_all_iff\<close>)
  have markers: "filter (\<lambda>m. \<not> py_in m (write_project_l_report recs generated)) PROJECT_L_REQUIRED_UNSUPPORTED_CLAIM_MARKERS = []"
    unfolding write_project_l_report_def
    by (rule marker_in_report [of _ "''- ''" "''.''"]) (use l_marker_lines in \<open>auto simp: l_report_lines_def recs(1) list_all_iff\<close>)
  show ?thesis
    using hits sections markers recs
    by (simp add: validate_project_l_acceptance_def raise_errors_def raise_if_def l_acceptance_errors_def Let_def
        report_if_def workload_counts expected_counts missing_none)
qed

text \<open>C1. The self-checks never reject the tool's own work: whenever the sweep completes, the run goes
  on to write both reports and all three tables, provided the pattern classes and the names of
  the outputs contain no blank, hyphen or line break.\<close>

theorem acceptance_always_passes:
  assumes "run_sweep ft_by project_e = Inr (rows, srs)"
    and "\<forall>w ft. ft_by w = Some ft \<longrightarrow> word (f_pattern_class ft)"
    and "\<forall>(l, p) \<in> set (k_generated @ l_generated). word l \<and> word p"
  shows "\<exists>recs. build_project_l_recommendation_rows srs rows = Inr recs \<and>
    main_project_k ft_by project_e k_generated l_generated path =
      Inr \<lparr>out_summary_csv = csv_records K_SUMMARY_FIELDS (map summary_cells srs),
           out_sweep_csv = csv_records STABLE_SWEEP_FIELDS (map sweep_cells rows),
           out_report = write_generated_report srs rows k_generated,
           out_recommendation_csv = csv_records PROJECT_L_RECOMMENDATION_FIELDS (map recommendation_cells recs),
           out_l_report = write_project_l_report recs l_generated\<rparr>"
proof -
  note contents = run_sweep_row_contents(2) [OF assms(1)]
  have att: "\<forall>s \<in> set srs. word (a_primary_bottleneck (sr_attribution s))"
    using run_sweep_rows [OF assms(1)] word_attribution(1) by simp
  have "\<forall>s \<in> set srs. \<exists>tr row. metrics_of_row tr row = Inr (sr_metrics s)" using contents by blast
  then obtain recs where recs: "build_project_l_recommendation_rows srs rows = Inr recs" "length recs = length srs"
    "\<forall>rec \<in> set recs. recommendation_errors rec = [] \<and> word (rec_recommended_action rec) \<and> word (rec_priority rec) \<and>
       cell_ok (rec_evidence_summary rec) \<and> (\<exists>s \<in> set srs. rec_workload rec = m_workload (sr_metrics s) \<and>
         rec_primary_bottleneck rec = a_primary_bottleneck (sr_attribution s))"
    using recommendations_built [of rows srs] swept_rows(3) [OF assms(1)] by blast
  have "validate_project_l_acceptance (csv_records PROJECT_L_RECOMMENDATION_FIELDS (map recommendation_cells recs))
    path (Some (write_project_l_report recs l_generated)) recs = Inr ()"
  proof (rule l_report_accepted)
    show "length recs = 5" using recs(2) swept_rows(2) [OF assms(1)] by simp
    show "\<forall>(l, p) \<in> set l_generated. word l \<and> word p" using assms(3) by auto
    show "\<forall>rec \<in> set recs. recommendation_errors rec = [] \<and> word (rec_recommended_action rec) \<and>
      word (rec_priority rec) \<and> cell_ok (rec_evidence_summary rec) \<and>
      (\<exists>w. rec_workload rec = Some w \<and> word w) \<and> word (rec_primary_bottleneck rec)"
      using recs(3) contents att fixed_names(1) by (metis list_all_iff)
  qed
  moreover have "\<forall>(l, p) \<in> set k_generated. word l \<and> word p" using assms(3) by auto
  note k_report_accepted [OF assms(1,2) this]
  ultimately show ?thesis using recs(1) assms(1)
    by (simp add: main_project_k_def finish_run_def Let_def)
qed

theorem acceptance_always_passes_witness:
  "\<exists>out. main_project_k (\<lambda>w. Some quiet_features) steady_run [(''generated_report'', ''k/report.md'')]
     [(''recommendations'', ''l/rows.csv'')] ''l/report.md'' = Inr out"
proof -
  obtain rows srs where r: "run_sweep (\<lambda>w. Some quiet_features) steady_run = Inr (rows, srs)"
    using steady_run_sweeps by blast
  have "word (f_pattern_class quiet_features)" "word ''generated_report''" "word ''k/report.md''"
    "word ''recommendations''" "word ''l/rows.csv''" by code_simp+
  then show ?thesis
    using acceptance_always_passes [OF r, of "[(''generated_report'', ''k/report.md'')]" "[(''recommendations'', ''l/rows.csv'')]" "''l/report.md''"]
    by auto
qed

end
