(* ===== verification/At5_Model.thy ===== *)
theory At5_Model
  imports Tool_Common
begin

text \<open>
  \<open>examples/at/tools/demo_at5_backpressure_qos_collapse.py\<close>, first part: the cases, the
  checks on the trace a model run leaves (\<open>validate_trace\<close>), and the metrics computed from
  it (\<open>throughput\<close>, \<open>service_utilization\<close>, \<open>fairness_index\<close>, \<open>collapse_score\<close>, \<dots>).

  A trace row is a \<open>csv_row\<close>: \<open>read_trace\<close> accepts only \<open>TRACE_FIELDS\<close> as the header, so
  \<open>row[k]\<close> finds a cell for each of these columns (\<open>row_get\<close>) and the cell is \<open>None\<close> only in a
  short record.  
\<close>

section \<open>Constants and cases\<close>

definition SCHEMA_VERSION :: string where "SCHEMA_VERSION = ''at5.0''"

definition INITIATORS :: "string list" where
  "INITIATORS =
    [''cpu_rt'', ''dma_bulk'', ''accel_burst'']"

definition POLICIES :: "string list" where
  "POLICIES =
    [''round_robin'', ''strict_priority'', ''weighted_priority'', ''throttled_dma'',
     ''backpressure_aware'']"

definition TRACE_FIELDS :: "string list" where
  "TRACE_FIELDS =
    [''case_name'', ''txn_id'', ''initiator'', ''traffic_class'', ''policy'', ''address'',
     ''size_bytes'', ''sequence_index'', ''begin_req_ns'', ''arbiter_accept_ns'',
     ''ingress_enqueue_ns'', ''ingress_dequeue_ns'', ''downstream_enqueue_ns'',
     ''service_begin_ns'', ''service_end_ns'', ''begin_resp_ns'', ''end_resp_ns'',
     ''total_latency_ns'', ''sla_target_ns'', ''sla_violation'', ''ingress_queue_capacity'',
     ''downstream_queue_capacity'', ''ingress_queue_depth_on_arrival'',
     ''downstream_queue_depth_on_arrival'', ''queue_full_event'', ''queue_full_source'',
     ''backpressure_stall_ns'', ''initiator_blocked_ns'', ''memory_service_latency_ns'',
     ''observed_service_time_ns'', ''service_rate_txn_per_us'', ''claim_boundary'',
     ''schema_version'']"

definition SUMMARY_FIELDS :: "string list" where
  "SUMMARY_FIELDS =
    [''case_name'', ''initiator'', ''policy'', ''transactions'', ''sla_target_ns'',
     ''sla_violation_ratio'', ''avg_total_latency_ns'', ''p50_total_latency_ns'',
     ''p95_total_latency_ns'', ''p99_total_latency_ns'', ''throughput_txn_per_us'',
     ''ingress_queue_capacity'', ''downstream_queue_capacity'', ''queue_full_events'',
     ''backpressure_stall_ns'', ''initiator_blocked_ns'', ''memory_service_latency_ns'',
     ''service_utilization'', ''saturation_ratio'', ''fairness_index'', ''starvation_proxy'',
     ''collapse_score'', ''dominant_bottleneck'', ''claim_boundary'', ''schema_version'']"

definition POLICY_SWEEP_FIELDS :: "string list" where
  "POLICY_SWEEP_FIELDS =
    [''case_name'', ''policy'', ''cpu_rt_p95_ns'', ''cpu_rt_sla_violation_ratio'',
     ''dma_bulk_throughput_txn_per_us'', ''accel_burst_p99_ns'', ''system_throughput_txn_per_us'',
     ''service_utilization'', ''queue_full_events'', ''backpressure_stall_ns'',
     ''fairness_index'', ''collapse_score'', ''dominant_bottleneck'', ''recommended_action'',
     ''claim_boundary'', ''schema_version'']"

definition RECOMMENDATION_FIELDS :: "string list" where
  "RECOMMENDATION_FIELDS =
    [''case_name'', ''primary_bottleneck'', ''confidence'', ''recommended_action'',
     ''recommendation_priority'', ''evidence_summary'', ''qos_policy_best'',
     ''queue_capacity_signal'', ''service_saturation_signal'', ''backpressure_signal'',
     ''fairness_signal'', ''sla_signal'', ''claim_boundary'', ''schema_version'']"

definition ALLOWED_ACTIONS :: "string list" where
  "ALLOWED_ACTIONS =
    [''use_strict_priority'', ''use_weighted_priority'', ''use_backpressure_aware_scheduling'',
     ''throttle_dma_bulk'', ''increase_ingress_queue_capacity'',
     ''increase_downstream_queue_capacity'', ''reduce_memory_service_latency'',
     ''shape_accel_bursts'', ''no_single_dominant_action'']"

record case_config =
  case_name :: string
  primary_policy :: string
  ingress_queue_capacity :: int
  downstream_queue_capacity :: int
  memory_service_latency_ns :: pyfloat
  service_rate_txn_per_us :: pyfloat
  num_transactions_per_initiator :: int
  cpu_rt_sla_target_ns :: pyfloat
  dma_bulk_sla_target_ns :: pyfloat
  accel_burst_sla_target_ns :: pyfloat

definition CASES :: "case_config list" where
  "CASES =
    [\<lparr>case_name = ''baseline_balanced_rr'', primary_policy = ''round_robin'',
       ingress_queue_capacity = 10, downstream_queue_capacity = 8,
       memory_service_latency_ns = flit 24 1, service_rate_txn_per_us = flit 60 1,
       num_transactions_per_initiator = 36, cpu_rt_sla_target_ns = flit 160 1,
       dma_bulk_sla_target_ns = flit 900 1, accel_burst_sla_target_ns = flit 520 1\<rparr>,
     \<lparr>case_name = ''strict_priority_helps_cpu'', primary_policy = ''strict_priority'',
       ingress_queue_capacity = 8, downstream_queue_capacity = 6,
       memory_service_latency_ns = flit 26 1, service_rate_txn_per_us = flit 42 1,
       num_transactions_per_initiator = 36, cpu_rt_sla_target_ns = flit 490 1,
       dma_bulk_sla_target_ns = flit 980 1, accel_burst_sla_target_ns = flit 620 1\<rparr>,
     \<lparr>case_name = ''strict_priority_starves_dma'', primary_policy = ''strict_priority'',
       ingress_queue_capacity = 8, downstream_queue_capacity = 5,
       memory_service_latency_ns = flit 18 1, service_rate_txn_per_us = flit 58 1,
       num_transactions_per_initiator = 36, cpu_rt_sla_target_ns = flit 420 1,
       dma_bulk_sla_target_ns = flit 1050 1, accel_burst_sla_target_ns = flit 720 1\<rparr>,
     \<lparr>case_name = ''downstream_saturation_qos_collapse'', primary_policy = ''strict_priority'',
       ingress_queue_capacity = 12, downstream_queue_capacity = 3,
       memory_service_latency_ns = flit 118 1, service_rate_txn_per_us = flit 7 1,
       num_transactions_per_initiator = 36, cpu_rt_sla_target_ns = flit 320 1,
       dma_bulk_sla_target_ns = flit 1350 1, accel_burst_sla_target_ns = flit 900 1\<rparr>,
     \<lparr>case_name = ''small_queue_backpressure'', primary_policy = ''backpressure_aware'',
       ingress_queue_capacity = 2, downstream_queue_capacity = 2,
       memory_service_latency_ns = flit 18 1, service_rate_txn_per_us = flit 60 1,
       num_transactions_per_initiator = 36, cpu_rt_sla_target_ns = flit 180 1,
       dma_bulk_sla_target_ns = flit 820 1, accel_burst_sla_target_ns = flit 520 1\<rparr>,
     \<lparr>case_name = ''throttled_dma_recovers_sla'', primary_policy = ''throttled_dma'',
       ingress_queue_capacity = 8, downstream_queue_capacity = 5,
       memory_service_latency_ns = flit 16 1, service_rate_txn_per_us = flit 70 1,
       num_transactions_per_initiator = 36, cpu_rt_sla_target_ns = flit 200 1,
       dma_bulk_sla_target_ns = flit 1100 1, accel_burst_sla_target_ns = flit 700 1\<rparr>,
     \<lparr>case_name = ''bursty_accel_tail_spike'', primary_policy = ''weighted_priority'',
       ingress_queue_capacity = 8, downstream_queue_capacity = 6,
       memory_service_latency_ns = flit 16 1, service_rate_txn_per_us = flit 70 1,
       num_transactions_per_initiator = 36, cpu_rt_sla_target_ns = flit 520 1,
       dma_bulk_sla_target_ns = flit 1050 1, accel_burst_sla_target_ns = flit 520 1\<rparr>]"

section \<open>Reading and checking a trace\<close>

text \<open>\<open>read_trace\<close> on the records of the file (the message's two printed lists are left out).\<close>

definition read_trace :: "string \<Rightarrow> string list list \<Rightarrow> csv_row list result" where
  "read_trace path recs =
     bindR (raise_if (reader_fieldnames recs \<noteq> Some TRACE_FIELDS)
       (DemoError (path @ '': unexpected trace header''))) (\<lambda>_. Inr (dict_reader recs))"

text \<open>\<open>str(row.get(k))\<close>.\<close>

definition show_cell :: "csv_row \<Rightarrow> string \<Rightarrow> string" where
  "show_cell row k = (case row_get row k of None \<Rightarrow> ''None'' | Some s \<Rightarrow> s)"

definition num :: "csv_row \<Rightarrow> string \<Rightarrow> pyfloat result" where
  "num row k = bindR (opt_or_raise (Option.bind (row_get row k) parse_float)
       (DemoError (''invalid numeric field '' @ k @ '': '' @ show_cell row k))) (\<lambda>v.
     bindR (raise_if (\<not> is_finite v)
       (DemoError (''non-finite numeric field '' @ k @ '': '' @ show_cell row k))) (\<lambda>_. Inr v))"

text \<open>\<open>int(row[k])\<close>: TypeError for \<open>None\<close>, ValueError for a text that is no integer.\<close>

definition int_cell :: "csv_row \<Rightarrow> string \<Rightarrow> int result" where
  "int_cell row k = bindR (opt_or_raise (row_get row k) TypeError) (\<lambda>s.
     opt_or_raise (py_int10 s) (ValueError ''invalid literal for int() with base 10''))"

definition at_case :: "case_config \<Rightarrow> string \<Rightarrow> string \<Rightarrow> exn" where
  "at_case config policy what = DemoError (case_name config @ ''/'' @ policy @ '': '' @ what)"

text \<open>\<open>a <= b <= \<dots>\<close>, a chained comparison.\<close>

fun chain_le :: "pyfloat list \<Rightarrow> bool" where
  "chain_le (x # y # ys) = (f_le x y \<and> chain_le (y # ys))"
| "chain_le _ = True"

definition TIME_FIELDS :: "string list" where
  "TIME_FIELDS =
    [''begin_req_ns'', ''arbiter_accept_ns'', ''ingress_enqueue_ns'', ''ingress_dequeue_ns'',
     ''downstream_enqueue_ns'', ''service_begin_ns'', ''service_end_ns'', ''begin_resp_ns'',
     ''end_resp_ns'']"

definition check_times :: "case_config \<Rightarrow> string \<Rightarrow> csv_row \<Rightarrow> unit result" where
  "check_times config policy row =
     bindR (mapR (num row) TIME_FIELDS) (\<lambda>ts.
     bindR (raise_if (\<not> chain_le ts)
       (at_case config policy (''timestamp ordering failed for txn '' @ show_cell row ''txn_id''))) (\<lambda>_.
     let observed_total = f_sub (ts ! 8) (ts ! 0) in
     bindR (num row ''total_latency_ns'') (\<lambda>t.
     raise_if (f_lt (flit 2 1000) (f_abs (f_sub observed_total t)))
       (at_case config policy (''total latency mismatch for txn '' @ show_cell row ''txn_id'')))))"

definition check_labels :: "case_config \<Rightarrow> string \<Rightarrow> csv_row \<Rightarrow> unit result" where
  "check_labels config policy row =
     bindR (raise_if (row_get row ''case_name'' \<noteq> Some (case_name config))
       (at_case config policy ''wrong case_name'')) (\<lambda>_.
     bindR (raise_if (row_get row ''policy'' \<noteq> Some policy) (at_case config policy ''wrong policy'')) (\<lambda>_.
     bindR (raise_if (row_get row ''initiator'' \<notin> Some ` set INITIATORS)
       (at_case config policy ''unexpected initiator'')) (\<lambda>_.
     bindR (raise_if (row_get row ''claim_boundary'' \<noteq> Some ''PASS'')
       (at_case config policy ''non-PASS claim boundary'')) (\<lambda>_.
     bindR (raise_if (row_get row ''schema_version'' \<noteq> Some SCHEMA_VERSION)
       (at_case config policy ''wrong schema_version'')) (\<lambda>_.
     bindR (int_cell row ''ingress_queue_capacity'') (\<lambda>n.
     bindR (raise_if (n \<noteq> ingress_queue_capacity config)
       (at_case config policy ''wrong ingress capacity'')) (\<lambda>_.
     bindR (int_cell row ''downstream_queue_capacity'') (\<lambda>n.
     bindR (raise_if (n \<noteq> downstream_queue_capacity config)
       (at_case config policy ''wrong downstream capacity'')) (\<lambda>_.
     bindR (raise_if (row_get row ''sla_violation'' \<notin> {Some ''YES'', Some ''NO''})
       (at_case config policy ''invalid SLA marker'')) (\<lambda>_.
     bindR (raise_if (row_get row ''queue_full_event'' \<notin> {Some ''YES'', Some ''NO''})
       (at_case config policy ''invalid queue marker'')) (\<lambda>_.
     raise_if (row_get row ''queue_full_source'' \<notin>
         {Some ''none'', Some ''ingress'', Some ''downstream'', Some ''ingress+downstream''})
       (at_case config policy ''invalid queue source''))))))))))))"

text \<open>The body of the loop of \<open>validate_trace\<close>; its state is the dictionary \<open>counts\<close>.\<close>

definition count_row :: "(string \<times> int) list \<Rightarrow> string \<Rightarrow> (string \<times> int) list" where
  "count_row counts k = (case map_of counts k of None \<Rightarrow> counts | Some n \<Rightarrow> dict_set counts k (n + 1))"

definition validate_row ::
  "case_config \<Rightarrow> string \<Rightarrow> (string \<times> int) list \<Rightarrow> csv_row \<Rightarrow> (string \<times> int) list result" where
  "validate_row config policy counts row =
     bindR (check_labels config policy row) (\<lambda>_.
     let counts' = (case row_get row ''initiator'' of None \<Rightarrow> counts | Some k \<Rightarrow> count_row counts k) in
     bindR (check_times config policy row) (\<lambda>_. Inr counts'))"

definition validate_trace :: "case_config \<Rightarrow> string \<Rightarrow> csv_row list \<Rightarrow> unit result" where
  "validate_trace config policy rows =
     (let expected_rows = int (length INITIATORS) * num_transactions_per_initiator config in
      bindR (raise_if (int (length rows) \<noteq> expected_rows)
        (at_case config policy (''trace row count '' @ str_nat (length rows) @ '' != '' @ str_int expected_rows))) (\<lambda>_.
      bindR (foldR (validate_row config policy) (map (\<lambda>k. (k, 0)) INITIATORS) rows) (\<lambda>counts.
      checkR (\<lambda>(k, n). raise_if (n \<noteq> num_transactions_per_initiator config)
        (at_case config policy (''initiator '' @ k @ '' count '' @ str_int n @ '' != '' @
           str_int (num_transactions_per_initiator config)))) counts)))"

section \<open>Arithmetic helpers\<close>

definition ratio :: "pyfloat \<Rightarrow> pyfloat \<Rightarrow> pyfloat result" where
  "ratio numerator denominator =
     (if f_le denominator f_zero then Inr f_zero else f_div numerator denominator)"

text \<open>The same function on two integers: the true division of integers.\<close>

definition ratio_int :: "nat \<Rightarrow> nat \<Rightarrow> pyfloat result" where
  "ratio_int numerator denominator =
     (if denominator = 0 then Inr f_zero else int_truediv (int numerator) (int denominator))"

definition clamp :: "pyfloat \<Rightarrow> pyfloat" where
  "clamp value = fmax_from f_zero [fmin_from value [flit 1 1]]"

text \<open>A count where the code mixes it with a float.\<close>

definition count_float :: "nat \<Rightarrow> pyfloat" where
  "count_float n = flit (int n) 1"

definition percentile :: "pyfloat list \<Rightarrow> pyfloat \<Rightarrow> pyfloat result" where
  "percentile values pct =
     (let ordered = py_sorted f_lt values; n = int (length ordered) in
      if ordered = [] then Inr f_zero
      else bindR (ceil_to_int (f_mul pct (count_float (length ordered)))) (\<lambda>up.
        let rank = max 0 (min (up - 1) (n - 1)) in Inr (ordered ! nat rank)))"

definition average :: "pyfloat list \<Rightarrow> pyfloat result" where
  "average values =
     (if values = [] then Inr f_zero else f_div (py_fsum values) (count_float (length values)))"

text \<open>\<open>x ** 2\<close> on a float: the rounded square, OverflowError where a finite number leaves the range.\<close>

definition f_square :: "pyfloat \<Rightarrow> pyfloat result" where
  "f_square x = (if is_finite x \<and> \<not> is_finite (f_mul x x) then Inl OverflowError else Inr (f_mul x x))"

section \<open>Metrics of a trace\<close>

definition cell_is :: "string \<Rightarrow> string \<Rightarrow> csv_row \<Rightarrow> bool" where
  "cell_is k v row \<longleftrightarrow> row_get row k = Some v"

definition count_cells :: "string \<Rightarrow> string \<Rightarrow> csv_row list \<Rightarrow> nat" where
  "count_cells k v rows = length (filter (cell_is k v) rows)"

type_synonym groups = "(string \<times> csv_row list) list"

definition group_row :: "groups \<Rightarrow> csv_row \<Rightarrow> groups result" where
  "group_row grouped row =
     (case row_get row ''initiator'' of
        None \<Rightarrow> Inl (KeyError ''None'')
      | Some k \<Rightarrow> if k \<in> set (map fst grouped) then Inr (dict_append grouped k row) else Inl (KeyError k))"

definition group_by_initiator :: "csv_row list \<Rightarrow> groups result" where
  "group_by_initiator rows = foldR group_row (map (\<lambda>k. (k, [])) INITIATORS) rows"

text \<open>\<open>grouped[k]\<close>, for the keys \<open>group_by_initiator\<close> starts from.\<close>

definition group_of :: "groups \<Rightarrow> string \<Rightarrow> csv_row list" where
  "group_of grouped k = (case map_of grouped k of None \<Rightarrow> [] | Some rs \<Rightarrow> rs)"

definition nums :: "string \<Rightarrow> csv_row list \<Rightarrow> pyfloat list result" where
  "nums k rows = mapR (\<lambda>row. num row k) rows"

definition throughput :: "csv_row list \<Rightarrow> pyfloat result" where
  "throughput rows =
     (if rows = [] then Inr f_zero
      else bindR (nums ''begin_req_ns'' rows) (\<lambda>begin_times. bindR (nums ''end_resp_ns'' rows) (\<lambda>end_times.
        bindR (py_max end_times) (\<lambda>hi. bindR (py_min begin_times) (\<lambda>lo.
        ratio (f_mul (count_float (length rows)) (flit 1000 1)) (f_sub hi lo))))))"

definition service_utilization :: "csv_row list \<Rightarrow> pyfloat result" where
  "service_utilization rows =
     (if rows = [] then Inr f_zero
      else bindR (nums ''begin_req_ns'' rows) (\<lambda>begin_times. bindR (py_min begin_times) (\<lambda>first.
        bindR (nums ''end_resp_ns'' rows) (\<lambda>end_times. bindR (py_max end_times) (\<lambda>finish.
        bindR (nums ''observed_service_time_ns'' rows) (\<lambda>times.
        bindR (ratio (py_fsum times) (f_sub finish first)) (\<lambda>r. Inr (clamp r))))))))"

definition offered_rate :: "csv_row list \<Rightarrow> pyfloat result" where
  "offered_rate rows =
     (if rows = [] then Inr f_zero
      else bindR (nums ''begin_req_ns'' rows) (\<lambda>begin_times.
        bindR (py_max begin_times) (\<lambda>hi. bindR (py_min begin_times) (\<lambda>lo.
        ratio (f_mul (count_float (length rows)) (flit 1000 1)) (f_sub hi lo)))))"

definition saturation_ratio :: "csv_row list \<Rightarrow> pyfloat result" where
  "saturation_ratio rows =
     (if rows = [] then Inr f_zero
      else bindR (num (hd rows) ''service_rate_txn_per_us'') (\<lambda>service_rate.
        bindR (offered_rate rows) (\<lambda>offered. bindR (ratio offered service_rate) (\<lambda>r.
        Inr (fmin_from (flit 2 1) [r])))))"

definition fairness_index :: "groups \<Rightarrow> pyfloat result" where
  "fairness_index grouped =
     bindR (mapR (\<lambda>k. throughput (group_of grouped k)) INITIATORS) (\<lambda>throughputs.
     let denom = f_mul (count_float (length throughputs)) (py_fsum (map (\<lambda>v. f_mul v v) throughputs)) in
     if f_le denom f_zero then Inr f_zero
     else bindR (f_square (py_fsum throughputs)) (\<lambda>sq. bindR (f_div sq denom) (\<lambda>q. Inr (clamp q))))"

definition violation_ratio :: "csv_row list \<Rightarrow> pyfloat result" where
  "violation_ratio rows = ratio_int (count_cells ''sla_violation'' ''YES'' rows) (length rows)"

definition dominant_bottleneck :: "csv_row list \<Rightarrow> case_config \<Rightarrow> string result" where
  "dominant_bottleneck rows config =
     bindR (group_by_initiator rows) (\<lambda>grouped.
     bindR (violation_ratio (group_of grouped ''cpu_rt'')) (\<lambda>cpu_vio.
     bindR (nums ''total_latency_ns'' (group_of grouped ''accel_burst'')) (\<lambda>lats.
     bindR (percentile lats (flit 99 100)) (\<lambda>accel_p99.
     let queue_full = count_cells ''queue_full_event'' ''YES'' rows in
     bindR (service_utilization rows) (\<lambda>util.
     bindR (saturation_ratio rows) (\<lambda>sat.
     bindR (fairness_index grouped) (\<lambda>fair.
     Inr (if case_name config = ''bursty_accel_tail_spike'' \<and> f_lt (accel_burst_sla_target_ns config) accel_p99
          then ''accel_burst_tail_spike''
          else if f_le (flit 92 100) util \<and> f_le (flit 95 100) sat \<and> f_lt (flit 10 100) cpu_vio
          then ''downstream_service_saturation''
          else if f_le (f_mul (count_float (length rows)) (flit 10 100)) (count_float queue_full) \<and> f_lt util (flit 92 100)
          then ''queue_capacity_backpressure''
          else if f_lt fair (flit 72 100) then ''qos_fairness_starvation''
          else if f_lt (flit 20 100) cpu_vio then ''qos_policy_limit''
          else ''balanced_or_low_pressure''))))))))"

definition weighted :: "int \<Rightarrow> pyfloat \<Rightarrow> pyfloat" where
  "weighted percent x = f_mul (flit percent 100) x"

definition collapse_score :: "csv_row list \<Rightarrow> case_config \<Rightarrow> pyfloat result" where
  "collapse_score rows config =
     bindR (group_by_initiator rows) (\<lambda>grouped.
     bindR (violation_ratio (group_of grouped ''cpu_rt'')) (\<lambda>cpu_vio.
     bindR (fairness_index grouped) (\<lambda>fair.
     let fair_loss = f_sub (flit 1 1) fair in
     bindR (ratio_int (count_cells ''queue_full_event'' ''YES'' rows) (length rows)) (\<lambda>queue_pressure.
     bindR (nums ''backpressure_stall_ns'' rows) (\<lambda>stalls.
     bindR (nums ''total_latency_ns'' rows) (\<lambda>lats.
     bindR (ratio (py_fsum stalls) (py_fsum lats)) (\<lambda>r.
     let stall_pressure = clamp r in
     bindR (service_utilization rows) (\<lambda>util.
     bindR (f_div (f_sub util (flit 72 100)) (flit 28 100)) (\<lambda>q.
     let saturation_pressure = clamp q in
     bindR (if case_name config = ''bursty_accel_tail_spike''
            then violation_ratio (group_of grouped ''accel_burst'') else Inr f_zero) (\<lambda>accel_vio.
     Inr (clamp (foldl f_add (weighted 34 cpu_vio)
       [weighted 22 saturation_pressure, weighted 18 queue_pressure, weighted 14 fair_loss,
        weighted 8 stall_pressure, weighted 4 accel_vio]))))))))))))"

record case_metrics =
  cm_service_utilization :: pyfloat
  cm_saturation_ratio :: pyfloat
  cm_fairness_index :: pyfloat
  cm_collapse_score :: pyfloat

definition system_metrics :: "csv_row list \<Rightarrow> case_config \<Rightarrow> case_metrics result" where
  "system_metrics rows config =
     bindR (group_by_initiator rows) (\<lambda>grouped.
     bindR (service_utilization rows) (\<lambda>util. bindR (saturation_ratio rows) (\<lambda>sat.
     bindR (fairness_index grouped) (\<lambda>fair. bindR (collapse_score rows config) (\<lambda>score.
     Inr \<lparr>cm_service_utilization = util, cm_saturation_ratio = sat, cm_fairness_index = fair,
          cm_collapse_score = score\<rparr>)))))"

section \<open>Bounds\<close>

definition in_unit :: "pyfloat \<Rightarrow> bool" where
  "in_unit x \<longleftrightarrow> f_le f_zero x \<and> f_le x (flit 1 1)"

lemma unit_ends: "f_le f_zero (flit 1 1)" "not_nan (flit 1 1)" "not_nan f_zero" "\<not> f_lt (flit 1 1) f_zero"
  by code_simp+

text \<open>\<open>clamp\<close> sends every float, NaN included, into \<open>[0, 1]\<close>.\<close>

lemma clamp_unit: "in_unit (clamp x)"
proof -
  let ?m = "if f_lt (flit 1 1) x then flit 1 1 else x"
  have "f_le ?m (flit 1 1) \<or> \<not> not_nan ?m"
    using unit_ends f_le_not_lt [of x "flit 1 1"] f_le_refl by (auto simp: not_nan_def)
  moreover have "clamp x = (if f_lt f_zero ?m then ?m else f_zero)"
    by (simp add: clamp_def)
  ultimately show ?thesis
    using unit_ends f_le_refl f_lt_imp_le by (auto simp: in_unit_def f_lt_def not_nan_def)
qed

lemma nums_mem: "nums k rows = Inr xs \<Longrightarrow> x \<in> set xs \<Longrightarrow> \<exists>row \<in> set rows. num row k = Inr x"
  unfolding nums_def by (rule mapR_mem)

lemma num_finite:
  assumes "num row k = Inr x"
  shows "is_finite x \<and> wf_float x \<and> not_nan x"
proof -
  obtain t where "parse_float t = Some x" and fin: "is_finite x"
    using assms by (auto simp: num_def result_simps bind_eq_Some_conv)
  then have "wf_float x" using wf_parse_float by blast
  then show ?thesis using fin by (cases x) auto
qed

lemma nums_finite: "nums k rows = Inr xs \<Longrightarrow> x \<in> set xs \<Longrightarrow> is_finite x \<and> wf_float x \<and> not_nan x"
  using nums_mem num_finite by blast

lemma nums_length: "nums k rows = Inr xs \<Longrightarrow> length xs = length rows"
  unfolding nums_def by (rule mapR_length)

text \<open>A nonnegative finite or infinite number over a positive finite one.\<close>

lemma f_div_nonneg:
  assumes "f_le f_zero x" and "wf_float x" and "f_lt f_zero y" and "is_finite y" and "wf_float y" and "f_div x y = Inr z"
  shows "f_le f_zero z"
proof -
  obtain t n f where y: "y = Fin t n f" using assms(4) by (cases y) auto
  then have n: "0 \<le> n" "0 < fval y" using assms(3,5) by (auto simp: f_lt_val f_zero_def)
  have t: "\<not> t" "n \<noteq> 0"
    using n y mag_nonneg [of n f] by (auto split: if_splits)
  show ?thesis
  proof (cases x)
    case (Fin s m e)
    then have m: "0 \<le> m" using assms(2) by simp
    have z: "s \<Longrightarrow> m = 0"
    proof (rule ccontr)
      assume "s" "m \<noteq> 0"
      then have "0 < mag m e" using m mag_pos [of m e] by simp
      then show False using assms(1) Fin \<open>s\<close> by (simp add: f_le_val f_zero_def)
    qed
    have r: "rounds_to s (mag m e / mag n f) z"
      using assms(6) Fin y t n m div_fin_rounds [of m n s e f] by auto
    show ?thesis
    proof (cases s)
      case True
      then have "rounds_to True 0 z" using r z by simp
      then show ?thesis by (auto simp: rounds_to_def f_le_val f_zero_def bound_pos split: if_splits)
    next
      case False
      then show ?thesis using r rounds_nonneg by simp
    qed
  qed (use assms y t in \<open>auto simp: f_le_val f_zero_def split: if_splits\<close>)
qed

lemma ratio_nonneg:
  assumes "ratio x y = Inr z" and "f_le f_zero x" and "wf_float x" and "wf_float y" and "is_finite y"
  shows "f_le f_zero z"
proof (cases "f_le y f_zero")
  case True
  then show ?thesis using assms(1) unit_ends f_le_refl by (simp add: ratio_def)
next
  case False
  have "not_nan y" using assms(5) by (cases y) auto
  then have "f_lt f_zero y" using False f_le_not_lt unit_ends by blast
  then show ?thesis using assms False f_div_nonneg by (simp add: ratio_def)
qed

text \<open>The offered rate divides by a window that may overflow to infinity: the quotient is then zero.\<close>

lemma count_rate:
  assumes "n < 2 ^ 40"
  shows "\<exists>m e. f_mul (count_float n) (flit 1000 1) = Fin False m e \<and> 0 \<le> m \<and> wf_float (Fin False m e)"
proof -
  have "int n < int (2 ^ 40)" using assms by (simp only: of_nat_less_iff)
  then have n: "int n * 1000 < 2 ^ 53" "0 \<le> int n" "int n < 2 ^ 53" by simp_all
  obtain m e where m: "count_float n = Fin False m e" "0 \<le> m" "mag m e = of_int (int n)"
    using flit_int [OF n(2,3)] by (auto simp: count_float_def)
  obtain k f where k: "flit 1000 1 = Fin False k f" "0 \<le> k" "mag k f = of_int 1000" using flit_int [of 1000] by auto
  have "rounds_to False (of_int (int n * 1000)) (f_mul (count_float n) (flit 1000 1))"
    using f_mul_rounds [OF m(2) k(2), of False False e f] m k by simp
  from rounds_le_int [OF this order_refl] wf_rounds [OF this] n show ?thesis by fastforce
qed

lemma ratio_window_nonneg:
  assumes "ratio x (f_sub hi lo) = Inr z" and "x = Fin False m e" and "0 \<le> m" and "wf_float x"
    and "wf_float hi" "wf_float lo" and "is_finite hi" "is_finite lo"
  shows "f_le f_zero z"
proof (cases "f_sub hi lo")
  case FNan
  obtain s m e t n f where "hi = Fin s m e" "lo = Fin t n f" using assms(7,8) by (cases hi; cases lo) auto
  then show ?thesis using FNan by (auto simp: f_sub_def Let_def of_scaled_def mk_scaled_def mk_float_def split: if_splits prod.splits)
next
  case (FInf s)
  then show ?thesis using assms(1,2) by (cases s) (auto simp: ratio_def f_le_val f_zero_def split: if_splits)
next
  case (Fin s m' e')
  have "wf_float (f_sub hi lo)" using assms(5,6) wf_f_sub by blast
  moreover have "f_le f_zero x" using assms(2,3) by (simp add: f_le_val f_zero_def mag_nonneg)
  ultimately show ?thesis using ratio_nonneg [OF assms(1)] assms(4) Fin by simp
qed

lemma rate_nonneg:
  assumes "nums k rows = Inr xs" and "nums k' rows = Inr ys" and "py_max xs = Inr hi" and "py_min ys = Inr lo"
    and "ratio (f_mul (count_float (length rows)) (flit 1000 1)) (f_sub hi lo) = Inr z" and "length rows < 2 ^ 40"
  shows "f_le f_zero z"
proof -
  obtain m e where m: "f_mul (count_float (length rows)) (flit 1000 1) = Fin False m e" "0 \<le> m" "wf_float (Fin False m e)"
    using count_rate [OF assms(6)] by auto
  have "is_finite hi \<and> wf_float hi" "is_finite lo \<and> wf_float lo"
    using nums_finite [OF assms(1)] nums_finite [OF assms(2)] py_max_mem [OF assms(3)] py_min_mem [OF assms(4)] by auto
  then show ?thesis using ratio_window_nonneg [OF assms(5) m(1,2)] m by auto
qed

lemma throughput_nonneg: "throughput rows = Inr z \<Longrightarrow> length rows < 2 ^ 40 \<Longrightarrow> f_le f_zero z"
  using rate_nonneg unit_ends f_le_refl
  by (fastforce simp: throughput_def result_simps split: if_splits)

lemma offered_nonneg: "offered_rate rows = Inr z \<Longrightarrow> length rows < 2 ^ 40 \<Longrightarrow> f_le f_zero z"
  using rate_nonneg unit_ends f_le_refl
  by (fastforce simp: offered_rate_def result_simps split: if_splits)

lemma wf_zero: "wf_float f_zero"
  by (simp add: f_zero_def bound_pos)

lemma ratio_wf: "ratio x y = Inr z \<Longrightarrow> wf_float x \<Longrightarrow> wf_float y \<Longrightarrow> wf_float z"
  using wf_f_div [of x y z] by (cases "f_le y f_zero") (simp_all add: ratio_def wf_zero)

lemma rate_wf:
  assumes "nums k rows = Inr xs" and "nums k' rows = Inr ys" and "py_max xs = Inr hi" and "py_min ys = Inr lo"
    and "ratio (f_mul (count_float n) (flit 1000 1)) (f_sub hi lo) = Inr z"
  shows "wf_float z"
proof -
  have "wf_float hi" "wf_float lo"
    using nums_finite [OF assms(1)] nums_finite [OF assms(2)] py_max_mem [OF assms(3)] py_min_mem [OF assms(4)] by auto
  then show ?thesis
    by (intro ratio_wf [OF assms(5)] wf_f_mul wf_f_sub) (simp_all add: count_float_def wf_flit)
qed

lemma throughput_wf: "throughput rows = Inr z \<Longrightarrow> wf_float z"
  by (cases "rows = []") (auto simp: throughput_def bindR_eq_Inr wf_zero intro: rate_wf)

lemma offered_wf: "offered_rate rows = Inr z \<Longrightarrow> wf_float z"
  by (cases "rows = []") (auto simp: offered_rate_def bindR_eq_Inr wf_zero intro: rate_wf)

lemma zero_unit: "in_unit f_zero"
  using unit_ends f_le_refl by (simp add: in_unit_def)

lemma utilization_unit: "service_utilization rows = Inr x \<Longrightarrow> in_unit x"
  using clamp_unit zero_unit by (auto simp: service_utilization_def result_simps split: if_splits)

lemma fairness_unit: "fairness_index grouped = Inr x \<Longrightarrow> in_unit x"
  using clamp_unit zero_unit by (auto simp: fairness_index_def result_simps Let_def split: if_splits)

lemma collapse_unit: "collapse_score rows config = Inr x \<Longrightarrow> in_unit x"
  using clamp_unit by (auto simp: collapse_score_def result_simps Let_def)

lemma two_order: "not_nan (flit 2 1)" "f_le f_zero (flit 2 1)"
  by code_simp+

lemma saturation_range:
  assumes "saturation_ratio rows = Inr x" and "length rows < 2 ^ 40"
  shows "f_le f_zero x \<and> f_le x (flit 2 1)"
proof (cases "rows = []")
  case True
  then show ?thesis using assms(1) two_order unit_ends f_le_refl by (simp add: saturation_ratio_def)
next
  case False
  then obtain rate off r where r: "num (hd rows) ''service_rate_txn_per_us'' = Inr rate"
    "offered_rate rows = Inr off" "ratio off rate = Inr r" "x = fmin_from (flit 2 1) [r]"
    using assms(1) by (auto simp: saturation_ratio_def result_simps)
  have "f_le f_zero r"
    using ratio_nonneg [OF r(3)] offered_nonneg [OF r(2) assms(2)] offered_wf [OF r(2)] num_finite [OF r(1)] by blast
  then show ?thesis
    using r(4) two_order f_le_refl f_lt_imp_le by auto
qed

text \<open>C8. The system metrics of any trace the tool can summarise are bounded: utilisation, fairness index
  and collapse score lie in \<open>[0, 1]\<close>, whatever the time stamps, and the saturation ratio lies in
  \<open>[0, 2]\<close> for traces of fewer than \<open>2 ^ 40\<close> rows; none of them is NaN.\<close>

theorem system_metrics_bounded:
  assumes "system_metrics rows config = Inr m" and "length rows < 2 ^ 40"
  shows "in_unit (cm_service_utilization m) \<and> in_unit (cm_fairness_index m) \<and> in_unit (cm_collapse_score m) \<and>
    f_le f_zero (cm_saturation_ratio m) \<and> f_le (cm_saturation_ratio m) (flit 2 1)"
  using assms utilization_unit fairness_unit collapse_unit saturation_range
  by (auto simp: system_metrics_def result_simps)

section \<open>What a validated trace is\<close>

definition well_labelled :: "case_config \<Rightarrow> string \<Rightarrow> csv_row \<Rightarrow> bool" where
  "well_labelled config policy row \<longleftrightarrow>
     row_get row ''case_name'' = Some (case_name config) \<and> row_get row ''policy'' = Some policy \<and>
     (\<exists>k \<in> set INITIATORS. row_get row ''initiator'' = Some k) \<and>
     row_get row ''claim_boundary'' = Some ''PASS'' \<and> row_get row ''schema_version'' = Some SCHEMA_VERSION \<and>
     int_cell row ''ingress_queue_capacity'' = Inr (ingress_queue_capacity config) \<and>
     int_cell row ''downstream_queue_capacity'' = Inr (downstream_queue_capacity config) \<and>
     row_get row ''sla_violation'' \<in> {Some ''YES'', Some ''NO''} \<and>
     row_get row ''queue_full_event'' \<in> {Some ''YES'', Some ''NO''} \<and>
     row_get row ''queue_full_source'' \<in>
       {Some ''none'', Some ''ingress'', Some ''downstream'', Some ''ingress+downstream''}"

definition well_timed :: "csv_row \<Rightarrow> bool" where
  "well_timed row \<longleftrightarrow> (\<exists>ts t. mapR (num row) TIME_FIELDS = Inr ts \<and> sorted_wrt f_le ts \<and>
     num row ''total_latency_ns'' = Inr t \<and> f_le (f_abs (f_sub (f_sub (ts ! 8) (ts ! 0)) t)) (flit 2 1000))"

text \<open>Every initiator has its share of the rows, and every row has its labels and its times right.\<close>

definition valid_trace :: "case_config \<Rightarrow> string \<Rightarrow> csv_row list \<Rightarrow> bool" where
  "valid_trace config policy rows \<longleftrightarrow>
     (\<forall>k \<in> set INITIATORS. int (length (filter (cell_is ''initiator'' k) rows)) = num_transactions_per_initiator config) \<and>
     (\<forall>row \<in> set rows. well_labelled config policy row \<and> well_timed row)"

lemma check_labels_iff: "check_labels config policy row = Inr () \<longleftrightarrow> well_labelled config policy row"
  by (auto simp: check_labels_def well_labelled_def bindR_eq_Inr raise_if_eq_Inr)

lemma chain_le_sorted: "chain_le ts \<longleftrightarrow> sorted_wrt f_le ts" if "\<forall>t \<in> set ts. not_nan t"
  using that
proof (induction ts rule: chain_le.induct)
  case (1 x y ys)
  have "f_le x z" if "f_le x y" "sorted_wrt f_le (y # ys)" "z \<in> set ys" for z
    using that f_le_trans by auto
  then show ?case using 1 by auto
qed auto

lemma f_sub_not_nan: "not_nan x \<Longrightarrow> is_finite y \<Longrightarrow> not_nan (f_sub x y)"
  by (cases x; cases y)
    (auto simp: f_sub_def Let_def of_scaled_def mk_scaled_def mk_float_def split: if_splits prod.splits)

lemma check_times_iff: "check_times config policy row = Inr () \<longleftrightarrow> well_timed row"
proof (cases "mapR (num row) TIME_FIELDS")
  case (Inr ts)
  have len: "length ts = 9" using mapR_length [OF Inr] by (simp add: TIME_FIELDS_def)
  have fin: "\<forall>t \<in> set ts. not_nan t \<and> is_finite t" using mapR_mem [OF Inr] num_finite by blast
  have "ts ! 8 \<in> set ts" "ts ! 0 \<in> set ts" using len by simp_all
  then have nn: "not_nan (f_sub (ts ! 8) (ts ! 0))" using fin f_sub_not_nan by blast
  have "f_lt (flit 2 1000) (f_abs (f_sub (f_sub (ts ! 8) (ts ! 0)) t)) \<longleftrightarrow>
      \<not> f_le (f_abs (f_sub (f_sub (ts ! 8) (ts ! 0)) t)) (flit 2 1000)" if "num row ''total_latency_ns'' = Inr t" for t
  proof -
    have "not_nan (f_abs (f_sub (f_sub (ts ! 8) (ts ! 0)) t))"
      using f_sub_not_nan [OF nn, of t] num_finite [OF that] by (cases "f_sub (f_sub (ts ! 8) (ts ! 0)) t") auto
    moreover have "not_nan (flit 2 1000)" by code_simp
    ultimately show ?thesis using f_le_not_lt by blast
  qed
  then show ?thesis
    using Inr chain_le_sorted [of ts] fin
    by (auto simp: check_times_def well_timed_def bindR_eq_Inr raise_if_eq_Inr Let_def)
qed (auto simp: check_times_def well_timed_def)

lemma count_row_map: "map_of (count_row d k) j = (if j = k then map_option (\<lambda>n. n + 1) (map_of d j) else map_of d j)"
  by (auto simp: count_row_def split: option.splits)

lemma keys_count_row: "map fst (count_row d k) = map fst d"
proof (cases "map_of d k")
  case (Some n)
  then have "k \<in> set (map fst d)" by (metis map_of_eq_None_iff option.distinct(1) list.set_map)
  then show ?thesis using Some keys_dict_set [of d k] by (simp add: count_row_def)
qed (simp add: count_row_def)

lemma validate_row_eq: "validate_row config policy d row = Inr d' \<longleftrightarrow>
    well_labelled config policy row \<and> well_timed row \<and>
    d' = (case row_get row ''initiator'' of None \<Rightarrow> d | Some k \<Rightarrow> count_row d k)"
  using check_labels_iff [of config policy row] check_times_iff [of config policy row]
  by (auto simp: validate_row_def bindR_eq_Inr Let_def)

lemma foldR_counts:
  "(\<exists>d'. foldR (validate_row config policy) d rows = Inr d') \<longleftrightarrow>
     (\<forall>row \<in> set rows. well_labelled config policy row \<and> well_timed row)"
  "foldR (validate_row config policy) d rows = Inr d' \<Longrightarrow> map fst d' = map fst d \<and>
     map_of d' k = map_option (\<lambda>n. n + int (length (filter (cell_is ''initiator'' k) rows))) (map_of d k)"
proof (induction rows arbitrary: d)
  case Nil
  { case 1 then show ?case by simp }
  { case 2 then show ?case by (simp add: option.map_ident) }
next
  case (Cons row rows)
  { case 1
    show ?case using Cons.IH(1) by (auto simp: bindR_eq_Inr validate_row_eq) }
  { case 2
    then obtain i where i: "row_get row ''initiator'' = Some i" "foldR (validate_row config policy) (count_row d i) rows = Inr d'"
      by (auto simp: bindR_eq_Inr validate_row_eq well_labelled_def)
    from Cons.IH(2) [OF i(2)] i(1) show ?case
      by (auto simp: keys_count_row count_row_map cell_is_def option.map_comp comp_def algebra_simps) }
qed

lemma map_of_distinct_all:
  "distinct (map fst d) \<Longrightarrow> (\<forall>x \<in> set d. P x) \<longleftrightarrow> (\<forall>k \<in> set (map fst d). \<forall>n. map_of d k = Some n \<longrightarrow> P (k, n))"
  by (fastforce simp: map_of_eq_Some_iff dest: map_of_SomeD)

lemma sum_initiators:
  "\<forall>row \<in> set rows. \<exists>k \<in> set INITIATORS. row_get row ''initiator'' = Some k \<Longrightarrow>
     length rows = (\<Sum>k \<leftarrow> INITIATORS. length (filter (cell_is ''initiator'' k) rows))"
  by (induction rows) (auto simp: INITIATORS_def cell_is_def)

lemma validate_trace_iff:
  "validate_trace config policy rows = Inr () \<longleftrightarrow> valid_trace config policy rows"
proof -
  let ?d = "map (\<lambda>k. (k, 0)) INITIATORS :: (string \<times> int) list" and ?n = "num_transactions_per_initiator config"
  let ?f = "foldR (validate_row config policy) ?d rows"
  have d: "map fst ?d = INITIATORS" "\<And>k. map_of ?d k = (if k \<in> set INITIATORS then Some 0 else None)"
    by (simp_all add: comp_def map_of_map_restrict)
  have dist: "distinct INITIATORS" by (simp add: INITIATORS_def)
  have counts: "(\<forall>(k, n) \<in> set d'. n = ?n) \<longleftrightarrow>
      (\<forall>k \<in> set INITIATORS. int (length (filter (cell_is ''initiator'' k) rows)) = ?n)" if "?f = Inr d'" for d'
  proof -
    have keys: "map fst d' = INITIATORS" using foldR_counts(2) [OF that] d(1) by simp
    have "(\<forall>(k, n) \<in> set d'. n = ?n) \<longleftrightarrow> (\<forall>k \<in> set INITIATORS. \<forall>n. map_of d' k = Some n \<longrightarrow> n = ?n)"
      using map_of_distinct_all [of d' "\<lambda>(k, n). n = ?n"] dist unfolding keys by simp
    then show ?thesis using foldR_counts(2) [OF that] d(2) by auto
  qed
  have len: "int (length rows) = int (length INITIATORS) * ?n"
    if "\<forall>row \<in> set rows. well_labelled config policy row"
      and "\<forall>k \<in> set INITIATORS. int (length (filter (cell_is ''initiator'' k) rows)) = ?n"
  proof -
    have "length rows = (\<Sum>k \<leftarrow> INITIATORS. length (filter (cell_is ''initiator'' k) rows))"
      using that(1) by (intro sum_initiators) (auto simp: well_labelled_def)
    then show ?thesis using that(2) by (simp add: INITIATORS_def)
  qed
  have "validate_trace config policy rows = Inr () \<longleftrightarrow>
      int (length rows) = int (length INITIATORS) * ?n \<and> (\<exists>d'. ?f = Inr d' \<and> (\<forall>(k, n) \<in> set d'. n = ?n))"
    by (simp add: validate_trace_def Let_def bindR_eq_Inr raise_if_eq_Inr checkR_eq_Inr case_prod_unfold)
  also have "\<dots> \<longleftrightarrow> valid_trace config policy rows"
    using foldR_counts(1) [of config policy ?d rows] counts len unfolding valid_trace_def by blast
  finally show ?thesis .
qed

text \<open>C3. \<open>validate_trace\<close> decides exactly the declarative validity of a trace: it accepts if and only if
  every initiator has the configured number of rows and every row carries the labels of the case
  and of the policy, monotone time stamps and a total latency within 0.002 of the observed one.
  In particular its loop over a running dictionary of counts computes the exact counts.\<close>

theorem validate_trace_correct:
  "validate_trace config policy rows = Inr () \<longleftrightarrow> valid_trace config policy rows"
  by (rule validate_trace_iff)

section \<open>Percentiles\<close>

lemma ceil_to_int_val: "ceil_to_int (Fin s m e) = Inr \<lceil>fval (Fin s m e)\<rceil>"
proof -
  obtain n d where f: "frac_of 2 (if s then - m else m) e = (n, d)" by fastforce
  then have "0 < d" "(of_int n :: rat) / of_int d = fval (Fin s m e)"
    using frac_of_mag [OF f] by (auto simp: mag_def)
  then show ?thesis
    using f ceiling_divide_eq_div [of n d, where ?'a = rat] by (simp add: ceil_to_int_def)
qed

text \<open>The rank as a function of the exact product: one rounding to the format, then the ceiling.\<close>

definition rank_at :: "rat \<Rightarrow> nat \<Rightarrow> nat" where
  "rank_at p n = nat (max 0 (min (\<lceil>b64 (p * of_nat n)\<rceil> - 1) (int n - 1)))"

lemma percentile_at:
  assumes "pct = Fin False m e" and "0 \<le> m" and "mag m e \<le> 1" and "xs \<noteq> []" and "length xs < 2 ^ 53"
  shows "percentile xs pct = Inr (py_sorted f_lt xs ! rank_at (mag m e) (length xs))"
proof -
  have "int (length xs) < int (2 ^ 53)" using assms(5) by (simp only: of_nat_less_iff)
  then have n: "0 \<le> int (length xs)" "int (length xs) < 2 ^ 53" by simp_all
  obtain k f where k: "count_float (length xs) = Fin False k f" "0 \<le> k" "mag k f = of_int (int (length xs))"
    using flit_int [OF n] by (auto simp: count_float_def)
  have r: "rounds_to False (mag m e * of_nat (length xs)) (f_mul pct (count_float (length xs)))"
    using f_mul_rounds [OF assms(2) k(2), of False False e f] assms(1) k by simp
  have "mag m e * of_nat (length xs) \<le> of_int (int (length xs))"
    using mult_right_mono [OF assms(3), of "of_nat (length xs)"] by simp
  from rounds_le_int [OF r this n] obtain a b where a: "f_mul pct (count_float (length xs)) = Fin False a b" by auto
  then have "fval (Fin False a b) = b64 (mag m e * of_nat (length xs))"
    using r by (auto simp: rounds_to_def split: if_splits)
  then show ?thesis
    using assms(4) a by (simp add: percentile_def Let_def ceil_to_int_val rank_at_def del: fval.simps)
qed

lemma rank_at_less: "0 < n \<Longrightarrow> rank_at p n < n"
  by (auto simp: rank_at_def)

lemma rank_at_mono: "p \<le> q \<Longrightarrow> rank_at p n \<le> rank_at q n"
proof -
  assume "p \<le> q"
  then have "b64 (p * of_nat n) \<le> b64 (q * of_nat n)" by (intro b64_mono mult_right_mono) simp_all
  then have "\<lceil>b64 (p * of_nat n)\<rceil> \<le> \<lceil>b64 (q * of_nat n)\<rceil>" by (rule ceiling_mono)
  then show ?thesis unfolding rank_at_def by (intro nat_mono) auto
qed

lemma percentile_range:
  assumes "pct = Fin False m e" and "0 \<le> m" and "mag m e \<le> 1" and "length xs < 2 ^ 53" and "percentile xs pct = Inr x"
  shows "x \<in> insert f_zero (set xs)"
  using percentile_at [OF assms(1-3) _ assms(4)] assms(5) rank_at_less [of "length xs" "mag m e"]
  by (cases "xs = []") (auto simp: percentile_def, metis length_greater_0_conv length_py_sorted nth_mem set_py_sorted)

lemma percentile_le:
  assumes "percentile xs (Fin False m e) = Inr x" and "percentile xs (Fin False n f) = Inr y"
    and "0 \<le> m" and "mag m e \<le> mag n f" and "mag n f \<le> 1" and "0 \<le> n"
    and "length xs < 2 ^ 53" and nn: "\<forall>x \<in> set xs. not_nan x"
  shows "f_le x y"
proof (cases "xs = []")
  case True
  then show ?thesis using assms(1,2) f_le_refl unit_ends by (simp add: percentile_def)
next
  case False
  let ?s = "py_sorted f_lt xs" and ?i = "rank_at (mag m e) (length xs)" and ?j = "rank_at (mag n f) (length xs)"
  have x: "x = ?s ! ?i" "y = ?s ! ?j"
    using percentile_at [OF refl assms(3) _ False assms(7)] percentile_at [OF refl assms(6,5) False assms(7)] assms(1,2,4,5)
    by auto
  have ij: "?i \<le> ?j" "?j < length xs" using rank_at_mono [OF assms(4)] rank_at_less False by auto
  then have "?s ! ?i \<in> set xs" "?s ! ?j \<in> set xs"
    by (metis le_less_trans length_py_sorted nth_mem set_py_sorted)+
  then show ?thesis
    using float_order.nth_py_sorted_mono [OF nn ij] nn x f_le_not_lt by auto
qed

lemma pct_value:
  assumes "0 \<le> k" and "k \<le> 100"
  shows "\<exists>m e. flit k 100 = Fin False m e \<and> 0 \<le> m \<and> mag m e = b64 (of_int k / 100) \<and> mag m e \<le> 1"
proof -
  have r: "rounds_to False (of_int k / 100) (flit k 100)"
    using mk_float_rounds [of k 100 False] assms by (simp add: flit_def of_frac_def)
  have "of_int k / 100 \<le> (of_int 1 :: rat)" using assms by simp
  from rounds_le_int [OF r this] obtain m e where "flit k 100 = Fin False m e" "0 \<le> m" "mag m e \<le> 1" by auto
  then show ?thesis using r by (auto simp: rounds_to_def split: if_splits)
qed

lemma percentiles_ordered:
  assumes "percentile xs (flit j 100) = Inr x" and "percentile xs (flit k 100) = Inr y"
    and "0 \<le> j" and "j \<le> k" and "k \<le> 100" and "length xs < 2 ^ 53" and "\<forall>x \<in> set xs. not_nan x"
  shows "f_le x y"
proof -
  obtain m e n f where "flit j 100 = Fin False m e" "0 \<le> m" "mag m e = b64 (of_int j / 100)"
    "flit k 100 = Fin False n f" "0 \<le> n" "mag n f = b64 (of_int k / 100)" "mag n f \<le> 1"
    using pct_value [of j] pct_value [of k] assms(3-5) by auto
  moreover have "b64 (of_int j / 100) \<le> b64 (of_int k / 100)"
    using assms(4) by (intro b64_mono) (simp add: divide_right_mono)
  ultimately show ?thesis using percentile_le [of xs m e x n f y] assms by simp
qed

section \<open>Groups\<close>

lemma group_row_eq: "group_row d row = Inr d' \<longleftrightarrow>
    (\<exists>i. row_get row ''initiator'' = Some i \<and> i \<in> set (map fst d) \<and> d' = dict_append d i row)"
  by (auto simp: group_row_def split: option.splits)

lemma foldR_group:
  "foldR group_row d rows = Inr g \<Longrightarrow> map fst g = map fst d \<and>
     map_of g k = map_option (\<lambda>rs. rs @ filter (cell_is ''initiator'' k) rows) (map_of d k) \<and>
     (\<forall>row \<in> set rows. \<exists>i \<in> set (map fst d). row_get row ''initiator'' = Some i)"
proof (induction rows arbitrary: d)
  case Nil
  then show ?case by (simp add: option.map_ident)
next
  case (Cons row rows)
  then obtain i where i: "row_get row ''initiator'' = Some i" "i \<in> set (map fst d)"
    "foldR group_row (dict_append d i row) rows = Inr g"
    by (auto simp: bindR_eq_Inr group_row_eq)
  have keys: "map fst (dict_append d i row) = map fst d" using i(2) by (simp add: keys_dict_append del: set_map)
  have "map_of d i \<noteq> None" using i(2) by (simp add: map_of_eq_None_iff)
  then show ?case
    using Cons.IH [OF i(3)] i(1,2) unfolding keys
    by (auto simp: map_of_dict_append cell_is_def option.map_comp comp_def)
qed

text \<open>The groups are the rows of each initiator in file order.\<close>

lemma group_by_initiator_eq:
  assumes "group_by_initiator rows = Inr g"
  shows "map fst g = INITIATORS"
    and "k \<in> set INITIATORS \<Longrightarrow> group_of g k = filter (cell_is ''initiator'' k) rows"
proof -
  have d: "map_of (map (\<lambda>k. (k, [])) INITIATORS) k = (if k \<in> set INITIATORS then Some [] else None)"
    by (simp add: map_of_map_restrict)
  show "map fst g = INITIATORS"
    using foldR_group [OF assms [unfolded group_by_initiator_def]] by (simp add: comp_def)
  show "k \<in> set INITIATORS \<Longrightarrow> group_of g k = filter (cell_is ''initiator'' k) rows"
    using foldR_group [OF assms [unfolded group_by_initiator_def], of k] unfolding d by (simp add: group_of_def)
qed

lemma group_length:
  assumes "group_by_initiator rows = Inr g"
  shows "length (group_of g k) \<le> length rows"
proof (cases "k \<in> set INITIATORS")
  case True
  then show ?thesis using group_by_initiator_eq(2) [OF assms] by (simp add: length_filter_le)
next
  case False
  have "map_of g k = None"
    using False group_by_initiator_eq(1) [OF assms] by (metis map_of_eq_None_iff set_map)
  then show ?thesis by (simp add: group_of_def)
qed

lemma group_total:
  "\<forall>row \<in> set rows. \<exists>i \<in> set INITIATORS. row_get row ''initiator'' = Some i \<Longrightarrow> \<exists>g. group_by_initiator rows = Inr g"
proof -
  have "\<forall>row \<in> set rows. \<exists>i \<in> set (map fst d). row_get row ''initiator'' = Some i \<Longrightarrow> \<exists>g. foldR group_row d rows = Inr g" for d
  proof (induction rows arbitrary: d)
    case (Cons row rows)
    then obtain i where i: "row_get row ''initiator'' = Some i" "i \<in> set (map fst d)" by auto
    have keys: "map fst (dict_append d i row) = map fst d" using i(2) by (simp add: keys_dict_append del: set_map)
    obtain g where "foldR group_row (dict_append d i row) rows = Inr g"
      using Cons.IH [of "dict_append d i row"] Cons.prems unfolding keys by auto
    moreover have "group_row d row = Inr (dict_append d i row)" using i group_row_eq by blast
    ultimately show ?case by simp
  qed simp
  from this [of "map (\<lambda>k. (k, [])) INITIATORS"] show "\<forall>row \<in> set rows. \<exists>i \<in> set INITIATORS. row_get row ''initiator'' = Some i \<Longrightarrow> \<exists>g. group_by_initiator rows = Inr g"
    by (simp add: group_by_initiator_def comp_def)
qed

end
