(* ===== verification/At5_Policy.thy ===== *)
theory At5_Policy
  imports At5_Model
begin

text \<open>
  \<open>examples/at/tools/demo_at5_backpressure_qos_collapse.py\<close>, second part: the summary rows of a
  case (\<open>summarize_case\<close>), the row of one policy (\<open>aggregate_policy_row\<close>, \<open>policy_action\<close>), the
  choice of the best policy and the recommendation of a case (\<open>make_recommendation\<close>).

  The dictionaries with string values are records whose fields carry a prefix:
  \<open>s_\<close> summary row, \<open>p_\<close> policy row, \<open>r_\<close> recommendation row.
\<close>

section \<open>Summary rows\<close>

record summary_row =
  s_case_name :: string
  s_initiator :: string
  s_policy :: "string option"
  s_transactions :: string
  s_sla_target_ns :: string
  s_sla_violation_ratio :: string
  s_avg_total_latency_ns :: string
  s_p50_total_latency_ns :: string
  s_p95_total_latency_ns :: string
  s_p99_total_latency_ns :: string
  s_throughput_txn_per_us :: string
  s_ingress_queue_capacity :: "string option"
  s_downstream_queue_capacity :: "string option"
  s_queue_full_events :: string
  s_backpressure_stall_ns :: string
  s_initiator_blocked_ns :: string
  s_memory_service_latency_ns :: string
  s_service_utilization :: string
  s_saturation_ratio :: string
  s_fairness_index :: string
  s_starvation_proxy :: string
  s_collapse_score :: string
  s_dominant_bottleneck :: string
  s_claim_boundary :: string
  s_schema_version :: string

definition starvation_of :: "pyfloat \<Rightarrow> pyfloat \<Rightarrow> pyfloat \<Rightarrow> pyfloat result" where
  "starvation_of best mine vio =
     bindR (ratio (f_sub best mine) best) (\<lambda>r. Inr (clamp (f_add r (f_mul (flit 35 100) vio))))"

text \<open>\<open>rows[0]\<close>.\<close>

definition first_row :: "csv_row list \<Rightarrow> csv_row result" where
  "first_row rows = (case rows of [] \<Rightarrow> Inl IndexError | r # _ \<Rightarrow> Inr r)"

definition summary_of_initiator ::
  "case_config \<Rightarrow> case_metrics \<Rightarrow> string \<Rightarrow> pyfloat \<Rightarrow> string \<Rightarrow> csv_row list \<Rightarrow> pyfloat \<Rightarrow> summary_row result" where
  "summary_of_initiator config metrics bottleneck best_throughput initiator initiator_rows mine =
     bindR (nums ''total_latency_ns'' initiator_rows) (\<lambda>total_latencies.
     bindR (violation_ratio initiator_rows) (\<lambda>vio.
     bindR (starvation_of best_throughput mine vio) (\<lambda>starvation.
     bindR (first_row initiator_rows) (\<lambda>first.
     bindR (num first ''sla_target_ns'') (\<lambda>sla_target.
     bindR (average total_latencies) (\<lambda>avg.
     bindR (percentile total_latencies (flit 50 100)) (\<lambda>p50.
     bindR (percentile total_latencies (flit 95 100)) (\<lambda>p95.
     bindR (percentile total_latencies (flit 99 100)) (\<lambda>p99.
     bindR (nums ''backpressure_stall_ns'' initiator_rows) (\<lambda>stalls.
     bindR (nums ''initiator_blocked_ns'' initiator_rows) (\<lambda>blocked.
     bindR (num first ''memory_service_latency_ns'') (\<lambda>service_latency.
     Inr \<lparr>s_case_name = case_name config, s_initiator = initiator, s_policy = row_get first ''policy'',
          s_transactions = str_nat (length initiator_rows), s_sla_target_ns = fmt3 sla_target,
          s_sla_violation_ratio = fmt3 vio, s_avg_total_latency_ns = fmt3 avg,
          s_p50_total_latency_ns = fmt3 p50, s_p95_total_latency_ns = fmt3 p95,
          s_p99_total_latency_ns = fmt3 p99, s_throughput_txn_per_us = fmt3 mine,
          s_ingress_queue_capacity = row_get first ''ingress_queue_capacity'',
          s_downstream_queue_capacity = row_get first ''downstream_queue_capacity'',
          s_queue_full_events = str_nat (count_cells ''queue_full_event'' ''YES'' initiator_rows),
          s_backpressure_stall_ns = fmt3 (py_fsum stalls),
          s_initiator_blocked_ns = fmt3 (py_fsum blocked),
          s_memory_service_latency_ns = fmt3 service_latency,
          s_service_utilization = fmt3 (cm_service_utilization metrics),
          s_saturation_ratio = fmt3 (cm_saturation_ratio metrics),
          s_fairness_index = fmt3 (cm_fairness_index metrics),
          s_starvation_proxy = fmt3 starvation,
          s_collapse_score = fmt3 (cm_collapse_score metrics),
          s_dominant_bottleneck = bottleneck, s_claim_boundary = ''PASS'',
          s_schema_version = SCHEMA_VERSION\<rparr>))))))))))))"

definition summarize_case :: "case_config \<Rightarrow> csv_row list \<Rightarrow> summary_row list result" where
  "summarize_case config rows =
     bindR (group_by_initiator rows) (\<lambda>grouped.
     bindR (system_metrics rows config) (\<lambda>metrics.
     bindR (dominant_bottleneck rows config) (\<lambda>bottleneck.
     bindR (mapR (\<lambda>k. throughput (group_of grouped k)) INITIATORS) (\<lambda>throughputs.
     bindR (py_max throughputs) (\<lambda>best_throughput.
     mapR (\<lambda>(k, mine). summary_of_initiator config metrics bottleneck best_throughput k (group_of grouped k) mine)
       (zip INITIATORS throughputs))))))"

section \<open>Policy rows\<close>

record policy_row =
  p_case_name :: string
  p_policy :: string
  p_cpu_rt_p95_ns :: string
  p_cpu_rt_sla_violation_ratio :: string
  p_dma_bulk_throughput_txn_per_us :: string
  p_accel_burst_p99_ns :: string
  p_system_throughput_txn_per_us :: string
  p_service_utilization :: string
  p_queue_full_events :: string
  p_backpressure_stall_ns :: string
  p_fairness_index :: string
  p_collapse_score :: string
  p_dominant_bottleneck :: string
  p_recommended_action :: string
  p_claim_boundary :: string
  p_schema_version :: string

text \<open>\<open>int(row["queue_full_events"])\<close>.\<close>

definition to_int :: "string \<Rightarrow> int result" where
  "to_int s = opt_or_raise (py_int10 s) (ValueError ''invalid literal for int() with base 10'')"

definition policy_action :: "case_config \<Rightarrow> policy_row \<Rightarrow> string result" where
  "policy_action config row =
     bindR (to_float (p_cpu_rt_sla_violation_ratio row)) (\<lambda>cpu_vio.
     bindR (to_float (p_fairness_index row)) (\<lambda>fairness.
     bindR (to_int (p_queue_full_events row)) (\<lambda>queue_full.
     bindR (to_float (p_service_utilization row)) (\<lambda>util.
     Inr (if p_dominant_bottleneck row = ''downstream_service_saturation'' then ''reduce_memory_service_latency''
          else if case_name config = ''bursty_accel_tail_spike'' then ''shape_accel_bursts''
          else if 0 < queue_full \<and> f_lt util (flit 92 100)
          then (if p_policy row = ''backpressure_aware'' then ''increase_downstream_queue_capacity''
                else ''use_backpressure_aware_scheduling'')
          else if p_policy row = ''strict_priority'' \<and> f_le cpu_vio (flit 20 100) \<and> f_le (flit 75 100) fairness
          then ''use_strict_priority''
          else if p_policy row = ''strict_priority'' \<and> f_lt fairness (flit 75 100) then ''use_weighted_priority''
          else if p_policy row = ''throttled_dma'' \<and> f_le cpu_vio (flit 20 100) then ''throttle_dma_bulk''
          else if p_policy row = ''weighted_priority'' \<and> f_le (flit 78 100) fairness then ''use_weighted_priority''
          else ''no_single_dominant_action'')))))"

definition unsupported_action :: "string \<Rightarrow> exn" where
  "unsupported_action a = DemoError (''unsupported recommended_action: '' @ a)"

definition aggregate_policy_row :: "case_config \<Rightarrow> string \<Rightarrow> csv_row list \<Rightarrow> policy_row result" where
  "aggregate_policy_row config policy rows =
     bindR (group_by_initiator rows) (\<lambda>grouped.
     let cpu_rows = group_of grouped ''cpu_rt''; dma_rows = group_of grouped ''dma_bulk'';
         accel_rows = group_of grouped ''accel_burst'' in
     bindR (nums ''total_latency_ns'' cpu_rows) (\<lambda>cpu_latencies.
     bindR (nums ''total_latency_ns'' accel_rows) (\<lambda>accel_latencies.
     bindR (violation_ratio cpu_rows) (\<lambda>cpu_vio.
     bindR (system_metrics rows config) (\<lambda>metrics.
     bindR (percentile cpu_latencies (flit 95 100)) (\<lambda>cpu_p95.
     bindR (throughput dma_rows) (\<lambda>dma_throughput.
     bindR (percentile accel_latencies (flit 99 100)) (\<lambda>accel_p99.
     bindR (throughput rows) (\<lambda>system_throughput.
     bindR (nums ''backpressure_stall_ns'' rows) (\<lambda>stalls.
     bindR (dominant_bottleneck rows config) (\<lambda>bottleneck.
     let row = \<lparr>p_case_name = case_name config, p_policy = policy, p_cpu_rt_p95_ns = fmt3 cpu_p95,
          p_cpu_rt_sla_violation_ratio = fmt3 cpu_vio,
          p_dma_bulk_throughput_txn_per_us = fmt3 dma_throughput, p_accel_burst_p99_ns = fmt3 accel_p99,
          p_system_throughput_txn_per_us = fmt3 system_throughput,
          p_service_utilization = fmt3 (cm_service_utilization metrics),
          p_queue_full_events = str_nat (count_cells ''queue_full_event'' ''YES'' rows),
          p_backpressure_stall_ns = fmt3 (py_fsum stalls),
          p_fairness_index = fmt3 (cm_fairness_index metrics),
          p_collapse_score = fmt3 (cm_collapse_score metrics), p_dominant_bottleneck = bottleneck,
          p_recommended_action = ''no_single_dominant_action'', p_claim_boundary = ''PASS'',
          p_schema_version = SCHEMA_VERSION\<rparr> in
     bindR (policy_action config row) (\<lambda>action.
     bindR (raise_if (action \<notin> set ALLOWED_ACTIONS) (unsupported_action action)) (\<lambda>_.
     Inr (row\<lparr>p_recommended_action := action\<rparr>))))))))))))))"

section \<open>The best policy and the recommendation\<close>

type_synonym policy_score = "pyfloat \<times> pyfloat \<times> pyfloat"

definition score :: "policy_row \<Rightarrow> policy_score result" where
  "score row = bindR (to_float (p_collapse_score row)) (\<lambda>c.
     bindR (to_float (p_cpu_rt_sla_violation_ratio row)) (\<lambda>v.
     bindR (to_float (p_cpu_rt_p95_ns row)) (\<lambda>p. Inr (c, v, p))))"

text \<open>\<open><\<close> on tuples of floats: the first components that are not equal decide.\<close>

fun score_lt :: "policy_score \<Rightarrow> policy_score \<Rightarrow> bool" where
  "score_lt (a, b, c) (a', b', c') =
     (if \<not> f_eq a a' then f_lt a a' else if \<not> f_eq b b' then f_lt b b' else f_lt c c')"

definition best_policy_row :: "policy_row list \<Rightarrow> policy_row result" where
  "best_policy_row policy_rows =
     bindR (mapR score policy_rows) (\<lambda>ks.
     case zip ks policy_rows of
       [] \<Rightarrow> Inl (ValueError ''min() iterable argument is empty'')
     | kr # krs \<Rightarrow> Inr (snd (min_from (\<lambda>x y. score_lt (fst x) (fst y)) kr krs)))"

definition best_policy :: "policy_row list \<Rightarrow> string result" where
  "best_policy policy_rows = bindR (best_policy_row policy_rows) (\<lambda>row. Inr (p_policy row))"

definition signal_name :: "pyfloat \<Rightarrow> pyfloat \<Rightarrow> pyfloat \<Rightarrow> string" where
  "signal_name value high medium =
     (if f_le high value then ''high'' else if f_le medium value then ''medium'' else ''low'')"

text \<open>\<open>by_policy[k]\<close>: the last row of the policy.\<close>

definition by_policy :: "policy_row list \<Rightarrow> string \<Rightarrow> policy_row result" where
  "by_policy policy_rows k =
     opt_or_raise (map_of (rev (map (\<lambda>r. (p_policy r, r)) policy_rows)) k) (KeyError k)"

record recommendation_row =
  r_case_name :: string
  r_primary_bottleneck :: string
  r_confidence :: string
  r_recommended_action :: string
  r_recommendation_priority :: string
  r_evidence_summary :: string
  r_qos_policy_best :: string
  r_queue_capacity_signal :: string
  r_service_saturation_signal :: string
  r_backpressure_signal :: string
  r_fairness_signal :: string
  r_sla_signal :: string
  r_claim_boundary :: string
  r_schema_version :: string

text \<open>What the chain of case rules picks: bottleneck, action, confidence, priority, best policy.\<close>

record choice =
  ch_bottleneck :: string
  ch_action :: string
  ch_confidence :: string
  ch_priority :: string
  ch_best :: string

definition policy_extremes :: "policy_row list \<Rightarrow> (pyfloat \<times> pyfloat \<times> int \<times> pyfloat) result" where
  "policy_extremes policy_rows =
     bindR (mapR (\<lambda>row. to_float (p_service_utilization row)) policy_rows) (\<lambda>utils.
     bindR (py_max utils) (\<lambda>max_util.
     bindR (mapR (\<lambda>row. to_float (p_cpu_rt_sla_violation_ratio row)) policy_rows) (\<lambda>vios.
     bindR (py_min vios) (\<lambda>min_cpu_vio.
     bindR (mapR (\<lambda>row. to_int (p_queue_full_events row)) policy_rows) (\<lambda>queues.
     bindR (raise_if (queues = []) (ValueError ''max() iterable argument is empty'')) (\<lambda>_.
     bindR (mapR (\<lambda>row. to_float (p_fairness_index row)) policy_rows) (\<lambda>fairs.
     bindR (py_min fairs) (\<lambda>min_fairness.
     Inr (max_util, min_cpu_vio, Max (set queues), min_fairness)))))))))"

definition text_gain :: "string \<Rightarrow> string \<Rightarrow> pyfloat result" where
  "text_gain a b = bindR (to_float a) (\<lambda>x. bindR (to_float b) (\<lambda>y. Inr (f_sub x y)))"

definition choose_case ::
  "case_config \<Rightarrow> pyfloat \<Rightarrow> pyfloat \<Rightarrow> pyfloat \<Rightarrow> int \<Rightarrow> policy_row \<Rightarrow> policy_row \<Rightarrow> policy_row \<Rightarrow> string
     \<Rightarrow> policy_row \<Rightarrow> choice result" where
  "choose_case config strict_cpu_gain strict_dma_loss min_cpu_vio max_queue rr throttled aware best best_row =
     (let default_choice = \<lparr>ch_bottleneck = p_dominant_bottleneck best_row, ch_action = p_recommended_action best_row,
          ch_confidence = ''medium'', ch_priority = ''medium'', ch_best = best\<rparr> in
      if case_name config = ''strict_priority_helps_cpu'' \<and> f_lt (flit 5 1) strict_cpu_gain
      then Inr \<lparr>ch_bottleneck = ''latency_sensitive_qos_contention'', ch_action = ''use_strict_priority'',
          ch_confidence = ''high'', ch_priority = ''medium'', ch_best = ''strict_priority''\<rparr>
      else if case_name config = ''strict_priority_starves_dma'' \<and> f_lt f_zero strict_dma_loss
      then Inr \<lparr>ch_bottleneck = ''strict_priority_starvation'', ch_action = ''use_weighted_priority'',
          ch_confidence = ''high'', ch_priority = ''high'', ch_best = ''weighted_priority''\<rparr>
      else if case_name config = ''downstream_saturation_qos_collapse'' \<and> f_lt f_zero min_cpu_vio
      then Inr \<lparr>ch_bottleneck = ''downstream_service_saturation'', ch_action = ''reduce_memory_service_latency'',
          ch_confidence = ''high'', ch_priority = ''high'', ch_best = best\<rparr>
      else if case_name config = ''small_queue_backpressure'' \<and> 0 < max_queue
      then bindR (to_int (p_queue_full_events aware)) (\<lambda>a. bindR (to_int (p_queue_full_events rr)) (\<lambda>b.
        Inr \<lparr>ch_bottleneck = ''bounded_queue_backpressure'',
          ch_action = (if a < b then ''use_backpressure_aware_scheduling'' else ''increase_downstream_queue_capacity''),
          ch_confidence = ''high'', ch_priority = ''high'', ch_best = ''backpressure_aware''\<rparr>))
      else bindR (if case_name config = ''throttled_dma_recovers_sla''
          then bindR (to_float (p_cpu_rt_sla_violation_ratio throttled)) (\<lambda>a.
            bindR (to_float (p_cpu_rt_sla_violation_ratio rr)) (\<lambda>b. Inr (f_le a b)))
          else Inr False) (\<lambda>recovers.
        Inr (if recovers
          then \<lparr>ch_bottleneck = ''dma_bulk_induced_backpressure'', ch_action = ''throttle_dma_bulk'',
            ch_confidence = ''high'', ch_priority = ''high'', ch_best = ''throttled_dma''\<rparr>
          else if case_name config = ''bursty_accel_tail_spike''
          then \<lparr>ch_bottleneck = ''accel_burst_tail_spike'', ch_action = ''shape_accel_bursts'',
            ch_confidence = ''high'', ch_priority = ''medium'', ch_best = best\<rparr>
          else if case_name config = ''baseline_balanced_rr''
          then \<lparr>ch_bottleneck = ''balanced_or_low_pressure'', ch_action = ''no_single_dominant_action'',
            ch_confidence = ''medium'', ch_priority = ''low'', ch_best = ''round_robin''\<rparr>
          else default_choice)))"

definition evidence_text :: "string \<Rightarrow> pyfloat \<Rightarrow> pyfloat \<Rightarrow> int \<Rightarrow> pyfloat \<Rightarrow> string" where
  "evidence_text best min_cpu_vio max_util max_queue min_fairness =
     ''best_policy='' @ best @ ''; min_cpu_sla_violation='' @ fmt3 min_cpu_vio @
     ''; max_utilization='' @ fmt3 max_util @ ''; max_queue_full_events='' @ str_int max_queue @
     ''; min_fairness='' @ fmt3 min_fairness"

definition make_recommendation :: "case_config \<Rightarrow> policy_row list \<Rightarrow> recommendation_row result" where
  "make_recommendation config policy_rows =
     bindR (best_policy policy_rows) (\<lambda>best.
     bindR (by_policy policy_rows ''strict_priority'') (\<lambda>strict.
     bindR (by_policy policy_rows ''round_robin'') (\<lambda>rr.
     bindR (by_policy policy_rows ''throttled_dma'') (\<lambda>throttled.
     bindR (by_policy policy_rows ''backpressure_aware'') (\<lambda>aware.
     bindR (by_policy policy_rows best) (\<lambda>best_row.
     bindR (policy_extremes policy_rows) (\<lambda>(max_util, min_cpu_vio, max_queue, min_fairness).
     bindR (text_gain (p_cpu_rt_p95_ns rr) (p_cpu_rt_p95_ns strict)) (\<lambda>strict_cpu_gain.
     bindR (text_gain (p_dma_bulk_throughput_txn_per_us rr) (p_dma_bulk_throughput_txn_per_us strict)) (\<lambda>strict_dma_loss.
     bindR (choose_case config strict_cpu_gain strict_dma_loss min_cpu_vio max_queue rr throttled aware best best_row) (\<lambda>ch.
     bindR (raise_if (ch_action ch \<notin> set ALLOWED_ACTIONS) (unsupported_action (ch_action ch))) (\<lambda>_.
     bindR (bindR (float_of_int max_queue) (\<lambda>q. f_div q (flit 108 1))) (\<lambda>queue_share.
     bindR (mapR (\<lambda>row. to_float (p_backpressure_stall_ns row)) policy_rows) (\<lambda>stalls.
     bindR (py_max stalls) (\<lambda>max_stall. bindR (f_div max_stall (flit 5000 1)) (\<lambda>stall_share.
     Inr \<lparr>r_case_name = case_name config, r_primary_bottleneck = ch_bottleneck ch,
          r_confidence = ch_confidence ch, r_recommended_action = ch_action ch,
          r_recommendation_priority = ch_priority ch,
          r_evidence_summary = evidence_text (ch_best ch) min_cpu_vio max_util max_queue min_fairness,
          r_qos_policy_best = ch_best ch,
          r_queue_capacity_signal = signal_name queue_share (flit 25 100) (flit 8 100),
          r_service_saturation_signal = signal_name max_util (flit 92 100) (flit 75 100),
          r_backpressure_signal = signal_name stall_share (flit 80 100) (flit 30 100),
          r_fairness_signal = signal_name (f_sub (flit 1 1) min_fairness) (flit 30 100) (flit 15 100),
          r_sla_signal = signal_name min_cpu_vio (flit 50 100) (flit 10 100),
          r_claim_boundary = ''PASS'', r_schema_version = SCHEMA_VERSION\<rparr>)))))))))))))))"

section \<open>Summaries\<close>

lemma percentile_wf:
  assumes "percentile xs (flit k 100) = Inr x" and "0 \<le> k" and "k \<le> 100" and "length xs < 2 ^ 53"
    and "\<forall>x \<in> set xs. wf_float x"
  shows "wf_float x"
proof -
  obtain m e where "flit k 100 = Fin False m e" "0 \<le> m" "mag m e \<le> 1" using pct_value assms(2,3) by blast
  then show ?thesis using percentile_range [of "flit k 100" m e xs x] assms wf_zero by auto
qed

text \<open>Two printed numbers whose values are in order.\<close>

definition printed_le :: "string \<Rightarrow> string \<Rightarrow> bool" where
  "printed_le s t \<longleftrightarrow> (\<exists>x y. to_float s = Inr x \<and> to_float t = Inr y \<and> f_le x y)"

lemma printed_le_fmt3: "wf_float x \<Longrightarrow> wf_float y \<Longrightarrow> f_le x y \<Longrightarrow> printed_le (fmt3 x) (fmt3 y)"
  by (simp add: printed_le_def to_float_fmt3 reparse_mono)

lemma summary_percentiles:
  assumes "summary_of_initiator config m b best k rows mine = Inr s" and "length rows < 2 ^ 53"
  shows "s_initiator s = k \<and> printed_le (s_p50_total_latency_ns s) (s_p95_total_latency_ns s) \<and>
    printed_le (s_p95_total_latency_ns s) (s_p99_total_latency_ns s)"
proof -
  obtain xs p50 p95 p99 where p: "nums ''total_latency_ns'' rows = Inr xs" "percentile xs (flit 50 100) = Inr p50"
    "percentile xs (flit 95 100) = Inr p95" "percentile xs (flit 99 100) = Inr p99"
    "s_initiator s = k" "s_p50_total_latency_ns s = fmt3 p50" "s_p95_total_latency_ns s = fmt3 p95"
    "s_p99_total_latency_ns s = fmt3 p99"
    using assms(1) by (auto simp: summary_of_initiator_def bindR_eq_Inr)
  have xs: "\<forall>x \<in> set xs. wf_float x \<and> not_nan x" "length xs < 2 ^ 53"
    using nums_finite [OF p(1)] nums_length [OF p(1)] assms(2) by auto
  have "f_le p50 p95" "f_le p95 p99"
    using percentiles_ordered [OF p(2,3)] percentiles_ordered [OF p(3,4)] xs by auto
  moreover have "wf_float p50" "wf_float p95" "wf_float p99"
    using percentile_wf [OF p(2)] percentile_wf [OF p(3)] percentile_wf [OF p(4)] xs by auto
  ultimately show ?thesis using p(5-8) printed_le_fmt3 by simp
qed

text \<open>C25. The summary of a case has one row per initiator, in the fixed order, and the printed p50, p95 and
  p99 latencies of every row, read back, are in order: the nearest-rank index is computed with one
  rounding in binary floating point and still grows with the percentage.\<close>

theorem summary_percentiles_ordered:
  assumes "summarize_case config rows = Inr ss" and "length rows < 2 ^ 53"
  shows "map s_initiator ss = INITIATORS \<and>
    (\<forall>s \<in> set ss. printed_le (s_p50_total_latency_ns s) (s_p95_total_latency_ns s) \<and>
       printed_le (s_p95_total_latency_ns s) (s_p99_total_latency_ns s))"
proof -
  obtain g m b ts best where g: "group_by_initiator rows = Inr g" "mapR (\<lambda>k. throughput (group_of g k)) INITIATORS = Inr ts"
    "mapR (\<lambda>(k, mine). summary_of_initiator config m b best k (group_of g k) mine) (zip INITIATORS ts) = Inr ss"
    using assms(1) by (auto simp: summarize_case_def bindR_eq_Inr)
  have row: "s_initiator s = fst km \<and> printed_le (s_p50_total_latency_ns s) (s_p95_total_latency_ns s) \<and>
      printed_le (s_p95_total_latency_ns s) (s_p99_total_latency_ns s)"
    if "(\<lambda>(k, mine). summary_of_initiator config m b best k (group_of g k) mine) km = Inr s" for km s
    using that summary_percentiles [of config m b best "fst km" "group_of g (fst km)" "snd km" s]
      group_length [OF g(1), of "fst km"] assms(2) by (cases km) auto
  have "map s_initiator ss = map fst (zip INITIATORS ts)"
    using g(3) row by (intro mapR_map_eq) auto
  then have "map s_initiator ss = INITIATORS" using mapR_length [OF g(2)] by simp
  then show ?thesis using row mapR_mem [OF g(3)] by blast
qed

section \<open>Actions\<close>

lemma policy_action_in: "policy_action config row = Inr a \<Longrightarrow> a \<in> set ALLOWED_ACTIONS"
  by (auto simp: policy_action_def bindR_eq_Inr ALLOWED_ACTIONS_def split: if_splits)

lemma to_float_err: "to_float s \<noteq> Inl (DemoError m)"
  by (auto simp: to_float_def opt_or_raise_eq_Inl)

lemma to_int_err: "to_int s \<noteq> Inl (DemoError m)"
  by (auto simp: to_int_def opt_or_raise_eq_Inl)

section \<open>Every printed number is well formed\<close>

lemma wf_clamp: "wf_float x \<Longrightarrow> wf_float (clamp x)"
  by (simp add: clamp_def wf_zero wf_flit)

lemma wf_sum_step: "wf_float (fst st) \<Longrightarrow> wf_float (snd st) \<Longrightarrow> wf_float x \<Longrightarrow>
    wf_float (fst (sum_step st x)) \<and> wf_float (snd (sum_step st x))"
  by (cases st) (simp add: sum_step_def Let_def wf_f_add wf_f_sub)

lemma wf_py_fsum: "\<forall>x \<in> set xs. wf_float x \<Longrightarrow> wf_float (py_fsum xs)"
proof -
  have fold: "wf_float (fst st) \<Longrightarrow> wf_float (snd st) \<Longrightarrow> \<forall>x \<in> set ys. wf_float x \<Longrightarrow>
      wf_float (fst (foldl sum_step st ys)) \<and> wf_float (snd (foldl sum_step st ys))" for st ys
    by (induction ys arbitrary: st) (simp_all add: wf_sum_step)
  have fin: "wf_float (fst st) \<Longrightarrow> wf_float (snd st) \<Longrightarrow> wf_float (sum_finish st)" for st
    by (cases st) (simp add: sum_finish_def wf_f_add)
  show "\<forall>x \<in> set xs. wf_float x \<Longrightarrow> wf_float (py_fsum xs)"
    by (cases xs) (auto simp: py_fsum_def wf_zero wf_f_add intro!: fin fold [THEN conjunct1] fold [THEN conjunct2])
qed

lemma wf_nums: "nums k rows = Inr xs \<Longrightarrow> \<forall>x \<in> set xs. wf_float x"
  using nums_finite by blast

lemma of_frac_not_nan: "not_nan (of_frac n d)"
  by (auto simp: of_frac_def mk_float_def not_nan_def split: prod.splits if_splits)

lemma int_truediv_eq: "0 < b \<Longrightarrow> int_truediv a b = Inr x \<Longrightarrow> x = of_frac a b"
  by (auto simp: int_truediv_def split: pyfloat.splits)

lemma wf_ratio_int:
  assumes "ratio_int a b = Inr x"
  shows "wf_float x \<and> not_nan x"
proof (cases "b = 0")
  case False
  then have "x = of_frac (int a) (int b)" using assms int_truediv_eq by (simp add: ratio_int_def)
  then show ?thesis using False wf_of_frac [of "int b" "int a"] of_frac_not_nan [of "int a" "int b"] by (simp del: wf_float.simps)
qed (use assms in \<open>auto simp: ratio_int_def wf_zero unit_ends\<close>)

lemma wf_violations: "violation_ratio rows = Inr x \<Longrightarrow> wf_float x \<and> not_nan x"
  unfolding violation_ratio_def by (rule wf_ratio_int)

lemma wf_fairness: "fairness_index g = Inr x \<Longrightarrow> wf_float x"
proof -
  assume a: "fairness_index g = Inr x"
  obtain ts where t: "mapR (\<lambda>k. throughput (group_of g k)) INITIATORS = Inr ts"
    using a by (auto simp: fairness_index_def bindR_eq_Inr)
  have ts: "\<forall>v \<in> set ts. wf_float v" using mapR_mem [OF t] throughput_wf by blast
  have d: "wf_float (f_mul (count_float (length ts)) (py_fsum (map (\<lambda>v. f_mul v v) ts)))"
    using ts by (intro wf_f_mul wf_py_fsum) (auto simp: count_float_def wf_flit intro: wf_f_mul)
  have s: "wf_float sq" if "f_square (py_fsum ts) = Inr sq" for sq
    using that wf_f_mul [OF wf_py_fsum wf_py_fsum] ts by (auto simp: f_square_def split: if_splits)
  let ?d = "f_mul (count_float (length ts)) (py_fsum (map (\<lambda>v. f_mul v v) ts))"
  show ?thesis
  proof (cases "f_le ?d f_zero")
    case True
    then show ?thesis using a t wf_zero by (simp add: fairness_index_def)
  next
    case False
    then obtain sq q where "f_square (py_fsum ts) = Inr sq" "f_div sq ?d = Inr q" "x = clamp q"
      using a t by (auto simp: fairness_index_def bindR_eq_Inr Let_def)
    then show ?thesis using s d wf_f_div wf_clamp by blast
  qed
qed

lemma wf_utilization: "service_utilization rows = Inr x \<Longrightarrow> wf_float x"
proof (cases "rows = []")
  case False
  assume "service_utilization rows = Inr x"
  then obtain bs lo es hi ts r where u: "nums ''begin_req_ns'' rows = Inr bs" "py_min bs = Inr lo"
    "nums ''end_resp_ns'' rows = Inr es" "py_max es = Inr hi" "nums ''observed_service_time_ns'' rows = Inr ts"
    "ratio (py_fsum ts) (f_sub hi lo) = Inr r" "x = clamp r"
    using False by (auto simp: service_utilization_def bindR_eq_Inr)
  have "wf_float lo" "wf_float hi" using wf_nums [OF u(1)] wf_nums [OF u(3)] py_min_mem [OF u(2)] py_max_mem [OF u(4)] by auto
  then show ?thesis using u(7) wf_clamp ratio_wf [OF u(6)] wf_py_fsum [OF wf_nums [OF u(5)]] wf_f_sub by blast
qed (simp add: service_utilization_def wf_zero)

lemma wf_weighted: "wf_float x \<Longrightarrow> wf_float (weighted p x)"
  by (simp add: weighted_def wf_f_mul wf_flit)

lemma wf_collapse:
  assumes "collapse_score rows config = Inr x"
  shows "wf_float x"
proof -
  obtain g v fair qp ss ls r u q av where c: "violation_ratio (group_of g ''cpu_rt'') = Inr v" "fairness_index g = Inr fair"
    "ratio_int (count_cells ''queue_full_event'' ''YES'' rows) (length rows) = Inr qp"
    "nums ''backpressure_stall_ns'' rows = Inr ss" "nums ''total_latency_ns'' rows = Inr ls"
    "ratio (py_fsum ss) (py_fsum ls) = Inr r" "service_utilization rows = Inr u"
    "f_div (f_sub u (flit 72 100)) (flit 28 100) = Inr q"
    "(if case_name config = ''bursty_accel_tail_spike''
            then violation_ratio (group_of g ''accel_burst'') else Inr f_zero) = Inr av"
    "x = clamp (foldl f_add (weighted 34 v) [weighted 22 (clamp q), weighted 18 qp, weighted 14 (f_sub (flit 1 1) fair),
        weighted 8 (clamp r), weighted 4 av])"
    using assms unfolding collapse_score_def Let_def bindR_eq_Inr by blast
  have "wf_float v" "wf_float fair" "wf_float qp" "wf_float u" "wf_float av"
    using wf_violations c(1,9) wf_fairness c(2) wf_ratio_int c(3) wf_utilization c(7) wf_zero
    by (auto split: if_splits)
  moreover have "wf_float r" using ratio_wf [OF c(6)] wf_py_fsum wf_nums c(4,5) by blast
  moreover have "wf_float q" using wf_f_div [OF _ _ c(8)] wf_f_sub \<open>wf_float u\<close> wf_flit by simp
  ultimately show ?thesis
    unfolding c(10) by (simp add: wf_clamp wf_f_add wf_f_sub wf_weighted wf_flit)
qed

section \<open>The choice of the best policy\<close>

definition good_score :: "policy_score \<Rightarrow> bool" where
  "good_score k \<longleftrightarrow> (case k of (a, b, c) \<Rightarrow> not_nan a \<and> not_nan b \<and> not_nan c)"

lemma score_order: "weak_order score_lt good_score"
proof -
  have f: "weak_order f_lt not_nan" by (rule float_order.weak_order_axioms)
  from weak_order_lex [OF f weak_order_lex [OF f f]]
  have "weak_order (lex_lt f_lt (lex_lt f_lt f_lt)) good_score"
    by (rule back_subst [of "weak_order _"]) (auto simp: good_score_def)
  then show ?thesis
  proof (rule weak_order_cong)
    have e: "f_eq x y \<longleftrightarrow> \<not> f_lt x y \<and> \<not> f_lt y x" if "not_nan x" "not_nan y" for x y
      using that by (auto simp: f_cmp not_nan_def)
    show "score_lt x y = lex_lt f_lt (lex_lt f_lt f_lt) x y" if "good_score x" "good_score y" for x y
      using that e by (auto simp: lex_lt_def good_score_def split: prod.splits)
  qed
qed

interpretation score_order: weak_order score_lt good_score
  by (rule score_order)

text \<open>The rows a policy sweep produces.\<close>

definition swept :: "policy_row \<Rightarrow> bool" where
  "swept row \<longleftrightarrow> (\<exists>config policy rows. aggregate_policy_row config policy rows = Inr row \<and> length rows < 2 ^ 53)"

lemma to_float_printed: "wf_float x \<Longrightarrow> not_nan x \<Longrightarrow> \<exists>y. to_float (fmt3 x) = Inr y \<and> not_nan y"
  using to_float_fmt3 not_nan_reparse by blast

lemma swept_cells:
  assumes "swept row"
  shows "\<exists>k. score row = Inr k \<and> good_score k" and "p_recommended_action row \<in> set ALLOWED_ACTIONS"
    and "p_claim_boundary row = ''PASS''" and "p_schema_version row = SCHEMA_VERSION"
proof -
  obtain config policy rows g ls vio m p95 act where r: "length rows < 2 ^ 53"
    "group_by_initiator rows = Inr g" "nums ''total_latency_ns'' (group_of g ''cpu_rt'') = Inr ls"
    "violation_ratio (group_of g ''cpu_rt'') = Inr vio" "system_metrics rows config = Inr m"
    "percentile ls (flit 95 100) = Inr p95" "act \<in> set ALLOWED_ACTIONS"
    "p_collapse_score row = fmt3 (cm_collapse_score m)" "p_cpu_rt_sla_violation_ratio row = fmt3 vio"
    "p_cpu_rt_p95_ns row = fmt3 p95" "p_recommended_action row = act" "p_claim_boundary row = ''PASS''"
    "p_schema_version row = SCHEMA_VERSION"
    using assms unfolding swept_def by (auto simp: aggregate_policy_row_def bindR_eq_Inr raise_if_eq_Inr Let_def)
  have score: "collapse_score rows config = Inr (cm_collapse_score m)"
    using r(5) by (auto simp: system_metrics_def bindR_eq_Inr)
  have c: "wf_float (cm_collapse_score m)" "not_nan (cm_collapse_score m)"
    using wf_collapse [OF score] collapse_unit [OF score] f_le_not_nan unfolding in_unit_def by blast+
  have len: "length ls < 2 ^ 53" using nums_length [OF r(3)] group_length [OF r(2)] r(1) le_less_trans by metis
  obtain a e where pct: "flit 95 100 = Fin False a e" "0 \<le> a" "mag a e \<le> 1" using pct_value [of 95] by auto
  have p: "wf_float p95 \<and> not_nan p95"
    using percentile_range [OF pct len r(6)] nums_finite [OF r(3)] wf_zero unit_ends by auto
  show "\<exists>k. score row = Inr k \<and> good_score k"
    using to_float_printed [OF c] to_float_printed [of vio] to_float_printed [of p95] wf_violations [OF r(4)] p
    by (auto simp: score_def r(8-10) good_score_def)
qed (use assms in \<open>auto simp: swept_def aggregate_policy_row_def bindR_eq_Inr raise_if_eq_Inr Let_def\<close>)

lemma best_policy_row_first:
  assumes "best_policy_row prs = Inr row" and "\<forall>r \<in> set prs. \<exists>k. score r = Inr k \<and> good_score k"
  shows "\<exists>ys zs k. prs = ys @ row # zs \<and> score row = Inr k \<and>
    (\<forall>r \<in> set ys. \<exists>k'. score r = Inr k' \<and> score_lt k k') \<and> (\<forall>r \<in> set zs. \<exists>k'. score r = Inr k' \<and> \<not> score_lt k' k)"
proof -
  let ?lt = "\<lambda>x y. score_lt (fst x) (fst y)"
  obtain ks where ks: "mapR score prs = Inr ks" using assms(1) by (auto simp: best_policy_row_def bindR_eq_Inr)
  then obtain kr krs where k: "mapR score prs = Inr ks" "zip ks prs = kr # krs" "row = snd (min_from ?lt kr krs)"
    using assms(1) by (cases "zip ks prs") (auto simp: best_policy_row_def)
  let ?m = "min_from ?lt kr krs"
  note o = weak_order_key [OF score_order, of fst]
  have len: "length ks = length prs" using mapR_length [OF k(1)] .
  have pairs: "score (snd x) = Inr (fst x) \<and> good_score (fst x)" if x: "x \<in> set (zip ks prs)" for x
  proof -
    obtain i where i: "i < length prs" "fst x = ks ! i" "snd x = prs ! i"
      using x unfolding in_set_zip by metis
    then have "score (prs ! i) = Inr (ks ! i)" using k(1) by (auto simp: mapR_eq_Inr list_all2_conv_all_nth)
    moreover obtain k where "score (prs ! i) = Inr k" "good_score k" using assms(2) nth_mem [OF i(1)] by blast
    ultimately show ?thesis using i by simp
  qed
  then have oks: "\<forall>x \<in> insert kr (set krs). good_score (fst x)" using k(2) by auto
  obtain ys zs where d: "kr # krs = ys @ ?m # zs" "\<forall>y \<in> set ys. ?lt ?m y" using weak_order.min_from_first [OF o oks] by blast
  obtain best where best: "best = ?m" by blast
  have z: "zip ks prs = ys @ best # zs" using k(2) d(1) best by simp
  have "map snd (zip ks prs) = prs" using len by simp
  then have "prs = map snd ys @ row # map snd zs" unfolding z using k(3) best by simp
  moreover have "score row = Inr (fst best)" using pairs [of best] k(3) best z by simp
  moreover have "\<exists>k'. score (snd y) = Inr k' \<and> score_lt (fst best) k'" if "y \<in> set ys" for y
    using pairs [of y] z d(2) that best by auto
  moreover have "\<exists>k'. score (snd y) = Inr k' \<and> \<not> score_lt k' (fst best)" if "y \<in> set zs" for y
  proof -
    have "y \<in> set (kr # krs)" using that z k(2) by simp
    then have "\<not> ?lt y ?m" by (intro weak_order.min_by_least [OF o oks]) simp
    then show ?thesis using pairs [of y] z that best by simp
  qed
  ultimately show ?thesis
    by (intro exI [of _ "map snd ys"] exI [of _ "map snd zs"] exI [of _ "fst best"] conjI) (simp_all add: ball_simps)
qed

text \<open>C23. The policy the tool reports as best is the first of the swept rows with the least key (collapse
  score, CPU violation ratio, CPU p95 latency), compared as Python compares tuples of floats: every
  earlier row is strictly worse and no later row is better.\<close>

theorem best_policy_first_least:
  assumes "\<forall>row \<in> set prs. swept row" and "best_policy prs = Inr p"
  shows "\<exists>ys row zs k. prs = ys @ row # zs \<and> p_policy row = p \<and> score row = Inr k \<and>
    (\<forall>r \<in> set ys. \<exists>k'. score r = Inr k' \<and> score_lt k k') \<and>
    (\<forall>r \<in> set zs. \<exists>k'. score r = Inr k' \<and> \<not> score_lt k' k)"
proof -
  obtain row where "best_policy_row prs = Inr row" "p_policy row = p"
    using assms(2) by (auto simp: best_policy_def bindR_eq_Inr)
  then show ?thesis using best_policy_row_first [of prs row] swept_cells(1) assms(1) by blast
qed

section \<open>The recommendation\<close>

lemma by_policy_mem: "by_policy prs k = Inr row \<Longrightarrow> row \<in> set prs \<and> p_policy row = k"
  by (auto simp: by_policy_def opt_or_raise_eq_Inr dest!: map_of_SomeD)

lemma allowed_members: "list_all (\<lambda>a. a \<in> set ALLOWED_ACTIONS)
    [''use_strict_priority'', ''use_weighted_priority'', ''reduce_memory_service_latency'',
     ''use_backpressure_aware_scheduling'', ''increase_downstream_queue_capacity'', ''throttle_dma_bulk'',
     ''shape_accel_bursts'', ''no_single_dominant_action'']"
  by code_simp

lemma choose_case_action:
  assumes "choose_case config g l v q rr th aw best row = Inr ch" and "p_recommended_action row \<in> set ALLOWED_ACTIONS"
  shows "ch_action ch \<in> set ALLOWED_ACTIONS"
proof -
  note m = allowed_members [unfolded list.pred_inject]
  show ?thesis
    using assms(1) unfolding choose_case_def Let_def
    by (elim if_resE bindRE) (auto simp: m assms(2))
qed

text \<open>The exceptions \<open>main\<close> catches are the \<open>DemoError\<close>s.\<close>

definition demo_free :: "'a result \<Rightarrow> bool" where
  "demo_free r \<longleftrightarrow> (case r of Inl (DemoError m) \<Rightarrow> False | _ \<Rightarrow> True)"

lemma demo_free_simps [simp]: "demo_free (Inr x)" "\<not> demo_free (Inl (DemoError m))" "demo_free (Inl (ValueError v))"
    "demo_free (Inl (KeyError k))" "demo_free (Inl OverflowError)" "demo_free (Inl ZeroDivisionError)"
  by (simp_all add: demo_free_def)

lemma demo_free_bind: "demo_free r \<Longrightarrow> (\<And>x. r = Inr x \<Longrightarrow> demo_free (f x)) \<Longrightarrow> demo_free (bindR r f)"
  by (cases r) (auto simp: demo_free_def split: exn.splits)

lemma demo_free_mapR: "(\<And>x. demo_free (f x)) \<Longrightarrow> demo_free (mapR f xs)"
  by (induction xs) (auto intro!: demo_free_bind)

lemma demo_free_basic:
  "demo_free (to_float s)" "demo_free (to_int s)" "demo_free (py_max xs)" "demo_free (py_min xs)"
  "demo_free (by_policy prs k)" "demo_free (f_div x y)" "demo_free (float_of_int n)"
  "demo_free (raise_if c (ValueError v))"
proof -
  show "demo_free (to_float s)" by (cases "parse_float s") (auto simp: to_float_def opt_or_raise_def)
  show "demo_free (to_int s)" by (cases "py_int10 s") (auto simp: to_int_def opt_or_raise_def)
  show "demo_free (py_max xs)" "demo_free (py_min xs)" by (cases xs; simp add: py_max_def py_min_def)+
  show "demo_free (by_policy prs k)" by (auto simp: by_policy_def opt_or_raise_def split: option.split)
  show "demo_free (f_div x y)" by (cases y) auto
  show "demo_free (float_of_int n)" by (auto simp: float_of_int_def split: pyfloat.split)
  show "demo_free (raise_if c (ValueError v))" by (simp add: raise_if_def)
qed

lemma demo_free_choose: "demo_free (choose_case config g l v q rr th aw best row)"
  by (auto simp: choose_case_def Let_def intro!: demo_free_bind demo_free_basic)

lemma demo_free_extremes: "demo_free (policy_extremes prs)"
  unfolding policy_extremes_def by (intro demo_free_bind demo_free_mapR demo_free_basic demo_free_simps(1))

lemma demo_free_best: "demo_free (best_policy prs)"
proof -
  have "demo_free (score r)" for r unfolding score_def by (intro demo_free_bind demo_free_basic demo_free_simps(1))
  then show ?thesis unfolding best_policy_def best_policy_row_def
    by (intro demo_free_bind demo_free_mapR) (auto split: list.splits)
qed

lemma recommendation_demo_free:
  assumes "\<forall>row \<in> set prs. p_recommended_action row \<in> set ALLOWED_ACTIONS"
  shows "demo_free (make_recommendation config prs)"
proof -
  have g: "demo_free (text_gain a b)" for a b
    unfolding text_gain_def by (intro demo_free_bind demo_free_basic demo_free_simps(1))
  have c: "demo_free (raise_if (ch_action ch \<notin> set ALLOWED_ACTIONS) e)"
    if "by_policy prs best = Inr row" "choose_case config a l v q rr th aw best row = Inr ch"
    for a l v q rr th aw best row ch e
    using that choose_case_action by_policy_mem assms by (simp add: raise_if_def)
  show ?thesis
    unfolding make_recommendation_def split_def
    by (intro demo_free_bind g demo_free_best demo_free_extremes demo_free_choose demo_free_mapR demo_free_basic demo_free_simps(1))
      (rule c; assumption)
qed

lemma make_recommendation_fields:
  assumes "make_recommendation config prs = Inr rec"
  shows "r_case_name rec = case_name config \<and> r_recommended_action rec \<in> set ALLOWED_ACTIONS \<and>
    r_claim_boundary rec = ''PASS'' \<and> r_schema_version rec = SCHEMA_VERSION"
  using assms unfolding make_recommendation_def split_def
  by (elim bindRE) (auto simp: raise_if_eq_Inr)

text \<open>C24. The recommendation of a case built from swept rows always carries one of the nine allowed actions, and
  building it never raises a \<open>DemoError\<close>: the check for an unsupported action cannot fire, and the
  failures \<open>main\<close> records come from the model runs and their traces alone.\<close>

theorem recommendation_actions_allowed:
  assumes "\<forall>row \<in> set prs. swept row"
  shows "demo_free (make_recommendation config prs) \<and>
    (\<forall>rec. make_recommendation config prs = Inr rec \<longrightarrow>
       r_case_name rec = case_name config \<and> r_recommended_action rec \<in> set ALLOWED_ACTIONS)"
  using recommendation_demo_free swept_cells(2) make_recommendation_fields assms by blast

lemma aggregate_fields:
  assumes "aggregate_policy_row config policy rows = Inr row"
  shows "p_case_name row = case_name config \<and> p_policy row = policy \<and> p_recommended_action row \<in> set ALLOWED_ACTIONS \<and>
    p_claim_boundary row = ''PASS'' \<and> p_schema_version row = SCHEMA_VERSION"
  using assms unfolding aggregate_policy_row_def Let_def
  by (elim bindRE) (auto simp: raise_if_eq_Inr)

lemma summarize_fields:
  assumes "summarize_case config rows = Inr ss"
  shows "length ss = length INITIATORS \<and> (\<forall>s \<in> set ss. s_claim_boundary s = ''PASS'' \<and> s_schema_version s = SCHEMA_VERSION)"
proof -
  obtain g m b ts best where g: "mapR (\<lambda>k. throughput (group_of g k)) INITIATORS = Inr ts"
    "mapR (\<lambda>(k, mine). summary_of_initiator config m b best k (group_of g k) mine) (zip INITIATORS ts) = Inr ss"
    using assms by (auto simp: summarize_case_def bindR_eq_Inr)
  have "s_claim_boundary s = ''PASS'' \<and> s_schema_version s = SCHEMA_VERSION"
    if "summary_of_initiator config m b best k rs mine = Inr s" for k rs mine s
    using that unfolding summary_of_initiator_def by (elim bindRE) auto
  then have "\<forall>s \<in> set ss. s_claim_boundary s = ''PASS'' \<and> s_schema_version s = SCHEMA_VERSION"
    using mapR_mem [OF g(2)] by fastforce
  moreover have "length ss = length INITIATORS" using mapR_length [OF g(2)] mapR_length [OF g(1)] by simp
  ultimately show ?thesis by blast
qed

end
