(* ===== verification/At5_Report.thy ===== *)
theory At5_Report
  imports At5_Policy
begin

text \<open>
  \<open>examples/at/tools/demo_at5_backpressure_qos_collapse.py\<close>, third part: the CSV files, the
  report (\<open>write_report\<close>), the scan for claims it must not make and the acceptance checks.
  Text outside ASCII is held as its UTF-8 bytes; lower-casing, searching and splitting into
  lines treat them as Python treats the characters, none of which has a case or ends a line.
\<close>

section \<open>CSV files\<close>

text \<open>\<open>csv.DictWriter\<close>: a field the dictionary lacks, and \<open>None\<close>, print as an empty cell.\<close>

definition opt_text :: "string option \<Rightarrow> string" where
  "opt_text v = (case v of None \<Rightarrow> [] | Some s \<Rightarrow> s)"

definition write_csv :: "string list \<Rightarrow> (string \<times> string) list list \<Rightarrow> string list list" where
  "write_csv fieldnames rows = fieldnames # map (\<lambda>row. map (\<lambda>k. opt_text (map_of row k)) fieldnames) rows"

definition summary_cells :: "summary_row \<Rightarrow> (string \<times> string) list" where
  "summary_cells row =
    [(''case_name'', s_case_name row), (''initiator'', s_initiator row),
     (''policy'', opt_text (s_policy row)), (''transactions'', s_transactions row),
     (''sla_target_ns'', s_sla_target_ns row), (''sla_violation_ratio'', s_sla_violation_ratio row),
     (''avg_total_latency_ns'', s_avg_total_latency_ns row),
     (''p50_total_latency_ns'', s_p50_total_latency_ns row),
     (''p95_total_latency_ns'', s_p95_total_latency_ns row),
     (''p99_total_latency_ns'', s_p99_total_latency_ns row),
     (''throughput_txn_per_us'', s_throughput_txn_per_us row),
     (''ingress_queue_capacity'', opt_text (s_ingress_queue_capacity row)),
     (''downstream_queue_capacity'', opt_text (s_downstream_queue_capacity row)),
     (''queue_full_events'', s_queue_full_events row),
     (''backpressure_stall_ns'', s_backpressure_stall_ns row),
     (''initiator_blocked_ns'', s_initiator_blocked_ns row),
     (''memory_service_latency_ns'', s_memory_service_latency_ns row),
     (''service_utilization'', s_service_utilization row),
     (''saturation_ratio'', s_saturation_ratio row), (''fairness_index'', s_fairness_index row),
     (''starvation_proxy'', s_starvation_proxy row), (''collapse_score'', s_collapse_score row),
     (''dominant_bottleneck'', s_dominant_bottleneck row),
     (''claim_boundary'', s_claim_boundary row), (''schema_version'', s_schema_version row)]"

definition policy_cells :: "policy_row \<Rightarrow> (string \<times> string) list" where
  "policy_cells row =
    [(''case_name'', p_case_name row), (''policy'', p_policy row),
     (''cpu_rt_p95_ns'', p_cpu_rt_p95_ns row),
     (''cpu_rt_sla_violation_ratio'', p_cpu_rt_sla_violation_ratio row),
     (''dma_bulk_throughput_txn_per_us'', p_dma_bulk_throughput_txn_per_us row),
     (''accel_burst_p99_ns'', p_accel_burst_p99_ns row),
     (''system_throughput_txn_per_us'', p_system_throughput_txn_per_us row),
     (''service_utilization'', p_service_utilization row),
     (''queue_full_events'', p_queue_full_events row),
     (''backpressure_stall_ns'', p_backpressure_stall_ns row),
     (''fairness_index'', p_fairness_index row), (''collapse_score'', p_collapse_score row),
     (''dominant_bottleneck'', p_dominant_bottleneck row),
     (''recommended_action'', p_recommended_action row), (''claim_boundary'', p_claim_boundary row),
     (''schema_version'', p_schema_version row)]"

definition recommendation_cells :: "recommendation_row \<Rightarrow> (string \<times> string) list" where
  "recommendation_cells row =
    [(''case_name'', r_case_name row), (''primary_bottleneck'', r_primary_bottleneck row),
     (''confidence'', r_confidence row), (''recommended_action'', r_recommended_action row),
     (''recommendation_priority'', r_recommendation_priority row),
     (''evidence_summary'', r_evidence_summary row), (''qos_policy_best'', r_qos_policy_best row),
     (''queue_capacity_signal'', r_queue_capacity_signal row),
     (''service_saturation_signal'', r_service_saturation_signal row),
     (''backpressure_signal'', r_backpressure_signal row),
     (''fairness_signal'', r_fairness_signal row), (''sla_signal'', r_sla_signal row),
     (''claim_boundary'', r_claim_boundary row), (''schema_version'', r_schema_version row)]"

section \<open>The report\<close>

definition table_line :: "string list \<Rightarrow> string" where
  "table_line vs = ''| '' @ py_join '' | '' vs @ '' |''"

definition case_table_row :: "policy_row \<Rightarrow> recommendation_row \<Rightarrow> string" where
  "case_table_row policy_row recommendation_row = table_line
     [p_case_name policy_row, p_policy policy_row, p_cpu_rt_p95_ns policy_row,
      p_cpu_rt_sla_violation_ratio policy_row, p_dma_bulk_throughput_txn_per_us policy_row,
      p_service_utilization policy_row, p_queue_full_events policy_row, p_fairness_index policy_row,
      p_dominant_bottleneck policy_row, r_recommended_action recommendation_row]"

definition recommendation_line :: "recommendation_row \<Rightarrow> string" where
  "recommendation_line row = table_line
     [r_case_name row, r_primary_bottleneck row, r_confidence row, r_recommended_action row,
      r_recommendation_priority row, r_qos_policy_best row, r_evidence_summary row]"

definition report_intro :: "string list" where
  "report_intro =
    [''# Project AT-5: Memory System Backpressure and QoS Collapse Lab'',
      [],
      ''schema_version: `'' @ SCHEMA_VERSION @ ''`'',
      [],
      ''## What This Model Demonstrates'',
      [],
      ''Project AT-5 '' @ [CHR 0xE6, CHR 0x98, CHR 0xAF, CHR 0xE4, CHR 0xB8, CHR 0x80, CHR 0xE4, CHR 0xB8, CHR 0xAA] @ '' AT-level synthetic architecture lab'' @ [CHR 0xEF, CHR 0xBC, CHR 0x8C, CHR 0xE7, CHR 0x94, CHR 0xA8, CHR 0xE6, CHR 0x9D, CHR 0xA5, CHR 0xE5, CHR 0xB1, CHR 0x95, CHR 0xE7, CHR 0xA4, CHR 0xBA] @ '' downstream memory service / shared resource '' @ [CHR 0xE8, CHR 0xA2, CHR 0xAB, CHR 0xE6, CHR 0x89, CHR 0x93, CHR 0xE6, CHR 0xBB, CHR 0xA1, CHR 0xE6, CHR 0x97, CHR 0xB6, CHR 0xEF, CHR 0xBC, CHR 0x8C] @ ''backpressure '' @ [CHR 0xE5, CHR 0xA6, CHR 0x82, CHR 0xE4, CHR 0xBD, CHR 0x95, CHR 0xE6, CHR 0xB2, CHR 0xBF] @ '' transaction path '' @ [CHR 0xE5, CHR 0x8F, CHR 0x8D, CHR 0xE5, CHR 0x90, CHR 0x91, CHR 0xE4, CHR 0xBC, CHR 0xA0, CHR 0xE6, CHR 0x92, CHR 0xAD, CHR 0xEF, CHR 0xBC, CHR 0x8C, CHR 0xE5, CHR 0xB9, CHR 0xB6, CHR 0xE8, CHR 0xAE, CHR 0xA9, CHR 0xE5, CHR 0x8D, CHR 0x95, CHR 0xE7, CHR 0x82, CHR 0xB9] @ '' QoS priority '' @ [CHR 0xE4, CHR 0xBB, CHR 0x8E, CHR 0xE5, CHR 0xB1, CHR 0x80, CHR 0xE9, CHR 0x83, CHR 0xA8, CHR 0xE6, CHR 0x9C, CHR 0x89, CHR 0xE6, CHR 0x95, CHR 0x88, CHR 0xE5, CHR 0x8F, CHR 0x98, CHR 0xE6, CHR 0x88, CHR 0x90, CHR 0xE7, CHR 0xB3, CHR 0xBB, CHR 0xE7, CHR 0xBB, CHR 0x9F, CHR 0xE7, CHR 0xBA, CHR 0xA7, CHR 0xE5, CHR 0xA4, CHR 0xB1, CHR 0xE6, CHR 0x95, CHR 0x88, CHR 0xE3, CHR 0x80, CHR 0x82],
      [],
      [CHR 0xE5, CHR 0xAE, CHR 0x83, CHR 0xE6, CHR 0x89, CHR 0xBF, CHR 0xE6, CHR 0x8E, CHR 0xA5] @ '' AT-3 '' @ [CHR 0xE7, CHR 0x9A, CHR 0x84] @ '' QoS/SLA '' @ [CHR 0xE8, CHR 0xA7, CHR 0x86, CHR 0xE8, CHR 0xA7, CHR 0x92, CHR 0xE5, CHR 0x92, CHR 0x8C] @ '' AT-4 '' @ [CHR 0xE7, CHR 0x9A, CHR 0x84] @ '' shared-resource pressure '' @ [CHR 0xE8, CHR 0xA7, CHR 0x86, CHR 0xE8, CHR 0xA7, CHR 0x92, CHR 0xEF, CHR 0xBC, CHR 0x8C, CHR 0xE4, CHR 0xBD, CHR 0x86, CHR 0xE6, CHR 0x9C, CHR 0xAC, CHR 0xE9, CHR 0x98, CHR 0xB6, CHR 0xE6, CHR 0xAE, CHR 0xB5, CHR 0xE5, CHR 0x85, CHR 0xB3, CHR 0xE6, CHR 0xB3, CHR 0xA8, CHR 0xE7, CHR 0x9A, CHR 0x84, CHR 0xE6, CHR 0x98, CHR 0xAF] @ '' `initiators -> QoS arbiter -> ingress queue -> shared downstream service -> memory target` '' @ [CHR 0xE8, CHR 0xBF, CHR 0x99, CHR 0xE6, CHR 0x9D, CHR 0xA1] @ '' bounded path '' @ [CHR 0xE4, CHR 0xB8, CHR 0x8A, CHR 0xE7, CHR 0x9A, CHR 0x84] @ '' queue-full'' @ [CHR 0xE3, CHR 0x80, CHR 0x81] @ ''stall'' @ [CHR 0xE3, CHR 0x80, CHR 0x81] @ ''utilization'' @ [CHR 0xE3, CHR 0x80, CHR 0x81] @ ''fairness '' @ [CHR 0xE5, CHR 0x92, CHR 0x8C] @ '' SLA collapse signal'' @ [CHR 0xE3, CHR 0x80, CHR 0x82],
      [],
      ''## Modeled Mechanism'',
      [],
      ''- `cpu_rt` '' @ [CHR 0xE8, CHR 0xA1, CHR 0xA8, CHR 0xE7, CHR 0xA4, CHR 0xBA] @ '' latency-sensitive request stream'' @ [CHR 0xE3, CHR 0x80, CHR 0x82],
      ''- `dma_bulk` '' @ [CHR 0xE8, CHR 0xA1, CHR 0xA8, CHR 0xE7, CHR 0xA4, CHR 0xBA] @ '' bandwidth-heavy streaming source'' @ [CHR 0xE3, CHR 0x80, CHR 0x82],
      ''- `accel_burst` '' @ [CHR 0xE8, CHR 0xA1, CHR 0xA8, CHR 0xE7, CHR 0xA4, CHR 0xBA] @ '' bursty accelerator source'' @ [CHR 0xE3, CHR 0x80, CHR 0x82],
      ''- `ingress_queue_capacity` '' @ [CHR 0xE5, CHR 0x92, CHR 0x8C] @ '' `downstream_queue_capacity` '' @ [CHR 0xE6, CHR 0x98, CHR 0xAF] @ '' bounded queue '' @ [CHR 0xE6, CHR 0x8A, CHR 0xBD, CHR 0xE8, CHR 0xB1, CHR 0xA1, CHR 0xE3, CHR 0x80, CHR 0x82],
      ''- `memory_service_latency_ns` '' @ [CHR 0xE4, CHR 0xB8, CHR 0x8E] @ '' `service_rate_txn_per_us` '' @ [CHR 0xE6, CHR 0x8E, CHR 0xA7, CHR 0xE5, CHR 0x88, CHR 0xB6] @ '' downstream service saturation'' @ [CHR 0xE3, CHR 0x80, CHR 0x82],
      ''- `round_robin`'' @ [CHR 0xE3, CHR 0x80, CHR 0x81] @ ''`strict_priority`'' @ [CHR 0xE3, CHR 0x80, CHR 0x81] @ ''`weighted_priority`'' @ [CHR 0xE3, CHR 0x80, CHR 0x81] @ ''`throttled_dma`'' @ [CHR 0xE3, CHR 0x80, CHR 0x81] @ ''`backpressure_aware` '' @ [CHR 0xE6, CHR 0x98, CHR 0xAF] @ '' synthetic QoS policy modes'' @ [CHR 0xEF, CHR 0xBC, CHR 0x8C, CHR 0xE4, CHR 0xB8, CHR 0x8D, CHR 0xE4, CHR 0xBB, CHR 0xA3, CHR 0xE8, CHR 0xA1, CHR 0xA8, CHR 0xE7, CHR 0x9C, CHR 0x9F, CHR 0xE5, CHR 0xAE, CHR 0x9E, CHR 0xE4, CHR 0xBA, CHR 0x92, CHR 0xE8, CHR 0xBF, CHR 0x9E, CHR 0xE5, CHR 0x8D, CHR 0x8F, CHR 0xE8, CHR 0xAE, CHR 0xAE, CHR 0xE3, CHR 0x80, CHR 0x82],
      [],
      ''## Case Table'',
      [],
      ''| case_name | primary_policy | cpu_rt_p95_ns | cpu_rt_sla_violation_ratio | dma_bulk_throughput_txn_per_us | service_utilization | queue_full_events | fairness_index | dominant_bottleneck | recommended_action |'',
      ''| --- | --- | ---: | ---: | ---: | ---: | ---: | ---: | --- | --- |'']"

definition report_observations :: "string list" where
  "report_observations =
    [[],
      ''## Key Observations'',
      [],
      ''- `strict_priority_helps_cpu` '' @ [CHR 0xE5, CHR 0xB1, CHR 0x95, CHR 0xE7, CHR 0xA4, CHR 0xBA] @ '' priority '' @ [CHR 0xE5, CHR 0x8F, CHR 0xAF, CHR 0xE4, CHR 0xBB, CHR 0xA5, CHR 0xE9, CHR 0x99, CHR 0x8D, CHR 0xE4, CHR 0xBD, CHR 0x8E] @ '' `cpu_rt` tail latency'' @ [CHR 0xEF, CHR 0xBC, CHR 0x8C, CHR 0xE4, CHR 0xBD, CHR 0x86, CHR 0xE8, CHR 0xBF, CHR 0x99, CHR 0xE6, CHR 0x98, CHR 0xAF, CHR 0xE5, CHR 0xB1, CHR 0x80, CHR 0xE9, CHR 0x83, CHR 0xA8, CHR 0xE6, CHR 0x9C, CHR 0x89, CHR 0xE6, CHR 0x95, CHR 0x88, CHR 0xEF, CHR 0xBC, CHR 0x8C, CHR 0xE4, CHR 0xB8, CHR 0x8D, CHR 0xE7, CHR 0xAD, CHR 0x89, CHR 0xE5, CHR 0x90, CHR 0x8C, CHR 0xE4, CHR 0xBA, CHR 0x8E, CHR 0xE7, CHR 0xB3, CHR 0xBB, CHR 0xE7, CHR 0xBB, CHR 0x9F, CHR 0xE5, CHR 0xAE, CHR 0xB9, CHR 0xE9, CHR 0x87, CHR 0x8F, CHR 0xE8, CHR 0xA2, CHR 0xAB, CHR 0xE4, CHR 0xBF, CHR 0xAE, CHR 0xE5, CHR 0xA4, CHR 0x8D, CHR 0xE3, CHR 0x80, CHR 0x82],
      ''- `strict_priority_starves_dma` '' @ [CHR 0xE5, CHR 0xB1, CHR 0x95, CHR 0xE7, CHR 0xA4, CHR 0xBA] @ '' strict priority '' @ [CHR 0xE5, CHR 0x8F, CHR 0xAF, CHR 0xE8, CHR 0x83, CHR 0xBD, CHR 0xE7, CHR 0x89, CHR 0xBA, CHR 0xE7, CHR 0x89, CHR 0xB2] @ '' `dma_bulk` throughput / fairness'' @ [CHR 0xEF, CHR 0xBC, CHR 0x8C, CHR 0xE5, CHR 0x9B, CHR 0xA0, CHR 0xE6, CHR 0xAD, CHR 0xA4, CHR 0xE9, CHR 0x9C, CHR 0x80, CHR 0xE8, CHR 0xA6, CHR 0x81] @ '' weighted '' @ [CHR 0xE6, CHR 0x88, CHR 0x96] @ '' throttled policy '' @ [CHR 0xE4, CHR 0xBD, CHR 0x9C, CHR 0xE4, CHR 0xB8, CHR 0xBA, CHR 0xE6, CHR 0x8A, CHR 0x98, CHR 0xE4, CHR 0xB8, CHR 0xAD, CHR 0xE3, CHR 0x80, CHR 0x82],
      ''- `downstream_saturation_qos_collapse` '' @ [CHR 0xE5, CHR 0xB1, CHR 0x95, CHR 0xE7, CHR 0xA4, CHR 0xBA, CHR 0xE5, CHR 0xBD, CHR 0x93] @ '' downstream service utilization '' @ [CHR 0xE6, CHR 0x8E, CHR 0xA5, CHR 0xE8, CHR 0xBF, CHR 0x91, CHR 0xE6, CHR 0xBB, CHR 0xA1, CHR 0xE8, CHR 0xBD, CHR 0xBD, CHR 0xE6, CHR 0x97, CHR 0xB6, CHR 0xEF, CHR 0xBC, CHR 0x8C] @ ''QoS policy '' @ [CHR 0xE5, CHR 0x8F, CHR 0xAA, CHR 0xE8, CHR 0x83, CHR 0xBD, CHR 0xE6, CHR 0x94, CHR 0xB9, CHR 0xE5, CHR 0x8F, CHR 0x98, CHR 0xE6, CHR 0x8E, CHR 0x92, CHR 0xE9, CHR 0x98, CHR 0x9F, CHR 0xE9, CHR 0xA1, CHR 0xBA, CHR 0xE5, CHR 0xBA, CHR 0x8F, CHR 0xEF, CHR 0xBC, CHR 0x8C, CHR 0xE6, CHR 0x97, CHR 0xA0, CHR 0xE6, CHR 0xB3, CHR 0x95, CHR 0xE6, CHR 0xB6, CHR 0x88, CHR 0xE9, CHR 0x99, CHR 0xA4, CHR 0xE6, CHR 0x80, CHR 0xBB, CHR 0xE6, CHR 0x9C, CHR 0x8D, CHR 0xE5, CHR 0x8A, CHR 0xA1, CHR 0xE6, CHR 0x97, CHR 0xB6, CHR 0xE9, CHR 0x97, CHR 0xB4, CHR 0xE7, CHR 0x93, CHR 0xB6, CHR 0xE9, CHR 0xA2, CHR 0x88, CHR 0xE3, CHR 0x80, CHR 0x82],
      ''- `small_queue_backpressure` '' @ [CHR 0xE5, CHR 0xB1, CHR 0x95, CHR 0xE7, CHR 0xA4, CHR 0xBA] @ '' queue capacity '' @ [CHR 0xE5, CHR 0xA4, CHR 0xAA, CHR 0xE5, CHR 0xB0, CHR 0x8F, CHR 0xE4, CHR 0xBC, CHR 0x9A, CHR 0xE4, CHR 0xBA, CHR 0xA7, CHR 0xE7, CHR 0x94, CHR 0x9F, CHR 0xE5, CHR 0x8F, CHR 0x8D, CHR 0xE5, CHR 0x8E, CHR 0x8B] @ '' stall'' @ [CHR 0xEF, CHR 0xBC, CHR 0x9B, CHR 0xE8, CHR 0xBF, CHR 0x99, CHR 0xE7, CHR 0xB1, CHR 0xBB, CHR 0xE9, CHR 0x97, CHR 0xAE, CHR 0xE9, CHR 0xA2, CHR 0x98, CHR 0xE5, CHR 0xBA, CHR 0x94, CHR 0xE4, CHR 0xBC, CHR 0x98, CHR 0xE5, CHR 0x85, CHR 0x88, CHR 0xE7, CHR 0x9C, CHR 0x8B] @ '' queue sizing '' @ [CHR 0xE5, CHR 0x92, CHR 0x8C] @ '' backpressure-aware scheduling'' @ [CHR 0xE3, CHR 0x80, CHR 0x82],
      ''- `bursty_accel_tail_spike` '' @ [CHR 0xE5, CHR 0xB1, CHR 0x95, CHR 0xE7, CHR 0xA4, CHR 0xBA] @ '' burst source '' @ [CHR 0xE5, CHR 0x8F, CHR 0xAF, CHR 0xE4, CHR 0xBB, CHR 0xA5, CHR 0xE5, CHR 0x88, CHR 0xB6, CHR 0xE9, CHR 0x80, CHR 0xA0, CHR 0xE5, CHR 0xB1, CHR 0x80, CHR 0xE9, CHR 0x83, CHR 0xA8] @ '' tail spike'' @ [CHR 0xEF, CHR 0xBC, CHR 0x8C, CHR 0xE5, CHR 0x8D, CHR 0xB3, CHR 0xE4, CHR 0xBD, CHR 0xBF, CHR 0xE5, CHR 0xB9, CHR 0xB3, CHR 0xE5, CHR 0x9D, CHR 0x87, CHR 0xE5, CHR 0x90, CHR 0x9E, CHR 0xE5, CHR 0x90, CHR 0x90, CHR 0xE7, CHR 0x9C, CHR 0x8B, CHR 0xE8, CHR 0xB5, CHR 0xB7, CHR 0xE6, CHR 0x9D, CHR 0xA5, CHR 0xE4, CHR 0xBB, CHR 0x8D, CHR 0xE7, CHR 0x84, CHR 0xB6, CHR 0xE5, CHR 0x8F, CHR 0xAF, CHR 0xE6, CHR 0x8E, CHR 0xA5, CHR 0xE5, CHR 0x8F, CHR 0x97, CHR 0xE3, CHR 0x80, CHR 0x82],
      [],
      ''## Architecture Recommendations'',
      [],
      ''| case_name | primary_bottleneck | confidence | recommended_action | priority | qos_policy_best | evidence |'',
      ''| --- | --- | --- | --- | --- | --- | --- |'']"

definition report_closing :: "string list" where
  "report_closing =
    [[],
      ''## Claim Boundary'',
      [],
      ''- Current: '' @ [CHR 0xE4, CHR 0xB8, CHR 0x80, CHR 0xE4, CHR 0xB8, CHR 0xAA, CHR 0xE5, CHR 0xB0, CHR 0x8F, CHR 0xE5, CHR 0x9E, CHR 0x8B] @ '' SystemC/TLM AT-level synthetic architecture model'' @ [CHR 0xEF, CHR 0xBC, CHR 0x8C, CHR 0xE7, CHR 0x94, CHR 0xA8, CHR 0xE4, CHR 0xBA, CHR 0x8E, CHR 0xE8, CHR 0xA7, CHR 0x82, CHR 0xE5, CHR 0xAF, CHR 0x9F] @ '' bounded queues'' @ [CHR 0xE3, CHR 0x80, CHR 0x81] @ ''downstream service saturation'' @ [CHR 0xE3, CHR 0x80, CHR 0x81] @ ''QoS policy '' @ [CHR 0xE5, CHR 0x92, CHR 0x8C] @ '' backpressure stall '' @ [CHR 0xE7, CHR 0x9A, CHR 0x84, CHR 0xE7, CHR 0x9B, CHR 0xB8, CHR 0xE5, CHR 0xAF, CHR 0xB9, CHR 0xE8, CHR 0xB6, CHR 0x8B, CHR 0xE5, CHR 0x8A, CHR 0xBF, CHR 0xE3, CHR 0x80, CHR 0x82],
      ''- Supported: '' @ [CHR 0xE5, CHR 0x9C, CHR 0xA8, CHR 0xE5, CHR 0x9B, CHR 0xBA, CHR 0xE5, CHR 0xAE, CHR 0x9A] @ '' synthetic workload '' @ [CHR 0xE4, CHR 0xB8, CHR 0x8B, CHR 0xE6, CHR 0xAF, CHR 0x94, CHR 0xE8, CHR 0xBE, CHR 0x83] @ '' p95/p99 latency'' @ [CHR 0xE3, CHR 0x80, CHR 0x81] @ ''SLA violation ratio'' @ [CHR 0xE3, CHR 0x80, CHR 0x81] @ ''throughput'' @ [CHR 0xE3, CHR 0x80, CHR 0x81] @ ''fairness'' @ [CHR 0xE3, CHR 0x80, CHR 0x81] @ ''queue-full events'' @ [CHR 0xE3, CHR 0x80, CHR 0x81] @ ''backpressure stall '' @ [CHR 0xE5, CHR 0x92, CHR 0x8C] @ '' recommendation signal'' @ [CHR 0xE3, CHR 0x80, CHR 0x82],
      ''- Not Supported: real NoC modeling'' @ [CHR 0xE3, CHR 0x80, CHR 0x82],
      ''- Not Supported: real AXI / CHI protocol compliance'' @ [CHR 0xE3, CHR 0x80, CHR 0x82],
      ''- Not Supported: real DRAM controller timing'' @ [CHR 0xE3, CHR 0x80, CHR 0x82],
      ''- Not Supported: real cache coherence'' @ [CHR 0xE3, CHR 0x80, CHR 0x82],
      ''- Not Supported: cycle-accurate timing'' @ [CHR 0xE3, CHR 0x80, CHR 0x82],
      ''- Not Supported: silicon validation'' @ [CHR 0xE3, CHR 0x80, CHR 0x81] @ ''production signoff'' @ [CHR 0xE3, CHR 0x80, CHR 0x81, CHR 0xE6, CHR 0x88, CHR 0x96, CHR 0xE4, CHR 0xBB, CHR 0xBB, CHR 0xE4, CHR 0xBD, CHR 0x95] @ '' Apple / NVIDIA / Arm internal '' @ [CHR 0xE7, CHR 0xBB, CHR 0x93, CHR 0xE8, CHR 0xAE, CHR 0xBA, CHR 0xE3, CHR 0x80, CHR 0x82],
      ''- Future Work: '' @ [CHR 0xE5, CHR 0xA6, CHR 0x82, CHR 0xE6, CHR 0x9E, CHR 0x9C, CHR 0xE8, CHR 0xA6, CHR 0x81, CHR 0xE6, CHR 0x8F, CHR 0x90, CHR 0xE5, CHR 0x8D, CHR 0x87] @ '' claim strength'' @ [CHR 0xEF, CHR 0xBC, CHR 0x8C, CHR 0xE9, CHR 0x9C, CHR 0x80, CHR 0xE8, CHR 0xA6, CHR 0x81, CHR 0xE5, CHR 0xBC, CHR 0x95, CHR 0xE5, CHR 0x85, CHR 0xA5, CHR 0xE6, CHR 0x9B, CHR 0xB4, CHR 0xE5, CHR 0xBC, CHR 0xBA] @ '' reference'' @ [CHR 0xE3, CHR 0x80, CHR 0x81, CHR 0xE6, CHR 0xA0, CHR 0xA1, CHR 0xE5, CHR 0x87, CHR 0x86] @ '' workload'' @ [CHR 0xE3, CHR 0x80, CHR 0x81, CHR 0xE5, CHR 0xB9, CHR 0xB6, CHR 0xE6, CHR 0x8A, CHR 0x8A] @ '' synthetic proxy '' @ [CHR 0xE4, CHR 0xB8, CHR 0x8E, CHR 0xE7, CHR 0x9C, CHR 0x9F, CHR 0xE5, CHR 0xAE, CHR 0x9E, CHR 0xE8, CHR 0xAE, CHR 0xBE, CHR 0xE8, CHR 0xAE, CHR 0xA1, CHR 0xE7, CHR 0xBA, CHR 0xA6, CHR 0xE6, CHR 0x9D, CHR 0x9F, CHR 0xE5, CHR 0x88, CHR 0x86, CHR 0xE5, CHR 0xB1, CHR 0x82, CHR 0xE5, CHR 0xAF, CHR 0xB9, CHR 0xE9, CHR 0xBD, CHR 0x90, CHR 0xE3, CHR 0x80, CHR 0x82],
      [],
      ''## How To Reproduce'',
      [],
      ''```bash'',
      ''cmake -S examples/at -B build-at '' @ [CHR 0x5C],
      ''  -DUSER_SYSTEMC_INCLUDE_DIR=$HOME/local/systemc/include '' @ [CHR 0x5C],
      ''  -DUSER_SYSTEMC_LIB_DIR=$HOME/local/systemc/lib'',
      [],
      ''cmake --build build-at --target project_at5_backpressure_qos_collapse -j'',
      [],
      ''python3 examples/at/tools/demo_at5_backpressure_qos_collapse.py --at-build-dir build-at'',
      ''```'',
      [],
      ''Expected PASS marker:'',
      [],
      ''```text'',
      ''Project AT-5 Memory System Backpressure and QoS Collapse Lab PASS'',
      ''cases=7'',
      ''initiators=3'',
      ''policies=5'',
      ''claim_boundary=PASS'',
      ''schema_version=at5.0'',
      ''```'',
      [],
      ''## Why QoS Alone Can Fail Under Downstream Saturation'',
      [],
      ''QoS priority '' @ [CHR 0xE4, CHR 0xB8, CHR 0xBB, CHR 0xE8, CHR 0xA6, CHR 0x81, CHR 0xE6, CHR 0x94, CHR 0xB9, CHR 0xE5, CHR 0x8F, CHR 0x98, CHR 0xE8, CHR 0xB0, CHR 0x81, CHR 0xE5, CHR 0x85, CHR 0x88, CHR 0xE8, CHR 0xBF, CHR 0x9B, CHR 0xE5, CHR 0x85, CHR 0xA5] @ '' shared downstream service'' @ [CHR 0xEF, CHR 0xBC, CHR 0x9B, CHR 0xE5, CHR 0xBD, CHR 0x93] @ '' `service_utilization` '' @ [CHR 0xE5, CHR 0xB7, CHR 0xB2, CHR 0xE7, CHR 0xBB, CHR 0x8F, CHR 0xE6, CHR 0x8E, CHR 0xA5, CHR 0xE8, CHR 0xBF, CHR 0x91] @ '' 1'' @ [CHR 0xEF, CHR 0xBC, CHR 0x8C, CHR 0xE7, CHR 0xB3, CHR 0xBB, CHR 0xE7, CHR 0xBB, CHR 0x9F, CHR 0xE6, CHR 0x80, CHR 0xBB, CHR 0xE6, CHR 0x9C, CHR 0x8D, CHR 0xE5, CHR 0x8A, CHR 0xA1, CHR 0xE8, CHR 0x83, CHR 0xBD, CHR 0xE5, CHR 0x8A, CHR 0x9B, CHR 0xE6, CHR 0x9C, CHR 0xAC, CHR 0xE8, CHR 0xBA, CHR 0xAB, CHR 0xE6, CHR 0x88, CHR 0x90, CHR 0xE4, CHR 0xB8, CHR 0xBA] @ '' dominant bottleneck'' @ [CHR 0xE3, CHR 0x80, CHR 0x82, CHR 0xE6, CHR 0xAD, CHR 0xA4, CHR 0xE6, CHR 0x97, CHR 0xB6] @ '' strict priority '' @ [CHR 0xE5, CHR 0x8F, CHR 0xAF, CHR 0xE8, CHR 0x83, CHR 0xBD, CHR 0xE8, CHR 0xAE, CHR 0xA9] @ '' `cpu_rt` '' @ [CHR 0xE5, CHR 0xB0, CHR 0x91, CHR 0xE7, CHR 0xAD, CHR 0x89, CHR 0xE4, CHR 0xB8, CHR 0x80, CHR 0xE9, CHR 0x83, CHR 0xA8, CHR 0xE5, CHR 0x88, CHR 0x86, CHR 0xE5, CHR 0xB1, CHR 0x80, CHR 0xE9, CHR 0x83, CHR 0xA8, CHR 0xE9, CHR 0x98, CHR 0x9F, CHR 0xE5, CHR 0x88, CHR 0x97, CHR 0xEF, CHR 0xBC, CHR 0x8C, CHR 0xE4, CHR 0xBD, CHR 0x86, CHR 0xE5, CHR 0xAE, CHR 0x83, CHR 0xE4, CHR 0xB8, CHR 0x8D, CHR 0xE8, CHR 0x83, CHR 0xBD, CHR 0xE5, CHR 0x88, CHR 0x9B, CHR 0xE9, CHR 0x80, CHR 0xA0, CHR 0xE6, CHR 0x96, CHR 0xB0, CHR 0xE7, CHR 0x9A, CHR 0x84] @ '' memory service capacity'' @ [CHR 0xEF, CHR 0xBC, CHR 0x8C, CHR 0xE4, CHR 0xB9, CHR 0x9F, CHR 0xE5, CHR 0x8F, CHR 0xAF, CHR 0xE8, CHR 0x83, CHR 0xBD, CHR 0xE6, CHR 0x8A, CHR 0x8A] @ '' `dma_bulk` '' @ [CHR 0xE6, CHR 0x8E, CHR 0xA8, CHR 0xE5, CHR 0x90, CHR 0x91] @ '' starvation'' @ [CHR 0xE3, CHR 0x80, CHR 0x82] @ ''AT-5 '' @ [CHR 0xE7, CHR 0x9A, CHR 0x84] @ '' recommendation '' @ [CHR 0xE5, CHR 0x9B, CHR 0xA0, CHR 0xE6, CHR 0xAD, CHR 0xA4, CHR 0xE4, CHR 0xBC, CHR 0x9A, CHR 0xE5, CHR 0x9C, CHR 0xA8] @ '' downstream saturation '' @ [CHR 0xE5, CHR 0x9C, CHR 0xBA, CHR 0xE6, CHR 0x99, CHR 0xAF, CHR 0xE4, CHR 0xB8, CHR 0xAD, CHR 0xE8, CHR 0xBD, CHR 0xAC, CHR 0xE5, CHR 0x90, CHR 0x91] @ '' `reduce_memory_service_latency` '' @ [CHR 0xE6, CHR 0x88, CHR 0x96] @ '' capacity '' @ [CHR 0xE7, CHR 0xB1, CHR 0xBB, CHR 0xE5, CHR 0x8A, CHR 0xA8, CHR 0xE4, CHR 0xBD, CHR 0x9C, CHR 0xEF, CHR 0xBC, CHR 0x8C, CHR 0xE8, CHR 0x80, CHR 0x8C, CHR 0xE4, CHR 0xB8, CHR 0x8D, CHR 0xE6, CHR 0x98, CHR 0xAF, CHR 0xE7, CHR 0xBB, CHR 0xA7, CHR 0xE7, CHR 0xBB, CHR 0xAD, CHR 0xE6, CHR 0x8F, CHR 0x90, CHR 0xE9, CHR 0xAB, CHR 0x98] @ '' priority'' @ [CHR 0xE3, CHR 0x80, CHR 0x82],
      [],
      [CHR 0xE8, CHR 0xBF, CHR 0x99, CHR 0xE4, CHR 0xBA, CHR 0x9B] @ '' CSV '' @ [CHR 0xE5, CHR 0x92, CHR 0x8C] @ '' report '' @ [CHR 0xE6, CHR 0x98, CHR 0xAF, CHR 0xE5, CHR 0xBD, CHR 0x93, CHR 0xE5, CHR 0x89, CHR 0x8D] @ '' evidence boundary'' @ [CHR 0xEF, CHR 0xBC, CHR 0x9B, CHR 0xE4, CHR 0xB8, CHR 0x8D, CHR 0xE8, CHR 0xA6, CHR 0x81, CHR 0xE6, CHR 0x8A, CHR 0x8A] @ '' sample outputs '' @ [CHR 0xE5, CHR 0xBD, CHR 0x93, CHR 0xE4, CHR 0xBD, CHR 0x9C, CHR 0xE7, CHR 0xA1, CHR 0xAC, CHR 0xE4, CHR 0xBB, CHR 0xB6, CHR 0xE4, CHR 0xBA, CHR 0xA7, CHR 0xE5, CHR 0x93, CHR 0x81, CHR 0xE6, CHR 0x95, CHR 0xB0, CHR 0xE6, CHR 0x8D, CHR 0xAE, CHR 0xE6, CHR 0x88, CHR 0x96] @ '' silicon measurement'' @ [CHR 0xE3, CHR 0x80, CHR 0x82],
      []]"

text \<open>\<open>recommendation_by_case[k]\<close>: the last recommendation of the case, KeyError where there is none.\<close>

definition recommendation_by_case :: "recommendation_row list \<Rightarrow> string \<Rightarrow> recommendation_row result" where
  "recommendation_by_case rows k =
     opt_or_raise (map_of (rev (map (\<lambda>r. (r_case_name r, r)) rows)) k) (KeyError k)"

definition report_lines :: "policy_row list \<Rightarrow> recommendation_row list \<Rightarrow> string list result" where
  "report_lines primary_policy_rows recommendation_rows =
     bindR (mapR (\<lambda>row. bindR (recommendation_by_case recommendation_rows (p_case_name row)) (\<lambda>rec.
         Inr (case_table_row row rec))) primary_policy_rows) (\<lambda>case_lines.
     Inr (report_intro @ case_lines @ report_observations @ map recommendation_line recommendation_rows
       @ report_closing))"

definition write_report :: "policy_row list \<Rightarrow> recommendation_row list \<Rightarrow> string result" where
  "write_report primary_policy_rows recommendation_rows =
     bindR (report_lines primary_policy_rows recommendation_rows) (\<lambda>ls. Inr (py_join [CHR 0x0A] ls))"

section \<open>The claim scan\<close>

definition boundary_words :: "string list" where
  "boundary_words =
    [''not '', ''no '', ''unsupported'', ''not supported'', ''does not'', ''is not'', ''do not'',
     [CHR 0xE4, CHR 0xB8, CHR 0x8D, CHR 0xE6, CHR 0x98, CHR 0xAF],
     [CHR 0xE4, CHR 0xB8, CHR 0x8D, CHR 0xE6, CHR 0x94, CHR 0xAF, CHR 0xE6, CHR 0x8C, CHR 0x81],
     [CHR 0xE4, CHR 0xB8, CHR 0x8D, CHR 0xE8, CHR 0x83, CHR 0xBD],
     [CHR 0xE4, CHR 0xB8, CHR 0x8D, CHR 0xE8, CHR 0xA6, CHR 0x81]]"

definition phrases :: "string list" where
  "phrases =
    [''real noc'', ''real axi'', ''real chi'', ''real dram controller'', ''real cache coherence'',
     ''cycle-accurate'', ''cycle accurate'', ''silicon validation'', ''silicon measurement'',
     ''production signoff'', ''apple'', ''nvidia'', ''arm internal'']"

definition line_has_positive_claim :: "string \<Rightarrow> string \<Rightarrow> bool" where
  "line_has_positive_claim line phrase \<longleftrightarrow> (let lowered = py_lower line in
     py_in phrase lowered \<and> \<not> list_ex (\<lambda>w. py_in w lowered) boundary_words)"

definition forbidden_claim_scan :: "string \<Rightarrow> unit result" where
  "forbidden_claim_scan report =
     checkR (\<lambda>(line_number, line). checkR (\<lambda>phrase. raise_if (line_has_positive_claim line phrase)
         (DemoError (''forbidden positive claim in report line '' @ str_nat line_number @ '': '' @ line))) phrases)
       (enumerate 1 (splitlines report))"

section \<open>The acceptance checks\<close>

definition policy_row_for :: "policy_row list \<Rightarrow> string \<Rightarrow> string \<Rightarrow> policy_row result" where
  "policy_row_for rows name policy =
     opt_or_raise (find (\<lambda>row. p_case_name row = name \<and> p_policy row = policy) rows)
       (DemoError (''missing row for '' @ name @ ''/'' @ policy))"

definition recommendation_row_for :: "recommendation_row list \<Rightarrow> string \<Rightarrow> recommendation_row result" where
  "recommendation_row_for rows name =
     opt_or_raise (find (\<lambda>row. r_case_name row = name) rows) (DemoError (''missing row for '' @ name))"

definition required_markers :: "string list" where
  "required_markers =
    [''# Project AT-5: Memory System Backpressure and QoS Collapse Lab'',
     ''## What This Model Demonstrates'', ''## Modeled Mechanism'', ''## Case Table'',
     ''## Key Observations'', ''## Architecture Recommendations'', ''## Claim Boundary'',
     ''## How To Reproduce'', ''## Why QoS Alone Can Fail Under Downstream Saturation'',
     ''Current:'', ''Supported:'',
     ''Not Supported: real NoC modeling'' @ [CHR 0xE3, CHR 0x80, CHR 0x82],
     ''Not Supported: real AXI / CHI protocol compliance'' @ [CHR 0xE3, CHR 0x80, CHR 0x82],
     ''Not Supported: real DRAM controller timing'' @ [CHR 0xE3, CHR 0x80, CHR 0x82],
     ''Not Supported: real cache coherence'' @ [CHR 0xE3, CHR 0x80, CHR 0x82],
     ''Not Supported: cycle-accurate timing'' @ [CHR 0xE3, CHR 0x80, CHR 0x82]]"

definition count_check :: "string \<Rightarrow> nat \<Rightarrow> nat \<Rightarrow> unit result" where
  "count_check what found expected = raise_if (found \<noteq> expected)
     (DemoError (what @ '' '' @ str_nat found @ '' != '' @ str_nat expected))"

definition check_boundary :: "string \<times> string \<Rightarrow> unit result" where
  "check_boundary = (\<lambda>(claim_boundary, schema_version).
     bindR (raise_if (claim_boundary \<noteq> ''PASS'') (DemoError ''not all claim_boundary fields are PASS'')) (\<lambda>_.
     raise_if (schema_version \<noteq> SCHEMA_VERSION) (DemoError ''not all schema_version fields are at5.0'')))"

definition check_action :: "string \<times> string \<Rightarrow> unit result" where
  "check_action = (\<lambda>(name, action). raise_if (action \<notin> set ALLOWED_ACTIONS)
     (DemoError (''invalid recommended_action for '' @ name @ '': '' @ action)))"

definition expect_action :: "recommendation_row list \<Rightarrow> string \<Rightarrow> string \<Rightarrow> string \<Rightarrow> unit result" where
  "expect_action rows name action complaint =
     bindR (recommendation_row_for rows name) (\<lambda>rec.
     raise_if (r_recommended_action rec \<noteq> action) (DemoError complaint))"

text \<open>The checks on the behaviour the seven cases are meant to show.\<close>

definition behaviour_checks :: "policy_row list \<Rightarrow> recommendation_row list \<Rightarrow> unit result" where
  "behaviour_checks policy_rows recommendation_rows =
     bindR (policy_row_for policy_rows ''strict_priority_helps_cpu'' ''round_robin'') (\<lambda>helps_rr.
     bindR (policy_row_for policy_rows ''strict_priority_helps_cpu'' ''strict_priority'') (\<lambda>helps_strict.
     bindR (to_float (p_cpu_rt_p95_ns helps_strict)) (\<lambda>a. bindR (to_float (p_cpu_rt_p95_ns helps_rr)) (\<lambda>b.
     bindR (raise_if (f_le b a) (DemoError ''strict_priority_helps_cpu did not improve cpu_rt p95'')) (\<lambda>_.
     bindR (expect_action recommendation_rows ''strict_priority_starves_dma'' ''use_weighted_priority''
       ''strict_priority_starves_dma did not recommend weighted priority'') (\<lambda>_.
     bindR (checkR (\<lambda>row. bindR (to_float (p_cpu_rt_sla_violation_ratio row)) (\<lambda>v. raise_if (\<not> f_lt f_zero v)
         (DemoError ''downstream saturation did not violate cpu_rt SLA for all policies'')))
       (filter (\<lambda>row. p_case_name row = ''downstream_saturation_qos_collapse'') policy_rows)) (\<lambda>_.
     bindR (expect_action recommendation_rows ''downstream_saturation_qos_collapse'' ''reduce_memory_service_latency''
       ''downstream saturation did not recommend memory service fix'') (\<lambda>_.
     bindR (policy_row_for policy_rows ''small_queue_backpressure'' ''backpressure_aware'') (\<lambda>small_queue.
     bindR (to_int (p_queue_full_events small_queue)) (\<lambda>q.
     bindR (raise_if (q \<le> 0) (DemoError ''small_queue_backpressure did not produce queue_full_events'')) (\<lambda>_.
     bindR (policy_row_for policy_rows ''throttled_dma_recovers_sla'' ''throttled_dma'') (\<lambda>throttled.
     bindR (policy_row_for policy_rows ''throttled_dma_recovers_sla'' ''round_robin'') (\<lambda>throttled_rr.
     bindR (to_float (p_cpu_rt_sla_violation_ratio throttled)) (\<lambda>a.
     bindR (to_float (p_cpu_rt_sla_violation_ratio throttled_rr)) (\<lambda>b.
     bindR (raise_if (f_lt b a) (DemoError ''throttled_dma did not improve cpu_rt SLA signal'')) (\<lambda>_.
     expect_action recommendation_rows ''bursty_accel_tail_spike'' ''shape_accel_bursts''
       ''bursty_accel_tail_spike did not recommend burst shaping''))))))))))))))))"

definition report_checks :: "string \<Rightarrow> unit result" where
  "report_checks report =
     (let missing = filter (\<lambda>marker. \<not> py_in marker report) required_markers in
      bindR (raise_if (missing \<noteq> []) (DemoError (''report is missing markers: '' @ py_join '', '' missing))) (\<lambda>_.
      forbidden_claim_scan report))"

definition shape_checks ::
  "nat \<Rightarrow> summary_row list \<Rightarrow> policy_row list \<Rightarrow> recommendation_row list \<Rightarrow> unit result" where
  "shape_checks traces summary_rows policy_rows recommendation_rows =
     (let case_count = length CASES in
      bindR (count_check ''case count'' traces case_count) (\<lambda>_.
      bindR (count_check ''summary row count'' (length summary_rows) (case_count * length INITIATORS)) (\<lambda>_.
      bindR (count_check ''policy sweep row count'' (length policy_rows) (case_count * length POLICIES)) (\<lambda>_.
      bindR (count_check ''recommendations row count'' (length recommendation_rows) case_count) (\<lambda>_.
      bindR (checkR check_boundary
        (map (\<lambda>r. (s_claim_boundary r, s_schema_version r)) summary_rows @
         map (\<lambda>r. (p_claim_boundary r, p_schema_version r)) policy_rows @
         map (\<lambda>r. (r_claim_boundary r, r_schema_version r)) recommendation_rows)) (\<lambda>_.
      checkR check_action
        (map (\<lambda>r. (p_case_name r, p_recommended_action r)) policy_rows @
         map (\<lambda>r. (r_case_name r, r_recommended_action r)) recommendation_rows)))))))"

definition acceptance_checks ::
  "nat \<Rightarrow> summary_row list \<Rightarrow> policy_row list \<Rightarrow> recommendation_row list \<Rightarrow> string \<Rightarrow> unit result" where
  "acceptance_checks traces summary_rows policy_rows recommendation_rows report =
     bindR (shape_checks traces summary_rows policy_rows recommendation_rows) (\<lambda>_.
     bindR (behaviour_checks policy_rows recommendation_rows) (\<lambda>_. report_checks report))"

end
