(* ===== verification/At5_Run.thy ===== *)
theory At5_Run
  imports At5_Report
begin

text \<open>
  \<open>examples/at/tools/demo_at5_backpressure_qos_collapse.py\<close>, last part: running the model for
  a case and a policy (\<open>run_case\<close> with its output directory), the loop over all cases and
  policies with \<open>--keep-going\<close>, and \<open>main\<close>.

  The SystemC binary is not Python: it is the parameter \<open>model\<close> of the environment, which
  maps a command line to an exit code and the records of the \<open>trace.csv\<close> it wrote, if any.
  The file system is a list of directories and a list of files; a path is the list of its
  parts, so that \<open>a / b\<close> is \<open>a @ [b]\<close>.  A parent directory that is a file (an OSError of
  \<open>mkdir\<close>) is left out.
\<close>

section \<open>The output directory of a case\<close>

type_synonym path = "string list"

record fs =
  fs_dirs :: "path list"
  fs_files :: "path list"

definition str_path :: "path \<Rightarrow> string" where
  "str_path p = py_join ''/'' p"

definition under :: "path \<Rightarrow> path \<Rightarrow> bool" where
  "under d p \<longleftrightarrow> prefix d p"

definition rmtree :: "path \<Rightarrow> fs \<Rightarrow> fs" where
  "rmtree d st = st\<lparr>fs_dirs := filter (\<lambda>p. \<not> under d p) (fs_dirs st),
     fs_files := filter (\<lambda>p. \<not> under d p) (fs_files st)\<rparr>"

definition mkdir_parents :: "path \<Rightarrow> fs \<Rightarrow> fs" where
  "mkdir_parents d st = st\<lparr>fs_dirs := fs_dirs st @ filter (\<lambda>p. p \<notin> set (fs_dirs st)) (prefixes d)\<rparr>"

definition write_file :: "path \<Rightarrow> fs \<Rightarrow> fs" where
  "write_file p st = (if p \<in> set (fs_files st) then st else st\<lparr>fs_files := fs_files st @ [p]\<rparr>)"

record lab_env =
  model :: "string list \<Rightarrow> int \<times> string list list option"
  is_protected_path :: "path \<Rightarrow> bool"
  binary :: string
  output_dir :: path

definition reset_case_dir :: "lab_env \<Rightarrow> path \<Rightarrow> fs \<Rightarrow> fs \<times> unit result" where
  "reset_case_dir env d st =
     (if d \<in> set (fs_files st)
      then (st, Inl (DemoError (''case output path is not a directory: '' @ str_path d)))
      else if d \<in> set (fs_dirs st)
      then (if is_protected_path env d
            then (st, Inl (DemoError (''refusing to delete protected output directory: '' @ str_path d)))
            else (mkdir_parents d (rmtree d st), Inr ()))
      else (mkdir_parents d st, Inr ()))"

section \<open>Running one case\<close>

definition case_command :: "string \<Rightarrow> path \<Rightarrow> case_config \<Rightarrow> string \<Rightarrow> string list" where
  "case_command bin dir config policy =
     [bin, ''--case-name'', case_name config, ''--policy'', policy,
      ''--ingress-queue-capacity'', str_int (ingress_queue_capacity config),
      ''--downstream-queue-capacity'', str_int (downstream_queue_capacity config),
      ''--memory-service-latency-ns'', fmt3 (memory_service_latency_ns config),
      ''--service-rate-txn-per-us'', fmt3 (service_rate_txn_per_us config),
      ''--num-transactions-per-initiator'', str_int (num_transactions_per_initiator config),
      ''--cpu-rt-sla-target-ns'', fmt3 (cpu_rt_sla_target_ns config),
      ''--dma-bulk-sla-target-ns'', fmt3 (dma_bulk_sla_target_ns config),
      ''--accel-burst-sla-target-ns'', fmt3 (accel_burst_sla_target_ns config),
      ''--output-dir'', str_path dir]"

definition case_dir :: "path \<Rightarrow> case_config \<Rightarrow> string \<Rightarrow> path" where
  "case_dir out config policy =
     (if policy = primary_policy config then out @ [''model_runs'', case_name config]
      else out @ [''model_runs'', case_name config, ''policy_sweep'', policy])"

text \<open>The model leaves \<open>trace.csv\<close>; the tool adds the captured output.\<close>

definition run_case :: "lab_env \<Rightarrow> case_config \<Rightarrow> string \<Rightarrow> fs \<Rightarrow> fs \<times> (path \<times> string list list) result" where
  "run_case env config policy st =
     (let d = case_dir (output_dir env) config policy in
      case reset_case_dir env d st of
        (st1, Inl e) \<Rightarrow> (st1, Inl e)
      | (st1, Inr _) \<Rightarrow>
          (case model env (case_command (binary env) d config policy) of (returncode, trace) \<Rightarrow>
             let st2 = (if trace = None then st1 else write_file (d @ [''trace.csv'']) st1);
                 st3 = write_file (d @ [''model.stderr.txt'']) (write_file (d @ [''model.stdout.txt'']) st2) in
             if returncode \<noteq> 0
             then (st3, Inl (at_case config policy (''model failed with exit code '' @ str_int returncode @
                    ''; see '' @ str_path (d @ [''model.stderr.txt'']))))
             else case trace of None \<Rightarrow> (st3, Inl (at_case config policy ''missing trace.csv''))
               | Some recs \<Rightarrow> (st3, Inr (d @ [''trace.csv''], recs))))"

text \<open>\<open>read_trace\<close>, \<open>validate_trace\<close> and \<open>aggregate_policy_row\<close> on the trace of one run.\<close>

definition evaluate_trace :: "case_config \<Rightarrow> string \<Rightarrow> path \<times> string list list \<Rightarrow> (csv_row list \<times> policy_row) result" where
  "evaluate_trace config policy = (\<lambda>(p, recs).
     bindR (read_trace (str_path p) recs) (\<lambda>rows.
     bindR (validate_trace config policy rows) (\<lambda>_.
     bindR (aggregate_policy_row config policy rows) (\<lambda>row. Inr (rows, row)))))"

section \<open>All cases\<close>

record lab_state =
  st_fs :: fs
  st_summaries :: "summary_row list"
  st_policies :: "policy_row list"
  st_recommendations :: "recommendation_row list"
  st_traces :: "(string \<times> csv_row list) list"
  st_failures :: "string list"

text \<open>
  The loop over the policies of a case.  An exception leaves the lists as they are at that
  moment: the rows appended before stay.
\<close>

definition run_policy :: "lab_env \<Rightarrow> case_config \<Rightarrow> string \<Rightarrow> lab_state \<Rightarrow> lab_state \<times> policy_row result" where
  "run_policy env config policy st =
     (case run_case env config policy (st_fs st) of (fs', outcome) \<Rightarrow>
      let st1 = st\<lparr>st_fs := fs'\<rparr> in
      case bindR outcome (evaluate_trace config policy) of
        Inl e \<Rightarrow> (st1, Inl e)
      | Inr (rows, row) \<Rightarrow>
          let st2 = st1\<lparr>st_policies := st_policies st1 @ [row]\<rparr> in
          if policy \<noteq> primary_policy config then (st2, Inr row)
          else (case summarize_case config rows of
              Inl e \<Rightarrow> (st2, Inl e)
            | Inr summaries \<Rightarrow>
                (st2\<lparr>st_summaries := st_summaries st2 @ summaries,
                     st_traces := dict_set (st_traces st2) (case_name config) rows\<rparr>, Inr row)))"

fun run_policies ::
  "lab_env \<Rightarrow> case_config \<Rightarrow> string list \<Rightarrow> lab_state \<Rightarrow> lab_state \<times> policy_row list result" where
  "run_policies env config [] st = (st, Inr [])"
| "run_policies env config (p # ps) st =
     (case run_policy env config p st of
        (st1, Inl e) \<Rightarrow> (st1, Inl e)
      | (st1, Inr row) \<Rightarrow>
          (case run_policies env config ps st1 of
             (st2, Inl e) \<Rightarrow> (st2, Inl e)
           | (st2, Inr rows) \<Rightarrow> (st2, Inr (row # rows))))"

definition run_one_case :: "lab_env \<Rightarrow> case_config \<Rightarrow> lab_state \<Rightarrow> lab_state \<times> unit result" where
  "run_one_case env config st =
     (case run_policies env config POLICIES st of
        (st1, Inl e) \<Rightarrow> (st1, Inl e)
      | (st1, Inr case_policy_rows) \<Rightarrow>
          (case make_recommendation config case_policy_rows of
             Inl e \<Rightarrow> (st1, Inl e)
           | Inr rec \<Rightarrow> (st1\<lparr>st_recommendations := st_recommendations st1 @ [rec]\<rparr>, Inr ())))"

text \<open>\<open>except DemoError\<close>: with \<open>--keep-going\<close> the message is kept and the loop goes on.\<close>

fun run_cases :: "lab_env \<Rightarrow> bool \<Rightarrow> case_config list \<Rightarrow> lab_state \<Rightarrow> lab_state \<times> unit result" where
  "run_cases env keep_going [] st = (st, Inr ())"
| "run_cases env keep_going (config # configs) st =
     (case run_one_case env config st of
        (st1, Inr _) \<Rightarrow> run_cases env keep_going configs st1
      | (st1, Inl e) \<Rightarrow>
          (case e of
             DemoError message \<Rightarrow>
               if keep_going
               then run_cases env keep_going configs (st1\<lparr>st_failures := st_failures st1 @ [message]\<rparr>)
               else (st1, Inl e)
           | _ \<Rightarrow> (st1, Inl e)))"

section \<open>The run\<close>

datatype artifact = SummaryCsv "string list list" | PolicySweepCsv "string list list"
  | RecommendationsCsv "string list list" | ReportMd string

definition primary_rows :: "policy_row list \<Rightarrow> policy_row list" where
  "primary_rows policy_rows =
     concat (map (\<lambda>row. map (\<lambda>_. row) (filter (\<lambda>config.
       p_case_name row = case_name config \<and> p_policy row = primary_policy config) CASES)) policy_rows)"

definition finish_lab :: "lab_state \<Rightarrow> artifact list \<times> int result" where
  "finish_lab st =
     (let tables = [SummaryCsv (write_csv SUMMARY_FIELDS (map summary_cells (st_summaries st))),
          PolicySweepCsv (write_csv POLICY_SWEEP_FIELDS (map policy_cells (st_policies st))),
          RecommendationsCsv (write_csv RECOMMENDATION_FIELDS (map recommendation_cells (st_recommendations st)))] in
      case write_report (primary_rows (st_policies st)) (st_recommendations st) of
        Inl e \<Rightarrow> (tables, Inl e)
      | Inr report \<Rightarrow> (tables @ [ReportMd report],
          bindR (raise_if (st_failures st \<noteq> []) (DemoError (py_join ''; '' (st_failures st)))) (\<lambda>_.
          bindR (acceptance_checks (length (st_traces st)) (st_summaries st) (st_policies st)
            (st_recommendations st) report) (\<lambda>_. Inr 0))))"

definition initial_state :: "fs \<Rightarrow> lab_state" where
  "initial_state disk = \<lparr>st_fs = disk, st_summaries = [], st_policies = [], st_recommendations = [],
     st_traces = [], st_failures = []\<rparr>"

text \<open>
  \<open>main\<close> after the binary has been found: the three CSV files and the report it writes
  under the output directory, and its exit code or exception.
\<close>

definition main_at5 :: "lab_env \<Rightarrow> bool \<Rightarrow> fs \<Rightarrow> artifact list \<times> int result" where
  "main_at5 env keep_going disk =
     (case run_cases env keep_going CASES (initial_state disk) of
        (st, Inl e) \<Rightarrow> ([], Inl e)
      | (st, Inr _) \<Rightarrow> finish_lab st)"

section \<open>What the loop keeps\<close>

definition rows_ok :: "lab_state \<Rightarrow> bool" where
  "rows_ok st \<longleftrightarrow>
     (\<forall>r \<in> set (st_summaries st). s_claim_boundary r = ''PASS'' \<and> s_schema_version r = SCHEMA_VERSION) \<and>
     (\<forall>r \<in> set (st_policies st). p_recommended_action r \<in> set ALLOWED_ACTIONS \<and> p_claim_boundary r = ''PASS'' \<and>
        p_schema_version r = SCHEMA_VERSION) \<and>
     (\<forall>r \<in> set (st_recommendations st). r_recommended_action r \<in> set ALLOWED_ACTIONS \<and> r_claim_boundary r = ''PASS'' \<and>
        r_schema_version r = SCHEMA_VERSION)"

lemma evaluate_aggregate:
  "evaluate_trace config p tr = Inr (rows, row) \<Longrightarrow>
     aggregate_policy_row config p rows = Inr row \<and> validate_trace config p rows = Inr ()"
  by (auto simp: evaluate_trace_def bindR_eq_Inr split: prod.splits)

text \<open>One policy, by outcome.\<close>

lemma run_policy_Inr:
  assumes "run_policy env config p st = (st', Inr row)"
  obtains rows fs' ss where "aggregate_policy_row config p rows = Inr row"
    "p = primary_policy config \<Longrightarrow> summarize_case config rows = Inr ss"
    "st' = (if p = primary_policy config
       then st\<lparr>st_fs := fs', st_policies := st_policies st @ [row], st_summaries := st_summaries st @ ss,
               st_traces := dict_set (st_traces st) (case_name config) rows\<rparr>
       else st\<lparr>st_fs := fs', st_policies := st_policies st @ [row]\<rparr>)"
proof -
  obtain fs' outcome where o: "run_case env config p (st_fs st) = (fs', outcome)" by fastforce
  obtain rows where r: "bindR outcome (evaluate_trace config p) = Inr (rows, row)"
    using assms o by (auto simp: run_policy_def Let_def split: sum.splits if_splits)
  then have a: "aggregate_policy_row config p rows = Inr row"
    using evaluate_aggregate by (auto simp: bindR_eq_Inr)
  show ?thesis
  proof (cases "p = primary_policy config")
    case True
    then obtain ss where "summarize_case config rows = Inr ss"
      using assms o r by (auto simp: run_policy_def Let_def split: sum.splits)
    then show ?thesis using that [OF a, of ss fs'] assms o r True by (auto simp: run_policy_def Let_def)
  next
    case False
    then show ?thesis using that [OF a, of "[]" fs'] assms o r by (auto simp: run_policy_def Let_def)
  qed
qed

lemma run_policy_Inl:
  assumes "run_policy env config p st = (st', Inl e)"
  obtains fs' where "st' = st\<lparr>st_fs := fs'\<rparr>"
  | fs' rows row where "aggregate_policy_row config p rows = Inr row"
      "st' = st\<lparr>st_fs := fs', st_policies := st_policies st @ [row]\<rparr>" "p = primary_policy config"
proof -
  obtain fs' outcome where o: "run_case env config p (st_fs st) = (fs', outcome)" by fastforce
  show ?thesis
  proof (cases "bindR outcome (evaluate_trace config p)")
    case (Inl d)
    then show ?thesis using that(1) [of fs'] assms o by (auto simp: run_policy_def Let_def)
  next
    case (Inr x)
    obtain rows row where x: "x = (rows, row)" by fastforce
    then have "aggregate_policy_row config p rows = Inr row"
      using evaluate_aggregate Inr by (auto simp: bindR_eq_Inr)
    then show ?thesis using that(2) [of rows row fs'] assms o Inr x
      by (auto simp: run_policy_def Let_def split: if_splits sum.splits)
  qed
qed

lemma run_policy_ok: "rows_ok st \<Longrightarrow> rows_ok (fst (run_policy env config p st))"
proof -
  assume st: "rows_ok st"
  obtain st' r where r: "run_policy env config p st = (st', r)" by fastforce
  show ?thesis
  proof (cases r)
    case (Inl e)
    from run_policy_Inl [OF r [unfolded Inl]] show ?thesis
      using st aggregate_fields unfolding r rows_ok_def by cases fastforce+
  next
    case (Inr row)
    from run_policy_Inr [OF r [unfolded Inr]] obtain rows fs' ss where
      "aggregate_policy_row config p rows = Inr row" "p = primary_policy config \<Longrightarrow> summarize_case config rows = Inr ss"
      "st' = (if p = primary_policy config
       then st\<lparr>st_fs := fs', st_policies := st_policies st @ [row], st_summaries := st_summaries st @ ss,
               st_traces := dict_set (st_traces st) (case_name config) rows\<rparr>
       else st\<lparr>st_fs := fs', st_policies := st_policies st @ [row]\<rparr>)" by metis
    then show ?thesis
      using st aggregate_fields [of config p rows row] summarize_fields [of config rows ss] unfolding r rows_ok_def by auto
  qed
qed

lemma run_policies_ok: "rows_ok st \<Longrightarrow> rows_ok (fst (run_policies env config ps st))"
proof (induction ps arbitrary: st)
  case (Cons p ps)
  then show ?case using run_policy_ok [of st env config p] by (auto split: prod.splits sum.splits) fastforce+
qed simp

lemma run_one_case_ok: "rows_ok st \<Longrightarrow> rows_ok (fst (run_one_case env config st))"
  using run_policies_ok [of st env config POLICIES] make_recommendation_fields
  by (fastforce simp: run_one_case_def rows_ok_def split: prod.splits sum.splits)

lemma run_cases_ok: "rows_ok st \<Longrightarrow> rows_ok (fst (run_cases env keep_going configs st))"
proof (induction configs arbitrary: st)
  case (Cons config configs)
  obtain st1 r where r: "run_one_case env config st = (st1, r)" by fastforce
  then have ok: "rows_ok st1" using run_one_case_ok [OF Cons.prems, of env config] by simp
  then have "rows_ok (st1\<lparr>st_failures := f\<rparr>)" for f by (simp add: rows_ok_def)
  then show ?case using ok r Cons.IH by (auto split: sum.splits exn.splits)
qed simp

lemma initial_ok: "rows_ok (initial_state disk)"
  by (simp add: rows_ok_def initial_state_def)

section \<open>Counting rows\<close>

definition summaries_of :: "case_config \<Rightarrow> string \<Rightarrow> nat" where
  "summaries_of config p = (if p = primary_policy config then length INITIATORS else 0)"

definition names_of :: "string list \<Rightarrow> string \<Rightarrow> string list" where
  "names_of names k = (if k \<in> set names then names else names @ [k])"

lemma run_policy_counts:
  assumes "run_policy env config p st = (st', Inr row)"
  shows "length (st_policies st') = length (st_policies st) + 1 \<and> st_recommendations st' = st_recommendations st \<and>
    st_failures st' = st_failures st \<and>
    length (st_summaries st') = length (st_summaries st) + summaries_of config p \<and>
    map fst (st_traces st') =
      (if p = primary_policy config then names_of (map fst (st_traces st)) (case_name config) else map fst (st_traces st))"
proof -
  from run_policy_Inr [OF assms] obtain rows fs' ss where
    "p = primary_policy config \<Longrightarrow> summarize_case config rows = Inr ss"
    "st' = (if p = primary_policy config
       then st\<lparr>st_fs := fs', st_policies := st_policies st @ [row], st_summaries := st_summaries st @ ss,
               st_traces := dict_set (st_traces st) (case_name config) rows\<rparr>
       else st\<lparr>st_fs := fs', st_policies := st_policies st @ [row]\<rparr>)" by metis
  then show ?thesis
    using summarize_fields [of config rows ss] keys_dict_set [of "st_traces st" "case_name config" rows]
    by (auto simp: summaries_of_def names_of_def simp del: set_map)
qed

lemma run_policies_counts:
  assumes "run_policies env config ps st = (st', Inr prs)" and "distinct ps"
  shows "length (st_policies st') = length (st_policies st) + length ps \<and> st_recommendations st' = st_recommendations st \<and>
    st_failures st' = st_failures st \<and>
    length (st_summaries st') = length (st_summaries st) + (if primary_policy config \<in> set ps then length INITIATORS else 0) \<and>
    map fst (st_traces st') = (if primary_policy config \<in> set ps then names_of (map fst (st_traces st)) (case_name config)
      else map fst (st_traces st))"
  using assms
proof (induction ps arbitrary: st prs)
  case (Cons p ps)
  from Cons.prems(1) obtain st1 row prs' where r: "run_policy env config p st = (st1, Inr row)"
    "run_policies env config ps st1 = (st', Inr prs')"
    by (auto split: prod.splits sum.splits)
  show ?case
    using Cons.IH [OF r(2)] run_policy_counts [OF r(1)] Cons.prems(2) by (auto simp: summaries_of_def)
qed auto

lemma failures_kept: "run_policies env config ps st = (st', r) \<Longrightarrow> st_failures st' = st_failures st"
proof (induction ps arbitrary: st r)
  case (Cons p ps)
  have one: "st_failures st1 = st_failures st" if "run_policy env config p st = (st1, q)" for st1 q
    using that run_policy_counts [of env config p st st1] by (cases q) (auto elim: run_policy_Inl)
  show ?case using Cons one by (fastforce split: prod.splits sum.splits)
qed simp

lemma one_case_failures: "run_one_case env config st = (st', r) \<Longrightarrow> st_failures st' = st_failures st"
  using failures_kept by (fastforce simp: run_one_case_def split: prod.splits sum.splits)

lemma failures_grow: "run_cases env keep_going configs st = (st', r) \<Longrightarrow> prefix (st_failures st) (st_failures st')"
proof (induction configs arbitrary: st)
  case (Cons config configs)
  obtain st1 q where q: "run_one_case env config st = (st1, q)" by fastforce
  have "prefix (st_failures st1) (st_failures st')"
    using Cons.prems q Cons.IH [of st1] Cons.IH [of "st1\<lparr>st_failures := st_failures st1 @ [m]\<rparr>" for m]
    by (auto split: sum.splits exn.splits if_splits dest: append_prefixD)
  then show ?case using one_case_failures [OF q] by simp
qed simp

lemma POLICIES_distinct: "distinct POLICIES"
  by (simp add: POLICIES_def)

lemma run_one_case_counts:
  assumes "run_one_case env config st = (st', Inr u)" and "primary_policy config \<in> set POLICIES"
    and "case_name config \<notin> set (map fst (st_traces st))"
  shows "length (st_policies st') = length (st_policies st) + length POLICIES \<and>
    length (st_recommendations st') = length (st_recommendations st) + 1 \<and>
    length (st_summaries st') = length (st_summaries st) + length INITIATORS \<and>
    map fst (st_traces st') = map fst (st_traces st) @ [case_name config]"
proof -
  obtain st1 prs rec where r: "run_policies env config POLICIES st = (st1, Inr prs)"
    "st' = st1\<lparr>st_recommendations := st_recommendations st1 @ [rec]\<rparr>"
    using assms(1) by (auto simp: run_one_case_def split: prod.splits sum.splits)
  then show ?thesis
    using run_policies_counts [OF r(1) POLICIES_distinct] assms(2,3) by (simp add: names_of_def del: set_map)
qed

lemma run_cases_counts:
  assumes "run_cases env keep_going configs st = (st', Inr u)" and "st_failures st' = []"
    and "\<forall>c \<in> set configs. primary_policy c \<in> set POLICIES" and "distinct (map case_name configs)"
    and "set (map case_name configs) \<inter> set (map fst (st_traces st)) = {}"
  shows "length (st_policies st') = length (st_policies st) + length configs * length POLICIES \<and>
    length (st_recommendations st') = length (st_recommendations st) + length configs \<and>
    length (st_summaries st') = length (st_summaries st) + length configs * length INITIATORS \<and>
    length (st_traces st') = length (st_traces st) + length configs"
  using assms
proof (induction configs arbitrary: st)
  case (Cons config configs)
  obtain st1 q where q: "run_one_case env config st = (st1, q)" by fastforce
  show ?case
  proof (cases q)
    case (Inl e)
    then obtain m where "run_cases env keep_going configs (st1\<lparr>st_failures := st_failures st1 @ [m]\<rparr>) = (st', Inr u)"
      using Cons.prems(1) q by (auto split: exn.splits if_splits)
    from failures_grow [OF this] Cons.prems(2) show ?thesis by simp
  next
    case (Inr v)
    then have r: "run_cases env keep_going configs st1 = (st', Inr u)" using Cons.prems(1) q by simp
    have c: "length (st_policies st1) = length (st_policies st) + length POLICIES \<and>
      length (st_recommendations st1) = length (st_recommendations st) + 1 \<and>
      length (st_summaries st1) = length (st_summaries st) + length INITIATORS \<and>
      map fst (st_traces st1) = map fst (st_traces st) @ [case_name config]"
      using run_one_case_counts [OF q [unfolded Inr]] Cons.prems(3,5) by (simp del: set_map)
    then have "set (map case_name configs) \<inter> set (map fst (st_traces st1)) = {}"
      using Cons.prems(4,5) by (auto simp del: set_map)
    then show ?thesis using Cons.IH [OF r Cons.prems(2)] Cons.prems(3,4) c
      by (auto dest: arg_cong [where f = length])
  qed
qed simp

lemma cases_facts: "\<forall>c \<in> set CASES. primary_policy c \<in> set POLICIES" "distinct (map case_name CASES)"
  by (simp_all add: CASES_def POLICIES_def)

text \<open>C7. Self-checks on the shape of a run never fire: whenever the loop over the seven cases ends without a
  recorded failure, whatever the model and the disk did, the tool has 7 traces, 21 summary rows, 35
  policy rows and 7 recommendations, all with the claim boundary, the schema version and the allowed
  actions its acceptance checks ask for.\<close>

theorem completed_run_shape:
  assumes "run_cases env keep_going CASES (initial_state disk) = (st, Inr ())" and "st_failures st = []"
  shows "shape_checks (length (st_traces st)) (st_summaries st) (st_policies st) (st_recommendations st) = Inr ()"
proof -
  have "rows_ok st" using run_cases_ok [OF initial_ok, of env keep_going CASES disk] assms(1) by simp
  then have "checkR check_boundary (map (\<lambda>r. (s_claim_boundary r, s_schema_version r)) (st_summaries st) @
         map (\<lambda>r. (p_claim_boundary r, p_schema_version r)) (st_policies st) @
         map (\<lambda>r. (r_claim_boundary r, r_schema_version r)) (st_recommendations st)) = Inr ()"
    "checkR check_action (map (\<lambda>r. (p_case_name r, p_recommended_action r)) (st_policies st) @
         map (\<lambda>r. (r_case_name r, r_recommended_action r)) (st_recommendations st)) = Inr ()"
    by (auto simp: checkR_eq_Inr rows_ok_def check_boundary_def check_action_def raise_if_def)
  then show ?thesis
    using run_cases_counts [OF assms cases_facts] 
    by (simp add: shape_checks_def count_check_def raise_if_def Let_def initial_state_def)
qed

section \<open>The report and the recorded failures\<close>

lemma recommendation_lookup:
  "recommendation_by_case rows k = (if k \<in> r_case_name ` set rows
     then Inr (the (map_of (rev (map (\<lambda>r. (r_case_name r, r)) rows)) k)) else Inl (KeyError k))"
proof -
  have "map_of (rev (map (\<lambda>r. (r_case_name r, r)) rows)) k = None \<longleftrightarrow> k \<notin> r_case_name ` set rows"
    by (simp add: map_of_eq_None_iff image_image)
  then show ?thesis by (auto simp: recommendation_by_case_def opt_or_raise_def split: option.splits)
qed

lemma report_key_error:
  assumes "row \<in> set prs" and "p_case_name row \<notin> r_case_name ` set recs"
  shows "\<exists>k. k \<notin> r_case_name ` set recs \<and> write_report prs recs = Inl (KeyError k)"
proof -
  let ?f = "\<lambda>row. bindR (recommendation_by_case recs (p_case_name row)) (\<lambda>rec. Inr (case_table_row row rec))"
  have "\<exists>k. k \<notin> r_case_name ` set recs \<and> mapR ?f prs = Inl (KeyError k)"
    using assms(1)
  proof (induction prs)
    case (Cons r prs)
    then show ?case using assms(2) by (cases "p_case_name r \<in> r_case_name ` set recs") (auto simp: recommendation_lookup)
  qed simp
  then show ?thesis by (auto simp: write_report_def report_lines_def)
qed

text \<open>C36. With \<open>--keep-going\<close>, a case that fails after its primary policy has run leaves its policy row without a
  recommendation, and the report cannot be written: the run ends with an uncaught \<open>KeyError\<close>, the
  report is missing and the recorded failures are never reported.\<close>

theorem keep_going_key_error:
  assumes "run_cases env True CASES (initial_state disk) = (st, Inr ())"
    and "row \<in> set (primary_rows (st_policies st))" and "p_case_name row \<notin> r_case_name ` set (st_recommendations st)"
  shows "\<exists>tables k. main_at5 env True disk = (tables, Inl (KeyError k)) \<and> length tables = 3 \<and>
    (\<forall>text. ReportMd text \<notin> set tables)"
  using report_key_error [OF assms(2,3)] assms(1) by (auto simp: main_at5_def finish_lab_def Let_def)

section \<open>The directories of a case\<close>

lemma under_rmtree: "p \<in> set (fs_files (rmtree d st)) \<longleftrightarrow> p \<in> set (fs_files st) \<and> \<not> prefix d p"
  by (auto simp: rmtree_def under_def)

lemma reset_files: "reset_case_dir env d st = (st1, Inr u) \<Longrightarrow> d \<in> set (fs_dirs st) \<Longrightarrow> p \<in> set (fs_files st1) \<Longrightarrow> \<not> prefix d p"
  by (auto simp: reset_case_dir_def mkdir_parents_def under_rmtree split: if_splits)

lemma write_file_mem: "p \<in> set (fs_files (write_file q st)) \<longleftrightarrow> p = q \<or> p \<in> set (fs_files st)"
  by (auto simp: write_file_def)

lemma run_case_files:
  assumes "reset_case_dir env (case_dir (output_dir env) config p) st = (st1, Inr u)"
    and "run_case env config p st = (st2, r)" and "q \<in> set (fs_files st2)"
  shows "q \<in> set (fs_files st1) \<or> (\<exists>f \<in> {''trace.csv'', ''model.stdout.txt'', ''model.stderr.txt''}.
    q = case_dir (output_dir env) config p @ [f])"
  using assms by (auto simp: run_case_def Let_def write_file_mem split: prod.splits if_splits option.splits)

text \<open>C37. Running the primary policy of a case deletes what the sweep wrote for the policies before it: the sweep
  directories lie inside the directory of the primary run, which \<open>reset_case_dir\<close> removes as a whole.\<close>

theorem primary_run_deletes_sweep:
  assumes "case_dir (output_dir env) config (primary_policy config) \<in> set (fs_dirs disk)"
    and "reset_case_dir env (case_dir (output_dir env) config (primary_policy config)) disk = (disk1, Inr ())"
    and "policy \<noteq> primary_policy config"
  shows "case_dir (output_dir env) config policy @ [''trace.csv'']
    \<notin> set (fs_files (fst (run_case env config (primary_policy config) disk)))"
proof
  let ?d = "case_dir (output_dir env) config (primary_policy config)" and ?q = "case_dir (output_dir env) config policy @ [''trace.csv'']"
  assume q: "?q \<in> set (fs_files (fst (run_case env config (primary_policy config) disk)))"
  have under: "prefix ?d ?q" using assms(3) by (simp add: case_dir_def)
  obtain disk2 r where r: "run_case env config (primary_policy config) disk = (disk2, r)" by fastforce
  then have "?q \<in> set (fs_files disk2)" using q by simp
  moreover have "?q \<notin> set (fs_files disk1)" using reset_files [OF assms(2,1)] under by blast
  ultimately show False
    using run_case_files [OF assms(2) r, of ?q] assms(3) by (auto simp: case_dir_def)
qed

section \<open>What a run adds\<close>

lemma run_policy_grows: "run_policy env config p st = (st', r) \<Longrightarrow>
    prefix (st_policies st) (st_policies st') \<and> st_recommendations st' = st_recommendations st"
proof (cases r)
  case (Inl e)
  assume "run_policy env config p st = (st', r)"
  then show ?thesis using Inl by (auto elim: run_policy_Inl)
next
  case (Inr row)
  assume "run_policy env config p st = (st', r)"
  from run_policy_Inr [OF this [unfolded Inr]] obtain rows fs' ss where
    "st' = (if p = primary_policy config
       then st\<lparr>st_fs := fs', st_policies := st_policies st @ [row], st_summaries := st_summaries st @ ss,
               st_traces := dict_set (st_traces st) (case_name config) rows\<rparr>
       else st\<lparr>st_fs := fs', st_policies := st_policies st @ [row]\<rparr>)" by metis
  then show ?thesis by simp
qed

lemma run_policies_grows: "run_policies env config ps st = (st', r) \<Longrightarrow>
    prefix (st_policies st) (st_policies st') \<and> st_recommendations st' = st_recommendations st"
proof (induction ps arbitrary: st r)
  case (Cons p ps)
  obtain st1 q where q: "run_policy env config p st = (st1, q)" by fastforce
  show ?case
  proof (cases q)
    case (Inl e)
    then show ?thesis using Cons.prems q run_policy_grows [OF q] by simp
  next
    case (Inr row)
    obtain st2 rs where rs: "run_policies env config ps st1 = (st2, rs)" by fastforce
    then have "st' = st2" using Cons.prems q Inr by (auto split: sum.splits)
    with rs have "run_policies env config ps st1 = (st', rs)" by simp
    from Cons.IH [OF this] show ?thesis using run_policy_grows [OF q] by (auto intro: prefix_order.order_trans)
  qed
qed simp

lemma run_one_case_grows: "run_one_case env config st = (st', r) \<Longrightarrow>
    prefix (st_policies st) (st_policies st') \<and>
    r_case_name ` set (st_recommendations st') \<subseteq> r_case_name ` set (st_recommendations st) \<union> {case_name config}"
proof -
  assume a: "run_one_case env config st = (st', r)"
  obtain st1 q where q: "run_policies env config POLICIES st = (st1, q)" by fastforce
  note g = run_policies_grows [OF q]
  show ?thesis
    using a q g make_recommendation_fields by (auto simp: run_one_case_def split: sum.splits)
qed

lemma run_cases_grows: "run_cases env keep_going configs st = (st', r) \<Longrightarrow>
    prefix (st_policies st) (st_policies st') \<and>
    r_case_name ` set (st_recommendations st') \<subseteq> r_case_name ` set (st_recommendations st) \<union> case_name ` set configs"
proof (induction configs arbitrary: st)
  case (Cons config configs)
  obtain st1 q where q: "run_one_case env config st = (st1, q)" by fastforce
  obtain f where f: "(st' = st1 \<or> run_cases env keep_going configs (st1\<lparr>st_failures := f\<rparr>) = (st', r))"
    using Cons.prems q by (auto split: sum.splits exn.splits if_splits) (metis lab_state.surjective lab_state.update_convs(6))+
  have "prefix (st_policies st1) (st_policies st') \<and>
    r_case_name ` set (st_recommendations st') \<subseteq> r_case_name ` set (st_recommendations st1) \<union> case_name ` set configs"
    using f Cons.IH [of "st1\<lparr>st_failures := f\<rparr>"] by auto
  then show ?case using run_one_case_grows [OF q] by (auto intro: prefix_order.order_trans)
qed simp

end
