(* ===== verification/At5_Sample.thy ===== *)
theory At5_Sample
  imports At5_Run
begin

text \<open>
  A small concrete run of the AT-5 tool for the witnesses: a case with one transaction per
  initiator, whose trace is evaluated for every case name and every policy.  The rows stay
  folded; their cells are looked up through \<open>sample_cells\<close>.
\<close>

definition sample_record :: "string \<Rightarrow> string \<Rightarrow> string \<Rightarrow> string \<Rightarrow> string \<Rightarrow> string list" where
  "sample_record name policy initiator start finish =
     [name, ''0'', initiator, ''t'', policy, ''0'', ''64'', ''0'', start, start, start, start, start,
      start, finish, finish, finish, ''10'', ''100'', ''NO'', ''2'', ''2'', ''0'', ''0'', ''NO'', ''none'', ''1'', ''1'',
      ''18'', ''10'', ''60'', ''PASS'', ''at5.0'']"

definition sample_row :: "string \<Rightarrow> string \<Rightarrow> string \<Rightarrow> string \<Rightarrow> string \<Rightarrow> csv_row" where
  "sample_row name policy initiator start finish =
     dict_row TRACE_FIELDS (sample_record name policy initiator start finish)"

definition sample_records :: "string \<Rightarrow> string \<Rightarrow> string list list" where
  "sample_records name policy = [TRACE_FIELDS, sample_record name policy ''cpu_rt'' ''0'' ''10'',
     sample_record name policy ''dma_bulk'' ''10'' ''20'', sample_record name policy ''accel_burst'' ''20'' ''30'']"

definition sample_rows :: "string \<Rightarrow> string \<Rightarrow> csv_row list" where
  "sample_rows name policy = [sample_row name policy ''cpu_rt'' ''0'' ''10'',
     sample_row name policy ''dma_bulk'' ''10'' ''20'', sample_row name policy ''accel_burst'' ''20'' ''30'']"

definition sample_config :: "string \<Rightarrow> string \<Rightarrow> case_config" where
  "sample_config name primary =
     \<lparr>case_name = name, primary_policy = primary, ingress_queue_capacity = 2,
      downstream_queue_capacity = 2, memory_service_latency_ns = flit 18 1, service_rate_txn_per_us = flit 60 1,
      num_transactions_per_initiator = 1, cpu_rt_sla_target_ns = flit 180 1, dma_bulk_sla_target_ns = flit 820 1,
      accel_burst_sla_target_ns = flit 520 1\<rparr>"

lemma sample_cells:
  "row_get (sample_row n p k a b) ''case_name'' = Some n"
  "row_get (sample_row n p k a b) ''initiator'' = Some k"
  "row_get (sample_row n p k a b) ''policy'' = Some p"
  "row_get (sample_row n p k a b) ''begin_req_ns'' = Some a"
  "row_get (sample_row n p k a b) ''arbiter_accept_ns'' = Some a"
  "row_get (sample_row n p k a b) ''ingress_enqueue_ns'' = Some a"
  "row_get (sample_row n p k a b) ''ingress_dequeue_ns'' = Some a"
  "row_get (sample_row n p k a b) ''downstream_enqueue_ns'' = Some a"
  "row_get (sample_row n p k a b) ''service_begin_ns'' = Some a"
  "row_get (sample_row n p k a b) ''service_end_ns'' = Some b"
  "row_get (sample_row n p k a b) ''begin_resp_ns'' = Some b"
  "row_get (sample_row n p k a b) ''end_resp_ns'' = Some b"
  "row_get (sample_row n p k a b) ''total_latency_ns'' = Some ''10''"
  "row_get (sample_row n p k a b) ''sla_target_ns'' = Some ''100''"
  "row_get (sample_row n p k a b) ''sla_violation'' = Some ''NO''"
  "row_get (sample_row n p k a b) ''ingress_queue_capacity'' = Some ''2''"
  "row_get (sample_row n p k a b) ''downstream_queue_capacity'' = Some ''2''"
  "row_get (sample_row n p k a b) ''queue_full_event'' = Some ''NO''"
  "row_get (sample_row n p k a b) ''queue_full_source'' = Some ''none''"
  "row_get (sample_row n p k a b) ''backpressure_stall_ns'' = Some ''1''"
  "row_get (sample_row n p k a b) ''initiator_blocked_ns'' = Some ''1''"
  "row_get (sample_row n p k a b) ''memory_service_latency_ns'' = Some ''18''"
  "row_get (sample_row n p k a b) ''observed_service_time_ns'' = Some ''10''"
  "row_get (sample_row n p k a b) ''service_rate_txn_per_us'' = Some ''60''"
  "row_get (sample_row n p k a b) ''claim_boundary'' = Some ''PASS''"
  "row_get (sample_row n p k a b) ''schema_version'' = Some ''at5.0''"
  by code_simp+

lemma sample_parses:
  "parse_float ''0'' = Some (flit 0 1)" "parse_float ''1'' = Some (flit 1 1)" "parse_float ''10'' = Some (flit 10 1)"
  "parse_float ''18'' = Some (flit 18 1)" "parse_float ''20'' = Some (flit 20 1)" "parse_float ''30'' = Some (flit 30 1)"
  "parse_float ''60'' = Some (flit 60 1)" "parse_float ''100'' = Some (flit 100 1)" "py_int10 ''2'' = Some 2"
  "is_finite (flit 0 1)" "is_finite (flit 1 1)" "is_finite (flit 10 1)" "is_finite (flit 18 1)"
  "is_finite (flit 20 1)" "is_finite (flit 30 1)" "is_finite (flit 60 1)" "is_finite (flit 100 1)"
  by code_simp+

lemma sample_not_nan: "not_nan (flit 30 1)"
  by code_simp

lemmas sample_eval = sample_cells sample_parses num_def raise_if_def opt_or_raise_def

lemma sample_read: "read_trace path (sample_records n p) = Inr (sample_rows n p)"
  by (simp add: read_trace_def reader_fieldnames_def sample_records_def raise_if_def dict_reader_def sample_rows_def
      sample_row_def sample_record_def)

lemma sample_valid: "validate_trace (sample_config n q) p (sample_rows n p) = Inr ()"
proof -
  have t: "f_le (flit a 1) (flit a 1) \<and> f_le (flit a 1) (flit (a + 10) 1) \<and>
      \<not> f_lt (flit 2 1000) (f_abs (f_sub (f_sub (flit (a + 10) 1) (flit a 1)) (flit 10 1)))"
    if "a \<in> {0, 10, 20}" for a
    using that by (elim insertE; simp; code_simp)
  show ?thesis
    using t [of 0] t [of 10] t [of 20] f_le_refl [OF sample_not_nan]
    by (simp add: validate_trace_def sample_rows_def INITIATORS_def sample_config_def validate_row_def
      check_labels_def check_times_def TIME_FIELDS_def int_cell_def count_row_def sample_eval SCHEMA_VERSION_def
      at_case_def Let_def)
qed

lemma sample_nums:
  "num (sample_row n p k ''0'' b) ''begin_req_ns'' = Inr (flit 0 1)"
  "num (sample_row n p k ''10'' b) ''begin_req_ns'' = Inr (flit 10 1)"
  "num (sample_row n p k ''20'' b) ''begin_req_ns'' = Inr (flit 20 1)"
  "num (sample_row n p k a ''10'') ''end_resp_ns'' = Inr (flit 10 1)"
  "num (sample_row n p k a ''20'') ''end_resp_ns'' = Inr (flit 20 1)"
  "num (sample_row n p k a ''30'') ''end_resp_ns'' = Inr (flit 30 1)"
  "num (sample_row n p k a b) ''total_latency_ns'' = Inr (flit 10 1)"
  "num (sample_row n p k a b) ''observed_service_time_ns'' = Inr (flit 10 1)"
  "num (sample_row n p k a b) ''backpressure_stall_ns'' = Inr (flit 1 1)"
  "num (sample_row n p k a b) ''initiator_blocked_ns'' = Inr (flit 1 1)"
  "num (sample_row n p k a b) ''service_rate_txn_per_us'' = Inr (flit 60 1)"
  "num (sample_row n p k a b) ''sla_target_ns'' = Inr (flit 100 1)"
  "num (sample_row n p k a b) ''memory_service_latency_ns'' = Inr (flit 18 1)"
  by (simp_all add: sample_eval)

lemma sample_groups: "group_by_initiator (sample_rows n p) =
    Inr [(''cpu_rt'', [sample_row n p ''cpu_rt'' ''0'' ''10'']), (''dma_bulk'', [sample_row n p ''dma_bulk'' ''10'' ''20'']),
         (''accel_burst'', [sample_row n p ''accel_burst'' ''20'' ''30''])]"
  by (simp add: group_by_initiator_def INITIATORS_def sample_rows_def group_row_def sample_cells)

lemma sample_counts:
  "count_cells ''sla_violation'' ''YES'' [sample_row n p k a b] = 0"
  "count_cells ''queue_full_event'' ''YES'' [sample_row n p k a b] = 0"
  "count_cells ''queue_full_event'' ''YES'' (sample_rows n p) = 0"
  by (simp_all add: count_cells_def cell_is_def sample_rows_def sample_cells)

text \<open>The float arithmetic of the sample, evaluated once.\<close>

lemma sample_floats:
  "py_max [flit 10 1, flit 20 1, flit 30 1] = Inr (flit 30 1)" "py_min [flit 0 1, flit 10 1, flit 20 1] = Inr (flit 0 1)"
  "py_max [flit 0 1, flit 10 1, flit 20 1] = Inr (flit 20 1)"
  "py_fsum [flit 10 1, flit 10 1, flit 10 1] = flit 30 1" "py_fsum [flit 1 1, flit 1 1, flit 1 1] = flit 3 1"
  "py_fsum [flit 1 1] = flit 1 1"
  "f_sub (flit 10 1) (flit 0 1) = flit 10 1" "f_sub (flit 20 1) (flit 10 1) = flit 10 1"
  "f_sub (flit 30 1) (flit 20 1) = flit 10 1" "f_sub (flit 30 1) (flit 0 1) = flit 30 1"
  "f_sub (flit 20 1) (flit 0 1) = flit 20 1"
  "ratio (f_mul (count_float 1) (flit 1000 1)) (flit 10 1) = Inr (flit 100 1)"
  "ratio (f_mul (count_float 3) (flit 1000 1)) (flit 30 1) = Inr (flit 100 1)"
  "ratio (f_mul (count_float 3) (flit 1000 1)) (flit 20 1) = Inr (flit 150 1)"
  "ratio (flit 30 1) (flit 30 1) = Inr (flit 1 1)" "clamp (flit 1 1) = flit 1 1"
  "bindR (ratio (flit 150 1) (flit 60 1)) (\<lambda>r. Inr (fmin_from (flit 2 1) [r])) = Inr (flit 2 1)"
  "ratio_int 0 1 = Inr f_zero" "ratio_int 0 3 = Inr f_zero"
  "percentile [flit 10 1] (flit 50 100) = Inr (flit 10 1)" "percentile [flit 10 1] (flit 95 100) = Inr (flit 10 1)"
  "percentile [flit 10 1] (flit 99 100) = Inr (flit 10 1)" "average [flit 10 1] = Inr (flit 10 1)"
  by code_simp+

lemma sample_fair:
  "(let denom = f_mul (count_float 3) (py_fsum (map (\<lambda>v. f_mul v v) [flit 100 1, flit 100 1, flit 100 1])) in
     if f_le denom f_zero then Inr f_zero
     else bindR (f_square (py_fsum [flit 100 1, flit 100 1, flit 100 1])) (\<lambda>sq. bindR (f_div sq denom) (\<lambda>q. Inr (clamp q))))
   = Inr (flit 1 1)"
  by code_simp

lemma sample_score:
  "bindR (ratio (flit 3 1) (flit 30 1)) (\<lambda>r. bindR (f_div (f_sub (flit 1 1) (flit 72 100)) (flit 28 100)) (\<lambda>q.
     Inr (clamp (foldl f_add (weighted 34 f_zero)
       [weighted 22 (clamp q), weighted 18 f_zero, weighted 14 (f_sub (flit 1 1) (flit 1 1)),
        weighted 8 (clamp r), weighted 4 f_zero])))) = Inr (flit 228 1000)"
  by code_simp

lemma sample_throughput:
  "throughput [sample_row n p k ''0'' ''10''] = Inr (flit 100 1)"
  "throughput [sample_row n p k ''10'' ''20''] = Inr (flit 100 1)"
  "throughput [sample_row n p k ''20'' ''30''] = Inr (flit 100 1)"
  "throughput (sample_rows n p) = Inr (flit 100 1)"
  using sample_floats
  by (simp_all add: throughput_def nums_def sample_nums sample_rows_def py_max_def py_min_def eval_nat_numeral)

lemma sample_rates:
  "service_utilization (sample_rows n p) = Inr (flit 1 1)" "saturation_ratio (sample_rows n p) = Inr (flit 2 1)"
  using sample_floats
  by (simp_all add: service_utilization_def saturation_ratio_def offered_rate_def nums_def sample_nums sample_rows_def
      eval_nat_numeral)

lemma sample_fairness: "fairness_index [(''cpu_rt'', [sample_row n p ''cpu_rt'' ''0'' ''10'']),
    (''dma_bulk'', [sample_row n p ''dma_bulk'' ''10'' ''20'']), (''accel_burst'', [sample_row n p ''accel_burst'' ''20'' ''30''])]
    = Inr (flit 1 1)"
  using sample_fair
  by (simp add: fairness_index_def INITIATORS_def group_of_def sample_throughput eval_nat_numeral)

lemma sample_violations: "violation_ratio [sample_row n p k a b] = Inr f_zero"
  using sample_floats by (simp add: violation_ratio_def sample_counts)

lemma sample_collapse: "collapse_score (sample_rows n p) (sample_config n' q) = Inr (flit 228 1000)"
proof -
  have "nums ''backpressure_stall_ns'' (sample_rows n p) = Inr [flit 1 1, flit 1 1, flit 1 1]"
    "nums ''total_latency_ns'' (sample_rows n p) = Inr [flit 10 1, flit 10 1, flit 10 1]"
    "length (sample_rows n p) = 3"
    by (simp_all add: nums_def sample_rows_def sample_nums)
  then show ?thesis
    using sample_floats sample_score
    by (simp add: collapse_score_def sample_groups group_of_def sample_violations sample_fairness sample_counts
        sample_rates Let_def)
qed

lemma sample_metrics: "system_metrics (sample_rows n p) (sample_config n' q) = Inr
    \<lparr>cm_service_utilization = flit 1 1, cm_saturation_ratio = flit 2 1, cm_fairness_index = flit 1 1,
     cm_collapse_score = flit 228 1000\<rparr>"
  by (simp add: system_metrics_def sample_groups sample_rates sample_fairness sample_collapse)

lemma sample_bottleneck: "dominant_bottleneck (sample_rows n p) (sample_config n' q) = Inr ''balanced_or_low_pressure''"
proof -
  have "nums ''total_latency_ns'' [sample_row n p k a b] = Inr [flit 10 1]" for k a b
    by (simp add: nums_def sample_nums)
  moreover have "length (sample_rows n p) = 3" by (simp add: sample_rows_def)
  moreover have "\<not> f_lt (flit 520 1) (flit 10 1)" "\<not> f_lt (flit 10 100) f_zero" "\<not> f_lt (flit 1 1) (flit 92 100)"
    "\<not> f_lt (flit 1 1) (flit 72 100)" "\<not> f_lt (flit 20 100) f_zero" by code_simp+
  ultimately show ?thesis
    using sample_floats
    by (simp add: dominant_bottleneck_def sample_groups group_of_def sample_violations sample_fairness sample_rates
        sample_config_def)
qed

section \<open>A policy row and a run\<close>

definition sample_action :: "string \<Rightarrow> string \<Rightarrow> string" where
  "sample_action name policy =
     (if name = ''bursty_accel_tail_spike'' then ''shape_accel_bursts''
      else if policy = ''strict_priority'' then ''use_strict_priority''
      else if policy = ''throttled_dma'' then ''throttle_dma_bulk''
      else if policy = ''weighted_priority'' then ''use_weighted_priority''
      else ''no_single_dominant_action'')"

definition sample_policy_row :: "string \<Rightarrow> string \<Rightarrow> policy_row" where
  "sample_policy_row name policy =
     \<lparr>p_case_name = name, p_policy = policy, p_cpu_rt_p95_ns = ''10.000'',
      p_cpu_rt_sla_violation_ratio = ''0.000'', p_dma_bulk_throughput_txn_per_us = ''100.000'',
      p_accel_burst_p99_ns = ''10.000'', p_system_throughput_txn_per_us = ''100.000'',
      p_service_utilization = ''1.000'', p_queue_full_events = ''0'', p_backpressure_stall_ns = ''3.000'',
      p_fairness_index = ''1.000'', p_collapse_score = ''0.228'',
      p_dominant_bottleneck = ''balanced_or_low_pressure'', p_recommended_action = sample_action name policy,
      p_claim_boundary = ''PASS'', p_schema_version = SCHEMA_VERSION\<rparr>"

lemma sample_texts:
  "fmt3 (flit 10 1) = ''10.000''" "fmt3 f_zero = ''0.000''" "fmt3 (flit 100 1) = ''100.000''"
  "fmt3 (flit 1 1) = ''1.000''" "fmt3 (flit 2 1) = ''2.000''" "fmt3 (flit 3 1) = ''3.000''" "fmt3 (flit 228 1000) = ''0.228''"
  "str_nat 0 = ''0''"
  "to_float ''0.000'' = Inr f_zero" "to_float ''1.000'' = Inr (flit 1 1)" "to_float ''0.228'' = Inr (flit 228 1000)"
  "to_float ''10.000'' = Inr (flit 10 1)" "to_float ''3.000'' = Inr (flit 3 1)" "to_float ''100.000'' = Inr (flit 100 1)"
  "to_int ''0'' = Inr 0" "f_le f_zero (flit 20 100)" "f_le (flit 75 100) (flit 1 1)" "f_le (flit 78 100) (flit 1 1)"
  "\<not> f_lt (flit 1 1) (flit 75 100)"
  by code_simp+

lemma sample_aggregate:
  "aggregate_policy_row (sample_config n q) p (sample_rows n p) = Inr (sample_policy_row n p)"
proof -
  have l: "nums ''total_latency_ns'' [sample_row n p k a b] = Inr [flit 10 1]" for k a b
    by (simp add: nums_def sample_nums)
  have s: "nums ''backpressure_stall_ns'' (sample_rows n p) = Inr [flit 1 1, flit 1 1, flit 1 1]"
    by (simp add: nums_def sample_rows_def sample_nums)
  have a: "sample_action n p \<in> set ALLOWED_ACTIONS" by (simp add: sample_action_def ALLOWED_ACTIONS_def)
  have c: "case_name (sample_config n q) = n" by (simp add: sample_config_def)
  have act: "policy_action (sample_config n q) r = Inr (sample_action n p)"
    if "p_policy r = p" "p_dominant_bottleneck r = ''balanced_or_low_pressure''" "p_cpu_rt_sla_violation_ratio r = ''0.000''"
      "p_fairness_index r = ''1.000''" "p_queue_full_events r = ''0''" "p_service_utilization r = ''1.000''" for r
    using that by (simp add: policy_action_def sample_texts sample_action_def c)
  show ?thesis
    using sample_floats
    by (simp add: aggregate_policy_row_def sample_groups group_of_def l s sample_violations sample_metrics
        sample_throughput sample_bottleneck sample_counts sample_texts act raise_if_def a sample_policy_row_def c)
qed

lemma sample_evaluate:
  "evaluate_trace (sample_config n q) p (path, sample_records n p) = Inr (sample_rows n p, sample_policy_row n p)"
  by (simp add: evaluate_trace_def sample_read sample_valid sample_aggregate)

lemma sample_summaries: "\<exists>ss. summarize_case (sample_config n q) (sample_rows n p) = Inr ss \<and> length ss = 3"
proof -
  have l: "nums ''total_latency_ns'' [sample_row n p k a b] = Inr [flit 10 1]"
    "nums ''backpressure_stall_ns'' [sample_row n p k a b] = Inr [flit 1 1]"
    "nums ''initiator_blocked_ns'' [sample_row n p k a b] = Inr [flit 1 1]" for k a b
    by (simp_all add: nums_def sample_nums)
  have m: "py_max [flit 100 1, flit 100 1, flit 100 1] = Inr (flit 100 1)" by code_simp
  have st: "starvation_of (flit 100 1) (flit 100 1) f_zero = Inr f_zero" by code_simp
  show ?thesis
    using sample_floats
    by (simp add: summarize_case_def sample_groups sample_metrics sample_bottleneck INITIATORS_def group_of_def
        sample_throughput m summary_of_initiator_def l sample_violations st first_row_def sample_nums)
qed

text \<open>The witness of \<open>system_metrics_bounded\<close> and \<open>summary_percentiles_ordered\<close>.\<close>

theorem system_metrics_bounded_witness:
  "\<exists>rows m. length rows = 3 \<and> system_metrics rows (sample_config ''c'' ''p'') = Inr m \<and>
     in_unit (cm_service_utilization m) \<and> in_unit (cm_fairness_index m) \<and> in_unit (cm_collapse_score m) \<and>
     f_le f_zero (cm_saturation_ratio m) \<and> f_le (cm_saturation_ratio m) (flit 2 1)"
proof -
  have "length (sample_rows ''c'' ''p'') = 3" by (simp add: sample_rows_def)
  then show ?thesis
    using system_metrics_bounded [OF sample_metrics [of "''c''" "''p''" "''c''" "''p''"]] sample_metrics by fastforce
qed

theorem summary_percentiles_ordered_witness:
  "\<exists>rows ss. length rows = 3 \<and> summarize_case (sample_config ''c'' ''p'') rows = Inr ss \<and>
     map s_initiator ss = INITIATORS \<and>
     (\<forall>s \<in> set ss. printed_le (s_p50_total_latency_ns s) (s_p95_total_latency_ns s) \<and>
       printed_le (s_p95_total_latency_ns s) (s_p99_total_latency_ns s))"
proof -
  obtain ss where "summarize_case (sample_config ''c'' ''p'') (sample_rows ''c'' ''p'') = Inr ss"
    using sample_summaries by blast
  moreover have "length (sample_rows ''c'' ''p'') = 3" by (simp add: sample_rows_def)
  ultimately show ?thesis
    using summary_percentiles_ordered [of "sample_config ''c'' ''p''" "sample_rows ''c'' ''p''" ss] by (intro exI) auto
qed

section \<open>The best policy of a sweep\<close>

definition sample_sweep :: "string \<Rightarrow> policy_row list" where
  "sample_sweep name = map (sample_policy_row name) POLICIES"

lemma sample_swept: "\<forall>row \<in> set (sample_sweep n). swept row"
proof -
  have "length (sample_rows n p) = 3" for p by (simp add: sample_rows_def)
  then show ?thesis using sample_aggregate by (fastforce simp: sample_sweep_def swept_def)
qed

lemma sample_best: "best_policy (sample_sweep n) = Inr ''round_robin''"
proof -
  have "score (sample_policy_row n p) = Inr (flit 228 1000, f_zero, flit 10 1)" for p
    by (simp add: score_def sample_policy_row_def sample_texts)
  moreover have "\<not> score_lt (flit 228 1000, f_zero, flit 10 1) (flit 228 1000, f_zero, flit 10 1)" by code_simp
  ultimately show ?thesis
    by (simp add: best_policy_def best_policy_row_def sample_sweep_def POLICIES_def) (simp add: sample_policy_row_def)
qed

theorem best_policy_first_least_witness:
  "\<exists>prs ys row zs k. length prs = 5 \<and> prs = ys @ row # zs \<and> p_policy row = ''round_robin'' \<and> score row = Inr k \<and>
    (\<forall>r \<in> set ys. \<exists>k'. score r = Inr k' \<and> score_lt k k') \<and>
    (\<forall>r \<in> set zs. \<exists>k'. score r = Inr k' \<and> \<not> score_lt k' k)"
proof -
  have "length (sample_sweep ''c'') = 5" by (simp add: sample_sweep_def POLICIES_def)
  moreover obtain ys row zs k where "sample_sweep ''c'' = ys @ row # zs" "p_policy row = ''round_robin''" "score row = Inr k"
    "\<forall>r \<in> set ys. \<exists>k'. score r = Inr k' \<and> score_lt k k'" "\<forall>r \<in> set zs. \<exists>k'. score r = Inr k' \<and> \<not> score_lt k' k"
    using best_policy_first_least [OF sample_swept sample_best] by metis
  ultimately show ?thesis by (intro exI conjI)
qed

lemma sample_name: "case_name (sample_config n q) = n"
  by (simp add: sample_config_def)

theorem recommendation_actions_allowed_witness:
  "\<exists>prs. length prs = 5 \<and> demo_free (make_recommendation (sample_config ''baseline_balanced_rr'' ''round_robin'') prs) \<and>
    (\<forall>rec. make_recommendation (sample_config ''baseline_balanced_rr'' ''round_robin'') prs = Inr rec \<longrightarrow>
       r_case_name rec = ''baseline_balanced_rr'' \<and> r_recommended_action rec \<in> set ALLOWED_ACTIONS)"
proof -
  have l: "length (sample_sweep ''baseline_balanced_rr'') = 5" by (simp add: sample_sweep_def POLICIES_def)
  note r = recommendation_actions_allowed [OF sample_swept [of "''baseline_balanced_rr''"],
        of "sample_config ''baseline_balanced_rr'' ''round_robin''", unfolded sample_name]
  show ?thesis by (intro exI [of _ "sample_sweep ''baseline_balanced_rr''"] conjI l conjunct1 [OF r] conjunct2 [OF r])
qed

section \<open>A disk with an earlier sweep\<close>

definition sample_env :: lab_env where
  "sample_env = \<lparr>model = \<lambda>cmd. (0, Some (sample_records (cmd ! 2) (cmd ! 4))), is_protected_path = \<lambda>_. False,
     binary = ''at5'', output_dir = [''out'']\<rparr>"

definition sample_disk :: fs where
  "sample_disk = \<lparr>fs_dirs = [[''out''], [''out'', ''model_runs''], [''out'', ''model_runs'', ''c'']],
     fs_files = [case_dir [''out''] (sample_config ''c'' ''strict_priority'') ''round_robin'' @ [''trace.csv'']]\<rparr>"

theorem primary_run_deletes_sweep_witness:
  "case_dir [''out''] (sample_config ''c'' ''strict_priority'') ''round_robin'' @ [''trace.csv''] \<in> set (fs_files sample_disk) \<and>
   case_dir [''out''] (sample_config ''c'' ''strict_priority'') ''round_robin'' @ [''trace.csv''] \<notin>
     set (fs_files (fst (run_case sample_env (sample_config ''c'' ''strict_priority'') ''strict_priority'' sample_disk)))"
proof -
  let ?c = "sample_config ''c'' ''strict_priority''"
  have p: "primary_policy ?c = ''strict_priority''" "output_dir sample_env = [''out'']"
    "case_dir [''out''] ?c ''strict_priority'' = [''out'', ''model_runs'', ''c'']"
    by (simp_all add: sample_config_def sample_env_def case_dir_def)
  obtain disk1 where "reset_case_dir sample_env [''out'', ''model_runs'', ''c''] sample_disk = (disk1, Inr ())"
    by (simp add: reset_case_dir_def sample_disk_def sample_env_def p case_dir_def)
  then show ?thesis
    using primary_run_deletes_sweep [of sample_env ?c sample_disk disk1 "''round_robin''", unfolded p]
    by (simp add: sample_disk_def)
qed

end
