(* ===== verification/At5_Full_Sample.thy ===== *)
theory At5_Full_Sample
  imports At5_Sample
begin

text \<open>
  A complete run of the AT-5 tool for the witnesses of its run-level properties: a model whose
  traces have 36 transactions per initiator, all at time zero, for every case and policy, except
  the runs that \<open>fail\<close> names, which exit with code 1.
\<close>

definition zero_record :: "string \<Rightarrow> string \<Rightarrow> string \<Rightarrow> string \<Rightarrow> string \<Rightarrow> string list" where
  "zero_record n p iq dq k =
     [n, ''0'', k, ''t'', p, ''0'', ''64'', ''0'', ''0'', ''0'', ''0'', ''0'', ''0'', ''0'', ''0'', ''0'', ''0'', ''0'', ''0'', ''NO'',
      iq, dq, ''0'', ''0'', ''NO'', ''none'', ''0'', ''0'', ''0'', ''0'', ''60'', ''PASS'', ''at5.0'']"

definition zero_records :: "string list \<Rightarrow> string list list" where
  "zero_records cmd = TRACE_FIELDS #
     concat (map (\<lambda>k. replicate 36 (zero_record (cmd ! 2) (cmd ! 4) (cmd ! 6) (cmd ! 8) k)) INITIATORS)"

definition zero_env :: "(string \<Rightarrow> string \<Rightarrow> bool) \<Rightarrow> lab_env" where
  "zero_env fail = \<lparr>model = \<lambda>cmd. if fail (cmd ! 2) (cmd ! 4) then (1, None) else (0, Some (zero_records cmd)),
     is_protected_path = \<lambda>_. False, binary = ''at5'', output_dir = [''out'']\<rparr>"

text \<open>The row of an initiator; \<open>z\<close> collects what does not matter.\<close>

definition zero_row :: "case_config \<Rightarrow> string \<Rightarrow> string \<Rightarrow> csv_row" where
  "zero_row c p k = dict_row TRACE_FIELDS
     (zero_record (case_name c) p (str_int (ingress_queue_capacity c)) (str_int (downstream_queue_capacity c)) k)"

definition zero_rows :: "case_config \<Rightarrow> string \<Rightarrow> csv_row list" where
  "zero_rows c p = concat (map (\<lambda>k. replicate 36 (zero_row c p k)) INITIATORS)"

lemma zero_record_cells:
  "row_get (dict_row TRACE_FIELDS (zero_record n p iq dq k)) ''case_name'' = Some n"
  "row_get (dict_row TRACE_FIELDS (zero_record n p iq dq k)) ''initiator'' = Some k"
  "row_get (dict_row TRACE_FIELDS (zero_record n p iq dq k)) ''policy'' = Some p"
  "row_get (dict_row TRACE_FIELDS (zero_record n p iq dq k)) ''ingress_queue_capacity'' = Some iq"
  "row_get (dict_row TRACE_FIELDS (zero_record n p iq dq k)) ''downstream_queue_capacity'' = Some dq"
  "row_get (dict_row TRACE_FIELDS (zero_record n p iq dq k)) ''service_rate_txn_per_us'' = Some ''60''"
  "row_get (dict_row TRACE_FIELDS (zero_record n p iq dq k)) ''sla_violation'' = Some ''NO''"
  "row_get (dict_row TRACE_FIELDS (zero_record n p iq dq k)) ''queue_full_event'' = Some ''NO''"
  "row_get (dict_row TRACE_FIELDS (zero_record n p iq dq k)) ''queue_full_source'' = Some ''none''"
  "row_get (dict_row TRACE_FIELDS (zero_record n p iq dq k)) ''claim_boundary'' = Some ''PASS''"
  "row_get (dict_row TRACE_FIELDS (zero_record n p iq dq k)) ''schema_version'' = Some ''at5.0''"
  by code_simp+

definition ZERO_FIELDS :: "string list" where
  "ZERO_FIELDS = TIME_FIELDS @ [''total_latency_ns'', ''sla_target_ns'', ''backpressure_stall_ns'', ''initiator_blocked_ns'',
     ''memory_service_latency_ns'', ''observed_service_time_ns'']"

lemma zero_record_times: "list_all (\<lambda>f. row_get (dict_row TRACE_FIELDS (zero_record n p iq dq k)) f = Some ''0'') ZERO_FIELDS"
  by code_simp

lemma zero_cells:
  "row_get (zero_row c p k) ''case_name'' = Some (case_name c)" "row_get (zero_row c p k) ''initiator'' = Some k"
  "row_get (zero_row c p k) ''policy'' = Some p"
  "row_get (zero_row c p k) ''ingress_queue_capacity'' = Some (str_int (ingress_queue_capacity c))"
  "row_get (zero_row c p k) ''downstream_queue_capacity'' = Some (str_int (downstream_queue_capacity c))"
  "row_get (zero_row c p k) ''sla_violation'' = Some ''NO''" "row_get (zero_row c p k) ''queue_full_event'' = Some ''NO''"
  "row_get (zero_row c p k) ''queue_full_source'' = Some ''none''" "row_get (zero_row c p k) ''claim_boundary'' = Some ''PASS''"
  "row_get (zero_row c p k) ''schema_version'' = Some ''at5.0''"
  by (simp_all add: zero_row_def zero_record_cells)

lemma zero_parses: "parse_float ''0'' = Some f_zero" "is_finite f_zero" "num (zero_row c p k) ''service_rate_txn_per_us'' = Inr (flit 60 1)"
proof -
  show "parse_float ''0'' = Some f_zero" "is_finite f_zero" by code_simp+
  show "num (zero_row c p k) ''service_rate_txn_per_us'' = Inr (flit 60 1)"
    using sample_parses by (simp add: num_def zero_row_def zero_record_cells opt_or_raise_def raise_if_def)
qed

lemma zero_num: "f \<in> set ZERO_FIELDS \<Longrightarrow> num (zero_row c p k) f = Inr f_zero"
  using zero_record_times zero_parses by (simp add: list_all_iff num_def zero_row_def opt_or_raise_def raise_if_def)

lemma zero_fields: "list_all (\<lambda>f. f \<in> set ZERO_FIELDS) ([''total_latency_ns'', ''sla_target_ns'', ''backpressure_stall_ns'',
    ''initiator_blocked_ns'', ''memory_service_latency_ns'', ''observed_service_time_ns'', ''begin_req_ns'', ''end_resp_ns''] @ TIME_FIELDS)"
  by code_simp

lemma zero_read: "read_trace path (zero_records cmd) =
    Inr (concat (map (\<lambda>k. replicate 36 (dict_row TRACE_FIELDS (zero_record (cmd ! 2) (cmd ! 4) (cmd ! 6) (cmd ! 8) k))) INITIATORS))"
proof -
  have "zero_record n p iq dq k \<noteq> []" for n p iq dq k by (simp add: zero_record_def)
  then show ?thesis
    by (simp add: read_trace_def zero_records_def reader_fieldnames_def raise_if_def dict_reader_def INITIATORS_def
        filter_replicate map_replicate)
qed

definition zero_case :: "case_config \<Rightarrow> bool" where
  "zero_case c \<longleftrightarrow> num_transactions_per_initiator c = 36 \<and>
     py_int10 (str_int (ingress_queue_capacity c)) = Some (ingress_queue_capacity c) \<and>
     py_int10 (str_int (downstream_queue_capacity c)) = Some (downstream_queue_capacity c) \<and>
     \<not> f_lt (accel_burst_sla_target_ns c) f_zero"

lemma zero_cases: "list_all zero_case CASES"
  by code_simp

lemma zero_times_ok: "well_timed (zero_row c p k)"
proof -
  have ts: "mapR (num (zero_row c p k)) TIME_FIELDS = Inr (replicate 9 f_zero)"
    using mapR_Inr_total [of TIME_FIELDS "num (zero_row c p k)" "\<lambda>_. f_zero"] zero_fields zero_num
    by (simp add: list_all_iff TIME_FIELDS_def eval_nat_numeral)
  have "sorted_wrt f_le (replicate 9 f_zero)" "f_le (f_abs (f_sub (f_sub f_zero f_zero) f_zero)) (flit 2 1000)"
    by code_simp+
  moreover have "num (zero_row c p k) ''total_latency_ns'' = Inr f_zero" using zero_fields zero_num by simp
  ultimately show ?thesis unfolding well_timed_def using ts by force
qed

lemma zero_valid:
  assumes "zero_case c"
  shows "validate_trace c p (zero_rows c p) = Inr ()"
  using assms zero_times_ok
  by (simp add: validate_trace_iff valid_trace_def zero_rows_def INITIATORS_def well_labelled_def zero_cells cell_is_def
      filter_replicate int_cell_def opt_or_raise_def zero_case_def SCHEMA_VERSION_def)

section \<open>Its metrics\<close>

lemma repeated:
  "py_max (replicate (Suc n) f_zero) = Inr f_zero" "py_min (replicate (Suc n) f_zero) = Inr f_zero"
  "py_fsum (replicate n f_zero) = f_zero" "py_sorted f_lt (replicate n x) = replicate n x"
proof -
  have mx: "fmax_from f_zero (replicate n f_zero) = f_zero" "fmin_from f_zero (replicate n f_zero) = f_zero"
    by (induction n) simp_all
  then show "py_max (replicate (Suc n) f_zero) = Inr f_zero" "py_min (replicate (Suc n) f_zero) = Inr f_zero"
    by (simp_all add: py_max_def py_min_def)
  have step: "sum_step (f_zero, f_zero) f_zero = (f_zero, f_zero)" "sum_finish (f_zero, f_zero) = f_zero"
    "f_add f_zero f_zero = f_zero" by code_simp+
  then have "foldl sum_step (f_zero, f_zero) (replicate m f_zero) = (f_zero, f_zero)" for m by (induction m) simp_all
  then show "py_fsum (replicate n f_zero) = f_zero" using step by (cases n) (simp_all add: py_fsum_def)
  have ins: "py_insert f_lt x (replicate m x) = x # replicate m x" for m by (cases m) simp_all
  show "py_sorted f_lt (replicate n x) = replicate n x" by (induction n) (simp_all add: ins)
qed

lemma zero_nums:
  assumes "f \<in> set ZERO_FIELDS"
  shows "nums f (replicate m (zero_row c p k)) = Inr (replicate m f_zero)"
    and "nums f (zero_rows c p) = Inr (replicate 108 f_zero)"
proof -
  show "nums f (replicate m (zero_row c p k)) = Inr (replicate m f_zero)"
    using zero_num [OF assms] by (induction m) (simp_all add: nums_def)
  have "nums f (zero_rows c p) = Inr (map (\<lambda>_. f_zero) (zero_rows c p))"
    unfolding nums_def using zero_num [OF assms] by (intro mapR_Inr_total) (auto simp: zero_rows_def INITIATORS_def)
  then show "nums f (zero_rows c p) = Inr (replicate 108 f_zero)"
    by (simp add: map_replicate_const zero_rows_def INITIATORS_def)
qed

lemma zero_floats:
  "ratio (f_mul (count_float 36) (flit 1000 1)) (f_sub f_zero f_zero) = Inr f_zero"
  "ratio (f_mul (count_float 108) (flit 1000 1)) (f_sub f_zero f_zero) = Inr f_zero"
  "ratio f_zero (f_sub f_zero f_zero) = Inr f_zero" "ratio f_zero f_zero = Inr f_zero" "clamp f_zero = f_zero"
  "bindR (ratio f_zero (flit 60 1)) (\<lambda>r. Inr (fmin_from (flit 2 1) [r])) = Inr f_zero"
  "ratio_int 0 36 = Inr f_zero" "ratio_int 0 108 = Inr f_zero"
  "f_le (f_mul (count_float 3) (py_fsum (map (\<lambda>v. f_mul v v) [f_zero, f_zero, f_zero]))) f_zero"
  "f_div f_zero (count_float 36) = Inr f_zero"
  "py_max [f_zero, f_zero, f_zero] = Inr f_zero"
  "starvation_of f_zero f_zero f_zero = Inr f_zero"
  by code_simp+

lemma zero_percentiles:
  assumes "k \<in> {50, 95, 99}"
  shows "percentile (replicate 36 f_zero) (flit k 100) = Inr f_zero"
proof -
  obtain m e where p: "flit k 100 = Fin False m e" "0 \<le> m" "mag m e \<le> 1" using pct_value [of k] assms by auto
  show ?thesis
    using percentile_at [OF p, of "replicate 36 f_zero"] rank_at_less [of 36 "mag m e"] by (simp add: repeated(4))
qed

definition zero_group :: "case_config \<Rightarrow> string \<Rightarrow> groups \<Rightarrow> bool" where
  "zero_group c p g \<longleftrightarrow> group_by_initiator (zero_rows c p) = Inr g \<and>
     (\<forall>k \<in> set INITIATORS. group_of g k = replicate 36 (zero_row c p k))"

lemma zero_grouped: "\<exists>g. zero_group c p g"
proof -
  have "\<forall>row \<in> set (zero_rows c p). \<exists>i \<in> set INITIATORS. row_get row ''initiator'' = Some i"
    by (auto simp: zero_rows_def INITIATORS_def zero_cells)
  then obtain g where g: "group_by_initiator (zero_rows c p) = Inr g" using group_total by blast
  have "filter (cell_is ''initiator'' k) (zero_rows c p) = replicate 36 (zero_row c p k)" if "k \<in> set INITIATORS" for k
    using that by (auto simp: zero_rows_def INITIATORS_def cell_is_def filter_replicate zero_cells)
  then show ?thesis using g group_by_initiator_eq(2) [OF g] unfolding zero_group_def by auto
qed

lemma zero_counts:
  "count_cells ''sla_violation'' ''YES'' (replicate m (zero_row c p k)) = 0"
  "count_cells ''queue_full_event'' ''YES'' (replicate m (zero_row c p k)) = 0"
  "count_cells ''queue_full_event'' ''YES'' (zero_rows c p) = 0" "length (zero_rows c p) = 108" "zero_rows c p \<noteq> []"
  "hd (zero_rows c p) = zero_row c p ''cpu_rt''"
  by (simp_all add: count_cells_def cell_is_def zero_rows_def zero_cells INITIATORS_def filter_replicate)

lemma zero_rates:
  "throughput (replicate 36 (zero_row c p k)) = Inr f_zero" "throughput (zero_rows c p) = Inr f_zero"
  "service_utilization (zero_rows c p) = Inr f_zero" "saturation_ratio (zero_rows c p) = Inr f_zero"
  "violation_ratio (replicate 36 (zero_row c p k)) = Inr f_zero"
proof -
  have f: "''begin_req_ns'' \<in> set ZERO_FIELDS" "''end_resp_ns'' \<in> set ZERO_FIELDS" "''observed_service_time_ns'' \<in> set ZERO_FIELDS"
    using zero_fields by simp_all
  note n = zero_nums(1) [OF f(1)] zero_nums(2) [OF f(1)] zero_nums(1) [OF f(2)] zero_nums(2) [OF f(2)] zero_nums(2) [OF f(3)]
  have m: "py_max (replicate 36 f_zero) = Inr f_zero" "py_min (replicate 36 f_zero) = Inr f_zero"
    "py_max (replicate 108 f_zero) = Inr f_zero" "py_min (replicate 108 f_zero) = Inr f_zero"
    using repeated(1) [of 35] repeated(2) [of 35] repeated(1) [of 107] repeated(2) [of 107] by simp_all
  show "throughput (replicate 36 (zero_row c p k)) = Inr f_zero" "throughput (zero_rows c p) = Inr f_zero"
    "service_utilization (zero_rows c p) = Inr f_zero" "saturation_ratio (zero_rows c p) = Inr f_zero"
    using zero_floats
    by (simp_all add: throughput_def service_utilization_def saturation_ratio_def offered_rate_def n m zero_counts repeated(3) zero_parses)
  show "violation_ratio (replicate 36 (zero_row c p k)) = Inr f_zero"
    using zero_floats by (simp add: violation_ratio_def zero_counts)
qed

lemma zero_score:
  "bindR (f_div (f_sub f_zero (flit 72 100)) (flit 28 100)) (\<lambda>q.
     Inr (clamp (foldl f_add (weighted 34 f_zero)
       [weighted 22 (clamp q), weighted 18 f_zero, weighted 14 (f_sub (flit 1 1) f_zero),
        weighted 8 f_zero, weighted 4 f_zero]))) = Inr (flit 14 100)"
  by code_simp

lemma zero_members: "''cpu_rt'' \<in> set INITIATORS" "''dma_bulk'' \<in> set INITIATORS" "''accel_burst'' \<in> set INITIATORS"
  by (simp_all add: INITIATORS_def)

lemma zero_fairness:
  assumes "zero_group c p g"
  shows "fairness_index g = Inr f_zero"
proof -
  have "group_of g k = replicate 36 (zero_row c p k)" if "k \<in> set INITIATORS" for k
    using assms that by (simp add: zero_group_def)
  then have "mapR (\<lambda>k. throughput (group_of g k)) INITIATORS = Inr [f_zero, f_zero, f_zero]"
    by (simp add: INITIATORS_def zero_rates)
  then show ?thesis using zero_floats by (simp add: fairness_index_def eval_nat_numeral)
qed

lemma zero_collapse: "collapse_score (zero_rows c p) c = Inr (flit 14 100)"
proof -
  obtain g where g: "zero_group c p g" using zero_grouped by blast
  have n: "nums ''backpressure_stall_ns'' (zero_rows c p) = Inr (replicate 108 f_zero)"
    "nums ''total_latency_ns'' (zero_rows c p) = Inr (replicate 108 f_zero)"
    using zero_nums(2) zero_fields by simp_all
  have v: "violation_ratio (group_of g ''cpu_rt'') = Inr f_zero" "violation_ratio (group_of g ''accel_burst'') = Inr f_zero"
    using g zero_members by (simp_all add: zero_group_def zero_rates)
  have gr: "group_by_initiator (zero_rows c p) = Inr g" using g by (simp add: zero_group_def)
  show ?thesis
    using zero_score zero_floats
    by (simp add: collapse_score_def gr v zero_fairness [OF g] zero_counts n repeated(3) zero_rates Let_def)
qed

lemma zero_metrics: "system_metrics (zero_rows c p) c = Inr
    \<lparr>cm_service_utilization = f_zero, cm_saturation_ratio = f_zero, cm_fairness_index = f_zero, cm_collapse_score = flit 14 100\<rparr>"
proof -
  obtain g where g: "zero_group c p g" using zero_grouped by blast
  then have "group_by_initiator (zero_rows c p) = Inr g" by (simp add: zero_group_def)
  then show ?thesis by (simp add: system_metrics_def zero_rates zero_fairness [OF g] zero_collapse)
qed

lemma zero_bottleneck:
  assumes "zero_case c"
  shows "dominant_bottleneck (zero_rows c p) c = Inr ''qos_fairness_starvation''"
proof -
  obtain g where g: "zero_group c p g" using zero_grouped by blast
  then have gr: "group_by_initiator (zero_rows c p) = Inr g" "group_of g ''cpu_rt'' = replicate 36 (zero_row c p ''cpu_rt'')"
    "group_of g ''accel_burst'' = replicate 36 (zero_row c p ''accel_burst'')"
    using zero_members by (simp_all add: zero_group_def)
  have n: "nums ''total_latency_ns'' (replicate 36 (zero_row c p k)) = Inr (replicate 36 f_zero)" for k
    using zero_nums(1) zero_fields by simp
  have t: "\<not> f_le (flit 92 100) f_zero" "\<not> f_le (f_mul (count_float 108) (flit 10 100)) (count_float 0)" "f_lt f_zero (flit 72 100)"
    by code_simp+
  have p: "percentile (replicate 36 f_zero) (flit 99 100) = Inr f_zero" by (rule zero_percentiles) simp
  have "\<not> f_lt (accel_burst_sla_target_ns c) f_zero" using assms by (simp add: zero_case_def)
  then show ?thesis
    using t zero_floats zero_counts
    by (simp add: dominant_bottleneck_def gr zero_rates n p zero_fairness [OF g] Let_def)
qed

section \<open>Its rows\<close>

definition zero_action :: "string \<Rightarrow> string \<Rightarrow> string" where
  "zero_action name policy =
     (if name = ''bursty_accel_tail_spike'' then ''shape_accel_bursts''
      else if policy = ''strict_priority'' then ''use_weighted_priority''
      else if policy = ''throttled_dma'' then ''throttle_dma_bulk''
      else ''no_single_dominant_action'')"

definition zero_policy_row :: "string \<Rightarrow> string \<Rightarrow> policy_row" where
  "zero_policy_row name policy =
     \<lparr>p_case_name = name, p_policy = policy, p_cpu_rt_p95_ns = ''0.000'',
      p_cpu_rt_sla_violation_ratio = ''0.000'', p_dma_bulk_throughput_txn_per_us = ''0.000'',
      p_accel_burst_p99_ns = ''0.000'', p_system_throughput_txn_per_us = ''0.000'',
      p_service_utilization = ''0.000'', p_queue_full_events = ''0'', p_backpressure_stall_ns = ''0.000'',
      p_fairness_index = ''0.000'', p_collapse_score = ''0.140'',
      p_dominant_bottleneck = ''qos_fairness_starvation'', p_recommended_action = zero_action name policy,
      p_claim_boundary = ''PASS'', p_schema_version = SCHEMA_VERSION\<rparr>"

lemma zero_texts: "fmt3 (flit 14 100) = ''0.140''" "to_float ''0.140'' = Inr (flit 14 100)"
    "\<not> f_le (flit 75 100) f_zero" "f_lt f_zero (flit 75 100)" "\<not> f_le (flit 78 100) f_zero"
  by code_simp+

lemma zero_aggregate:
  assumes "zero_case c"
  shows "aggregate_policy_row c p (zero_rows c p) = Inr (zero_policy_row (case_name c) p)"
proof -
  obtain g where g: "zero_group c p g" using zero_grouped by blast
  then have gr: "group_by_initiator (zero_rows c p) = Inr g" "group_of g ''cpu_rt'' = replicate 36 (zero_row c p ''cpu_rt'')"
    "group_of g ''dma_bulk'' = replicate 36 (zero_row c p ''dma_bulk'')"
    "group_of g ''accel_burst'' = replicate 36 (zero_row c p ''accel_burst'')"
    using zero_members by (simp_all add: zero_group_def)
  have n: "nums ''total_latency_ns'' (replicate 36 (zero_row c p k)) = Inr (replicate 36 f_zero)" for k
    using zero_nums(1) zero_fields by simp
  have s: "nums ''backpressure_stall_ns'' (zero_rows c p) = Inr (replicate 108 f_zero)" using zero_nums(2) zero_fields by simp
  have pc: "percentile (replicate 36 f_zero) (flit 99 100) = Inr f_zero" "percentile (replicate 36 f_zero) (flit 95 100) = Inr f_zero"
    by (rule zero_percentiles; simp)+
  have a: "zero_action (case_name c) p \<in> set ALLOWED_ACTIONS" by (simp add: zero_action_def ALLOWED_ACTIONS_def)
  have act: "policy_action c r = Inr (zero_action (case_name c) p)"
    if "p_policy r = p" "p_dominant_bottleneck r = ''qos_fairness_starvation''" "p_cpu_rt_sla_violation_ratio r = ''0.000''"
      "p_fairness_index r = ''0.000''" "p_queue_full_events r = ''0''" "p_service_utilization r = ''0.000''" for r
    using that by (simp add: policy_action_def sample_texts zero_texts zero_action_def)
  show ?thesis
    by (simp add: aggregate_policy_row_def gr n s pc zero_rates zero_metrics zero_bottleneck [OF assms] zero_counts repeated(3)
        sample_texts zero_texts act raise_if_def a zero_policy_row_def)
qed

lemma zero_summary:
  assumes "zero_case c"
  shows "\<exists>ss. summarize_case c (zero_rows c p) = Inr ss"
proof -
  obtain g where g: "zero_group c p g" using zero_grouped by blast
  then have gr: "group_by_initiator (zero_rows c p) = Inr g" "group_of g ''cpu_rt'' = replicate 36 (zero_row c p ''cpu_rt'')"
    "group_of g ''dma_bulk'' = replicate 36 (zero_row c p ''dma_bulk'')"
    "group_of g ''accel_burst'' = replicate 36 (zero_row c p ''accel_burst'')"
    using zero_members by (simp_all add: zero_group_def)
  have n: "nums f (replicate 36 (zero_row c p k)) = Inr (replicate 36 f_zero)"
    if "f \<in> {''total_latency_ns'', ''backpressure_stall_ns'', ''initiator_blocked_ns''}" for k f
    using zero_nums(1) zero_fields that by auto
  have one: "num (zero_row c p k) f = Inr f_zero" if "f \<in> {''sla_target_ns'', ''memory_service_latency_ns''}" for k f
    using zero_num zero_fields that by auto
  have pc: "percentile (replicate 36 f_zero) (flit k 100) = Inr f_zero" if "k \<in> {50, 95, 99}" for k
    using zero_percentiles that .
  have a: "average (replicate 36 f_zero) = Inr f_zero" using zero_floats by (simp add: average_def repeated(3))
  have first: "first_row (replicate 36 r) = Inr r" for r by (simp add: first_row_def eval_nat_numeral)
  have row: "\<exists>s. summary_of_initiator c m b f_zero k (replicate 36 (zero_row c p i)) f_zero = Inr s" for m b k i
    using zero_floats by (simp add: summary_of_initiator_def n one pc a first zero_rates)
  have ts: "mapR (\<lambda>k. throughput (group_of g k)) INITIATORS = Inr [f_zero, f_zero, f_zero]"
    using gr by (simp add: INITIATORS_def zero_rates)
  have "\<exists>ss. mapR (\<lambda>(k, mine). summary_of_initiator c m b f_zero k (group_of g k) mine)
      (zip INITIATORS [f_zero, f_zero, f_zero]) = Inr ss" for m b
    by (rule mapR_total) (use row gr in \<open>auto simp: INITIATORS_def\<close>)
  then show ?thesis
    using zero_floats by (simp add: summarize_case_def gr(1) zero_metrics zero_bottleneck [OF assms] ts)
qed

section \<open>Its run\<close>

lemma zero_best: "best_policy (map (zero_policy_row n) POLICIES) = Inr ''round_robin''"
proof -
  have "score (zero_policy_row n p) = Inr (flit 14 100, f_zero, f_zero)" for p
    by (simp add: score_def zero_policy_row_def sample_texts zero_texts)
  moreover have "\<not> score_lt (flit 14 100, f_zero, f_zero) (flit 14 100, f_zero, f_zero)" by code_simp
  ultimately show ?thesis
    by (simp add: best_policy_def best_policy_row_def POLICIES_def) (simp add: zero_policy_row_def)
qed

lemma zero_by_policy: "list_all (\<lambda>p. by_policy (map (zero_policy_row n) POLICIES) p = Inr (zero_policy_row n p)) POLICIES"
proof -
  have "map_of (rev (map (\<lambda>r. (p_policy r, r)) (map (zero_policy_row n) POLICIES))) p =
      map_of (rev (map (\<lambda>p. (p, zero_policy_row n p)) POLICIES)) p" for p
    by (simp add: comp_def zero_policy_row_def)
  moreover have "map_of (rev (map (\<lambda>p. (p, zero_policy_row n p)) POLICIES)) p = Some (zero_policy_row n p)" if "p \<in> set POLICIES" for p
    using that POLICIES_distinct by (simp add: map_of_eq_Some_iff rev_map [symmetric] comp_def)
  ultimately show ?thesis by (simp add: list_all_iff by_policy_def opt_or_raise_def)
qed

lemma zero_extremes: "policy_extremes (map (zero_policy_row n) POLICIES) = Inr (f_zero, f_zero, 0, f_zero)"
proof -
  have "py_max [f_zero, f_zero, f_zero, f_zero, f_zero] = Inr f_zero" "py_min [f_zero, f_zero, f_zero, f_zero, f_zero] = Inr f_zero"
    by code_simp+
  then show ?thesis
    by (simp add: policy_extremes_def POLICIES_def zero_policy_row_def sample_texts raise_if_def)
qed

lemma zero_choice:
  "\<exists>ch. choose_case c f_zero f_zero f_zero 0 (zero_policy_row n ''round_robin'') (zero_policy_row n ''throttled_dma'')
      (zero_policy_row n ''backpressure_aware'') ''round_robin'' (zero_policy_row n ''round_robin'') = Inr ch \<and>
    ch_action ch \<in> set ALLOWED_ACTIONS"
proof -
  have "zero_action n ''round_robin'' \<in> set ALLOWED_ACTIONS" by (simp add: zero_action_def ALLOWED_ACTIONS_def)
  then have a: "p_recommended_action (zero_policy_row n ''round_robin'') \<in> set ALLOWED_ACTIONS" by (simp add: zero_policy_row_def)
  have t: "to_float (p_cpu_rt_sla_violation_ratio (zero_policy_row n p)) = Inr f_zero" for p
    by (simp add: zero_policy_row_def sample_texts)
  have "\<not> f_lt (flit 5 1) f_zero" by code_simp
  then have "\<exists>ch. choose_case c f_zero f_zero f_zero 0 (zero_policy_row n ''round_robin'') (zero_policy_row n ''throttled_dma'')
      (zero_policy_row n ''backpressure_aware'') ''round_robin'' (zero_policy_row n ''round_robin'') = Inr ch"
    by (cases "case_name c = ''throttled_dma_recovers_sla''") (simp_all add: choose_case_def Let_def t)
  then show ?thesis using choose_case_action [OF _ a] by blast
qed

lemma zero_divisors: "\<not> f_is_zero (flit 108 1)" "\<not> f_is_zero (flit 5000 1)" "float_of_int 0 = Inr f_zero"
  by code_simp+

lemma zero_recommendation: "\<exists>rec. make_recommendation c (map (zero_policy_row n) POLICIES) = Inr rec"
proof -
  let ?prs = "map (zero_policy_row n) POLICIES"
  have b: "by_policy ?prs ''strict_priority'' = Inr (zero_policy_row n ''strict_priority'')"
    "by_policy ?prs ''round_robin'' = Inr (zero_policy_row n ''round_robin'')"
    "by_policy ?prs ''throttled_dma'' = Inr (zero_policy_row n ''throttled_dma'')"
    "by_policy ?prs ''backpressure_aware'' = Inr (zero_policy_row n ''backpressure_aware'')"
    using zero_by_policy [of n] by (simp_all add: list_all_iff POLICIES_def)
  have z: "f_sub f_zero f_zero = f_zero" by code_simp
  have g: "text_gain (p_cpu_rt_p95_ns (zero_policy_row n p)) (p_cpu_rt_p95_ns (zero_policy_row n q)) = Inr f_zero"
    "text_gain (p_dma_bulk_throughput_txn_per_us (zero_policy_row n p)) (p_dma_bulk_throughput_txn_per_us (zero_policy_row n q)) = Inr f_zero"
    for p q by (simp_all add: text_gain_def zero_policy_row_def sample_texts z)
  obtain ch where ch: "choose_case c f_zero f_zero f_zero 0 (zero_policy_row n ''round_robin'') (zero_policy_row n ''throttled_dma'')
      (zero_policy_row n ''backpressure_aware'') ''round_robin'' (zero_policy_row n ''round_robin'') = Inr ch"
    "ch_action ch \<in> set ALLOWED_ACTIONS" using zero_choice by blast
  have m: "mapR (\<lambda>row. to_float (p_backpressure_stall_ns row)) ?prs = Inr [f_zero, f_zero, f_zero, f_zero, f_zero]"
    "py_max [f_zero, f_zero, f_zero, f_zero, f_zero] = Inr f_zero"
    by (simp add: POLICIES_def zero_policy_row_def sample_texts, code_simp)
  have x: "\<exists>x. bindR (float_of_int 0) (\<lambda>q. f_div q (flit 108 1)) = Inr x" "\<exists>y. f_div f_zero (flit 5000 1) = Inr y"
    using f_div_total [of "flit 108 1"] f_div_total [of "flit 5000 1"] zero_divisors by auto
  show ?thesis
    by (simp add: make_recommendation_def zero_best b zero_extremes g ch raise_if_def m)
      (use x in auto)
qed

definition files_ok :: "fs \<Rightarrow> bool" where
  "files_ok st \<longleftrightarrow> (\<forall>q \<in> set (fs_files st). last q \<in> {''trace.csv'', ''model.stdout.txt'', ''model.stderr.txt''})"

lemma plain_names: "list_all (\<lambda>n. n \<notin> {''trace.csv'', ''model.stdout.txt'', ''model.stderr.txt''}) (map case_name CASES @ POLICIES)"
  by code_simp

lemma files_ok_kept:
  "files_ok st \<Longrightarrow> files_ok (mkdir_parents d st)" "files_ok st \<Longrightarrow> files_ok (rmtree d st)"
  "files_ok st \<Longrightarrow> f \<in> {''trace.csv'', ''model.stdout.txt'', ''model.stderr.txt''} \<Longrightarrow> files_ok (write_file (d @ [f]) st)"
  by (auto simp: files_ok_def mkdir_parents_def rmtree_def write_file_def)

lemma zero_reset:
  assumes "files_ok st" and "c \<in> set CASES" and "p \<in> set POLICIES"
  shows "\<exists>st'. reset_case_dir (zero_env fail) (case_dir [''out''] c p) st = (st', Inr ()) \<and> files_ok st'"
proof -
  have "last (case_dir [''out''] c p) \<in> set (map case_name CASES @ POLICIES)"
    using assms(2,3) by (auto simp: case_dir_def)
  then have "case_dir [''out''] c p \<notin> set (fs_files st)"
    using plain_names assms(1) unfolding list_all_iff files_ok_def by blast
  then show ?thesis using assms(1) files_ok_kept by (auto simp: reset_case_dir_def zero_env_def)
qed

lemma zero_run:
  assumes "files_ok st" and "c \<in> set CASES" and "p \<in> set POLICIES"
  shows "\<exists>st' path cmd m. run_case (zero_env fail) c p st = (st', if fail (case_name c) p then Inl (DemoError m) else Inr (path, zero_records cmd)) \<and>
    files_ok st' \<and> cmd ! 2 = case_name c \<and> cmd ! 4 = p \<and> cmd ! 6 = str_int (ingress_queue_capacity c) \<and>
    cmd ! 8 = str_int (downstream_queue_capacity c)"
proof -
  let ?d = "case_dir [''out''] c p" and ?cmd = "case_command ''at5'' (case_dir [''out''] c p) c p"
  obtain st' where r: "reset_case_dir (zero_env fail) ?d st = (st', Inr ())" "files_ok st'" using zero_reset [OF assms] by blast
  have e: "output_dir (zero_env fail) = [''out'']" "binary (zero_env fail) = ''at5''"
    "model (zero_env fail) cmd = (if fail (cmd ! 2) (cmd ! 4) then (1, None) else (0, Some (zero_records cmd)))" for cmd
    by (simp_all add: zero_env_def)
  have c: "?cmd ! 2 = case_name c" "?cmd ! 4 = p" "?cmd ! 6 = str_int (ingress_queue_capacity c)"
    "?cmd ! 8 = str_int (downstream_queue_capacity c)"
    by (simp_all add: case_command_def)
  have k: "files_ok (write_file (?d @ [''model.stderr.txt'']) (write_file (?d @ [''model.stdout.txt'']) st'))"
    "files_ok (write_file (?d @ [''model.stderr.txt'']) (write_file (?d @ [''model.stdout.txt'']) (write_file (?d @ [''trace.csv'']) st')))"
    using r(2) by (intro files_ok_kept; simp)+
  show ?thesis
  proof (cases "fail (case_name c) p")
    case True
    then show ?thesis using k(1) c r(1) by (simp add: run_case_def e Let_def at_case_def) blast
  next
    case False
    then show ?thesis using k(2) c r(1) by (simp add: run_case_def e Let_def) blast
  qed
qed

lemma zero_evaluate:
  assumes "c \<in> set CASES" and "cmd ! 2 = case_name c" and "cmd ! 4 = p" and "cmd ! 6 = str_int (ingress_queue_capacity c)"
    and "cmd ! 8 = str_int (downstream_queue_capacity c)"
  shows "evaluate_trace c p (path, zero_records cmd) = Inr (zero_rows c p, zero_policy_row (case_name c) p)"
proof -
  have z: "zero_case c" using zero_cases assms(1) by (auto simp: list_all_iff)
  have "read_trace (str_path path) (zero_records cmd) = Inr (zero_rows c p)"
    using assms(2-5) by (simp add: zero_read zero_rows_def zero_row_def)
  then show ?thesis by (simp add: evaluate_trace_def zero_valid [OF z] zero_aggregate [OF z])
qed

lemma zero_policy:
  assumes "files_ok (st_fs st)" and "c \<in> set CASES" and "p \<in> set POLICIES"
  shows "\<exists>st' m. run_policy (zero_env fail) c p st =
      (st', if fail (case_name c) p then Inl (DemoError m) else Inr (zero_policy_row (case_name c) p)) \<and> files_ok (st_fs st') \<and>
    st_policies st' = st_policies st @ (if fail (case_name c) p then [] else [zero_policy_row (case_name c) p])"
proof -
  have z: "zero_case c" using zero_cases assms(2) by (auto simp: list_all_iff)
  obtain fs' path cmd m where r: "run_case (zero_env fail) c p (st_fs st) =
      (fs', if fail (case_name c) p then Inl (DemoError m) else Inr (path, zero_records cmd))" "files_ok fs'"
    "cmd ! 2 = case_name c" "cmd ! 4 = p" "cmd ! 6 = str_int (ingress_queue_capacity c)"
    "cmd ! 8 = str_int (downstream_queue_capacity c)" using zero_run [OF assms] by blast
  obtain ss where "summarize_case c (zero_rows c p) = Inr ss" using zero_summary [OF z] by blast
  then show ?thesis
    using r(1,2) zero_evaluate [OF assms(2) r(3-6)] by (auto simp: run_policy_def Let_def)
qed

lemma zero_policies:
  assumes "files_ok (st_fs st)" and "c \<in> set CASES" and "set ps \<subseteq> set POLICIES" and "\<forall>p. \<not> fail (case_name c) p"
  shows "\<exists>st'. run_policies (zero_env fail) c ps st = (st', Inr (map (zero_policy_row (case_name c)) ps)) \<and> files_ok (st_fs st')"
  using assms(1,3)
proof (induction ps arbitrary: st)
  case (Cons p ps)
  obtain st1 where s: "run_policy (zero_env fail) c p st = (st1, Inr (zero_policy_row (case_name c) p))" "files_ok (st_fs st1)"
    using zero_policy [OF Cons.prems(1) assms(2), of p fail] Cons.prems(2) assms(4) by auto
  obtain st2 where "run_policies (zero_env fail) c ps st1 = (st2, Inr (map (zero_policy_row (case_name c)) ps))" "files_ok (st_fs st2)"
    using Cons.IH [OF s(2)] Cons.prems(2) by auto
  then show ?case using s by simp
qed simp

lemma zero_one_case:
  assumes "files_ok (st_fs st)" and "c \<in> set CASES" and "\<forall>p. \<not> fail (case_name c) p"
  shows "\<exists>st'. run_one_case (zero_env fail) c st = (st', Inr ()) \<and> files_ok (st_fs st')"
proof -
  obtain st1 where "run_policies (zero_env fail) c POLICIES st = (st1, Inr (map (zero_policy_row (case_name c)) POLICIES))"
    "files_ok (st_fs st1)" using zero_policies [OF assms(1,2), of POLICIES fail] assms(3) by blast
  moreover obtain rec where "make_recommendation c (map (zero_policy_row (case_name c)) POLICIES) = Inr rec"
    using zero_recommendation by blast
  ultimately show ?thesis by (simp add: run_one_case_def)
qed

lemma zero_cases_run:
  assumes "files_ok (st_fs st)" and "set cs \<subseteq> set CASES" and "\<forall>c \<in> set cs. \<forall>p. \<not> fail (case_name c) p"
  shows "\<exists>st'. run_cases (zero_env fail) keep_going cs st = (st', Inr ()) \<and> st_failures st' = st_failures st"
  using assms
proof (induction cs arbitrary: st)
  case (Cons c cs)
  obtain st1 where s: "run_one_case (zero_env fail) c st = (st1, Inr ())" "files_ok (st_fs st1)"
    using zero_one_case [of st c fail] Cons.prems by auto
  show ?case using Cons.IH [OF s(2)] Cons.prems s(1) one_case_failures [OF s(1)] by simp
qed simp

definition empty_disk :: fs where
  "empty_disk = \<lparr>fs_dirs = [[''out'']], fs_files = []\<rparr>"

theorem completed_run_shape_witness:
  "\<exists>st. run_cases (zero_env (\<lambda>_ _. False)) False CASES (initial_state empty_disk) = (st, Inr ()) \<and>
     shape_checks (length (st_traces st)) (st_summaries st) (st_policies st) (st_recommendations st) = Inr ()"
proof -
  have "files_ok (st_fs (initial_state empty_disk))" by (simp add: files_ok_def initial_state_def empty_disk_def)
  then obtain st where "run_cases (zero_env (\<lambda>_ _. False)) False CASES (initial_state empty_disk) = (st, Inr ())" "st_failures st = []"
    using zero_cases_run [of "initial_state empty_disk" CASES "\<lambda>_ _. False" False] by (auto simp: initial_state_def)
  then show ?thesis using completed_run_shape by blast
qed

text \<open>One failing run, the second policy of the first case.\<close>

definition one_failure :: "string \<Rightarrow> string \<Rightarrow> bool" where
  "one_failure name policy \<longleftrightarrow> name = ''baseline_balanced_rr'' \<and> policy = ''strict_priority''"

lemma first_case:
  "CASES = hd CASES # tl CASES" "case_name (hd CASES) = ''baseline_balanced_rr''"
  "primary_policy (hd CASES) = ''round_robin''" "''baseline_balanced_rr'' \<notin> case_name ` set (tl CASES)"
  "POLICIES = ''round_robin'' # ''strict_priority'' # drop 2 POLICIES"
  by (simp_all add: CASES_def POLICIES_def)

lemma one_failure_case:
  assumes "files_ok (st_fs st)"
  shows "\<exists>st' m. run_one_case (zero_env one_failure) (hd CASES) st = (st', Inl (DemoError m)) \<and> files_ok (st_fs st') \<and>
    st_policies st' = st_policies st @ [zero_policy_row ''baseline_balanced_rr'' ''round_robin'']"
proof -
  have c: "hd CASES \<in> set CASES" "''round_robin'' \<in> set POLICIES" "''strict_priority'' \<in> set POLICIES"
    by (simp_all add: CASES_def POLICIES_def)
  obtain st1 where s: "run_policy (zero_env one_failure) (hd CASES) ''round_robin'' st =
      (st1, Inr (zero_policy_row ''baseline_balanced_rr'' ''round_robin''))" "files_ok (st_fs st1)"
    "st_policies st1 = st_policies st @ [zero_policy_row ''baseline_balanced_rr'' ''round_robin'']"
    using zero_policy [OF assms c(1,2), of one_failure] by (auto simp: one_failure_def first_case(2))
  obtain st2 m where "run_policy (zero_env one_failure) (hd CASES) ''strict_priority'' st1 = (st2, Inl (DemoError m))"
    "files_ok (st_fs st2)" "st_policies st2 = st_policies st1"
    using zero_policy [OF s(2) c(1,3), of one_failure] by (auto simp: one_failure_def first_case(2))
  then have "run_policies (zero_env one_failure) (hd CASES) POLICIES st = (st2, Inl (DemoError m))"
    using s by (subst first_case(5)) simp
  then show ?thesis using s \<open>files_ok (st_fs st2)\<close> \<open>st_policies st2 = st_policies st1\<close> by (simp add: run_one_case_def)
qed

lemma one_failure_run:
  "\<exists>st. run_cases (zero_env one_failure) True CASES (initial_state empty_disk) = (st, Inr ()) \<and> st_failures st \<noteq> [] \<and>
     zero_policy_row ''baseline_balanced_rr'' ''round_robin'' \<in> set (primary_rows (st_policies st)) \<and>
     ''baseline_balanced_rr'' \<notin> r_case_name ` set (st_recommendations st)"
proof -
  let ?row = "zero_policy_row ''baseline_balanced_rr'' ''round_robin''"
  have "files_ok (st_fs (initial_state empty_disk))" by (simp add: files_ok_def initial_state_def empty_disk_def)
  from one_failure_case [OF this] obtain st1 m where s1: "run_one_case (zero_env one_failure) (hd CASES) (initial_state empty_disk) = (st1, Inl (DemoError m))"
    "files_ok (st_fs st1)" "st_policies st1 = [?row]" by (auto simp: initial_state_def)
  let ?st = "st1\<lparr>st_failures := st_failures st1 @ [m]\<rparr>"
  obtain st where st: "run_cases (zero_env one_failure) True (tl CASES) ?st = (st, Inr ())" "st_failures st = st_failures ?st"
    using zero_cases_run [of ?st "tl CASES" one_failure True] s1(2) first_case(4)
    by (auto simp: one_failure_def list.set_sel(2) CASES_def)
  have run: "run_cases (zero_env one_failure) True CASES (initial_state empty_disk) = (st, Inr ())"
    using s1(1) st(1) by (subst first_case(1)) simp
  note g = run_cases_grows [OF st(1)] run_one_case_grows [OF s1(1)]
  have "r_case_name ` set (st_recommendations st1) = {}"
    using s1(1) run_policies_grows by (fastforce simp: run_one_case_def initial_state_def split: prod.splits sum.splits)
  then have rec: "''baseline_balanced_rr'' \<notin> r_case_name ` set (st_recommendations st)"
    using g(1) first_case(4) by auto
  have "?row \<in> set (st_policies st)" using g(1) s1(3) by (auto dest: set_mono_prefix)
  moreover have "hd CASES \<in> set (filter (\<lambda>config. p_case_name ?row = case_name config \<and> p_policy ?row = primary_policy config) CASES)"
    by (simp add: zero_policy_row_def first_case(2,3)) (simp add: CASES_def)
  ultimately have "?row \<in> set (primary_rows (st_policies st))" unfolding primary_rows_def by auto
  then show ?thesis using run st(2) rec by auto
qed

theorem keep_going_key_error_witness:
  "\<exists>st tables k. run_cases (zero_env one_failure) True CASES (initial_state empty_disk) = (st, Inr ()) \<and> st_failures st \<noteq> [] \<and>
     main_at5 (zero_env one_failure) True empty_disk = (tables, Inl (KeyError k)) \<and> length tables = 3"
proof -
  obtain st where s: "run_cases (zero_env one_failure) True CASES (initial_state empty_disk) = (st, Inr ())" "st_failures st \<noteq> []"
     "zero_policy_row ''baseline_balanced_rr'' ''round_robin'' \<in> set (primary_rows (st_policies st))"
     "''baseline_balanced_rr'' \<notin> r_case_name ` set (st_recommendations st)" using one_failure_run by blast
  have n: "p_case_name (zero_policy_row ''baseline_balanced_rr'' ''round_robin'') = ''baseline_balanced_rr''"
    by (simp add: zero_policy_row_def)
  from keep_going_key_error [OF s(1,3), unfolded n, OF s(4)] s(1,2) show ?thesis by blast
qed

end
