(* ===== verification/Py_Repr.thy ===== *)
theory Py_Repr
  imports Csv_Table Py_Float
begin

text \<open>
  \<open>str\<close> and \<open>repr\<close> of the values in error messages: a text, a missing cell (\<open>None\<close>) and a list
  of texts; and the numbers \<open>int(str(cell).strip())\<close> and \<open>float(str(cell).strip())\<close> of a cell.
\<close>

text \<open>\<open>repr\<close> of a list of texts: quotes, and escapes for the characters that are not printable.\<close>

definition hex_low :: "char \<Rightarrow> string" where
  "hex_low c = map lower_char (pad0 2 (hex_digits (ccode c)))"

definition repr_char :: "char \<Rightarrow> char \<Rightarrow> string" where
  "repr_char q c =
     (if c = q \<or> c = CHR 0x5C then [CHR 0x5C, c]
      else if c = CHR 0x0A then [CHR 0x5C, CHR ''n''] else if c = CHR 0x0D then [CHR 0x5C, CHR ''r'']
      else if c = CHR 0x09 then [CHR 0x5C, CHR ''t'']
      else if ccode c < 32 \<or> ccode c = 127 then [CHR 0x5C, CHR ''x''] @ hex_low c else [c])"

definition repr_str :: "string \<Rightarrow> string" where
  "repr_str s = (let q = (if CHR 0x27 \<in> set s \<and> CHR 0x22 \<notin> set s then CHR 0x22 else CHR 0x27) in
     [q] @ concat (map (repr_char q) s) @ [q])"

definition repr_list :: "string list \<Rightarrow> string" where
  "repr_list xs = ''['' @ py_join '', '' (map repr_str xs) @ '']''"

definition str_opt :: "string option \<Rightarrow> string" where
  "str_opt v = (case v of None \<Rightarrow> ''None'' | Some s \<Rightarrow> s)"

definition repr_opt :: "string option \<Rightarrow> string" where
  "repr_opt v = (case v of None \<Rightarrow> ''None'' | Some s \<Rightarrow> repr_str s)"

text \<open>\<open>f"{x:+.3f}"\<close>.\<close>

definition fmt3_signed :: "pyfloat \<Rightarrow> string" where
  "fmt3_signed x = (case fmt3 x of CHR ''-'' # s \<Rightarrow> CHR ''-'' # s | s \<Rightarrow> CHR ''+'' # s)"

section \<open>Numbers in cells\<close>

definition cell_int :: "string option \<Rightarrow> int option" where
  "cell_int v = py_int10 (py_strip (str_opt v))"

definition cell_float :: "string option \<Rightarrow> pyfloat option" where
  "cell_float v = parse_float (py_strip (str_opt v))"

lemma strip_strip: "py_strip (py_strip s) = py_strip s"
proof (rule py_strip_id)
  let ?d = "dropWhile is_space s"
  show "py_strip s = [] \<or> \<not> is_space (hd (py_strip s)) \<and> \<not> is_space (last (py_strip s))"
  proof (cases "py_strip s = []")
    case False
    then have ne: "dropWhile is_space (rev ?d) \<noteq> []" by (simp add: py_strip_def)
    have last: "last (py_strip s) = hd (dropWhile is_space (rev ?d))"
      using ne by (simp add: py_strip_def last_rev)
    have "takeWhile is_space (rev ?d) @ dropWhile is_space (rev ?d) = rev ?d" by (rule takeWhile_dropWhile_id)
    then have "?d = py_strip s @ rev (takeWhile is_space (rev ?d))"
      unfolding py_strip_def by (metis rev_append rev_rev_ident)
    then have "hd (py_strip s) = hd ?d" "?d \<noteq> []" using False by (metis hd_append2, metis append_is_Nil_conv)
    then show ?thesis using last hd_dropWhile [OF ne] hd_dropWhile [of is_space s] by simp
  qed simp
qed

lemma cell_float_Some: "cell_float (Some t) = parse_float t"
  unfolding cell_float_def str_opt_def option.case parse_float_def strip_strip ..

lemma cell_int_Some: "cell_int (Some t) = py_int10 t"
  unfolding cell_int_def str_opt_def option.case py_int10_def strip_strip ..

end
