(* ===== verification/Mem_Sweep.thy ===== *)
theory Mem_Sweep
  imports Trace_Summary Py_Repr
begin

text \<open>
  \<open>examples/lt/tools/run_memory_access_pattern_sweep.py\<close>, first part: the three cases, the
  metrics of a case's trace (\<open>compute_summary_metrics\<close>) and its validation
  (\<open>validate_case_trace\<close>).  A case carries the text Python prints for its hotspot ratio next
  to the number.
\<close>

section \<open>Cases\<close>

definition PATTERN_ORDER :: "string list" where
  "PATTERN_ORDER = [''sequential'', ''stride'', ''hotspot'']"

definition SUMMARY_FIELDS :: "string list" where
  "SUMMARY_FIELDS =
    [''case_id'', ''status'', ''pattern'', ''stride'', ''num_transactions'', ''hotspot_ratio'',
     ''trace_csv'', ''total_transactions'', ''avg_latency_ns'', ''p50_latency_ns'', ''p95_latency_ns'',
     ''p99_latency_ns'', ''max_latency_ns'', ''bank_conflict_ratio_pct'', ''throughput_txn_per_us'',
     ''avg_queue_delay_ns'', ''max_queue_delay_ns'', ''avg_target_service_delay_ns'',
     ''total_bank_conflicts'', ''error'']"

definition REQUIRED_MVP_SUMMARY_FIELDS :: "string list" where
  "REQUIRED_MVP_SUMMARY_FIELDS =
    [''pattern'', ''stride'', ''num_transactions'', ''avg_latency_ns'', ''p50_latency_ns'',
     ''p95_latency_ns'', ''p99_latency_ns'', ''max_latency_ns'', ''bank_conflict_ratio_pct'',
     ''throughput_txn_per_us'']"

definition METRIC_FIELDS :: "string list" where
  "METRIC_FIELDS =
    [''total_transactions'', ''avg_latency_ns'', ''p50_latency_ns'', ''p95_latency_ns'',
     ''p99_latency_ns'', ''max_latency_ns'', ''bank_conflict_ratio_pct'', ''throughput_txn_per_us'',
     ''avg_queue_delay_ns'', ''max_queue_delay_ns'', ''avg_target_service_delay_ns'',
     ''total_bank_conflicts'']"

definition REQUIRED_TRACE_FIELDS :: "string list" where
  "REQUIRED_TRACE_FIELDS = [''start_time_ns'', ''end_time_ns'', ''bank_conflict'']"

record sweep_case =
  case_id :: string
  pattern :: string
  stride :: int
  num_transactions :: int
  hotspot_ratio :: pyfloat
  hotspot_ratio_text :: string

definition CASES :: "sweep_case list" where
  "CASES =
    [\<lparr>case_id = ''sequential'', pattern = ''sequential'', stride = 4, num_transactions = 64,
      hotspot_ratio = flit 0 1, hotspot_ratio_text = ''0.0''\<rparr>,
     \<lparr>case_id = ''stride'', pattern = ''stride'', stride = 16, num_transactions = 64,
      hotspot_ratio = flit 0 1, hotspot_ratio_text = ''0.0''\<rparr>,
     \<lparr>case_id = ''hotspot'', pattern = ''hotspot'', stride = 4, num_transactions = 64,
      hotspot_ratio = flit 8 10, hotspot_ratio_text = ''0.8''\<rparr>]"

definition check_case :: "sweep_case \<Rightarrow> unit result" where
  "check_case c =
     bindR (raise_if (num_transactions c \<le> 0) (ValueError (case_id c @ '' has no transactions''))) (\<lambda>_.
     bindR (raise_if (stride c \<le> 0) (ValueError (case_id c @ '' has invalid stride''))) (\<lambda>_.
     raise_if (\<not> (f_le f_zero (hotspot_ratio c) \<and> f_le (hotspot_ratio c) (flit 1 1)))
       (ValueError (case_id c @ '' has invalid hotspot_ratio''))))"

definition validate_case_definitions :: "unit result" where
  "validate_case_definitions =
     bindR (raise_if (map pattern CASES \<noteq> PATTERN_ORDER)
       (ValueError (''Phase 16A MVP must run exactly these patterns in order: '' @ py_join '', '' PATTERN_ORDER))) (\<lambda>_.
     let missing = filter (\<lambda>f. f \<notin> set SUMMARY_FIELDS) REQUIRED_MVP_SUMMARY_FIELDS in
     bindR (raise_if (missing \<noteq> [])
       (ValueError (''summary.csv is missing required MVP fields: '' @ py_join '', '' missing))) (\<lambda>_.
     checkR check_case CASES))"

definition workload_config_text :: "sweep_case \<Rightarrow> string" where
  "workload_config_text c = py_join [CHR 0x0A]
     [''# Generated by examples/lt/tools/run_memory_access_pattern_sweep.py'',
      ''LT_BURST_COUNT='' @ str_int (num_transactions c), ''LT_ADDRESS_STRIDE='' @ str_int (stride c),
      ''LT_ENABLE_INITIATOR_101=1'', ''LT_ENABLE_INITIATOR_102=0'', ''LT_TARGET_PATTERN=target201'',
      ''LT_MEMORY_PATTERN='' @ pattern c, ''LT_HOTSPOT_RATIO='' @ hotspot_ratio_text c, []]"

section \<open>Cells\<close>

text \<open>\<open>int(str(value), 16)\<close>, where a missing cell is the text \<open>None\<close>.\<close>

definition parse_hex :: "string option \<Rightarrow> int option" where
  "parse_hex v = py_int16 (str_opt v)"

definition parse_float_cell :: "string option \<Rightarrow> pyfloat option" where
  "parse_float_cell v = Option.bind v parse_float"

definition format_opt :: "pyfloat option \<Rightarrow> string" where
  "format_opt v = (case v of None \<Rightarrow> [] | Some x \<Rightarrow> fmt3 x)"

definition average_opt :: "pyfloat list \<Rightarrow> pyfloat option result" where
  "average_opt values = (if values = [] then Inr None
     else bindR (float_of_int (int (length values))) (\<lambda>n. bindR (f_div (py_fsum values) n) (\<lambda>a. Inr (Some a))))"

text \<open>The body is that of \<open>percentile\<close> in \<open>run_trace_replay_lab.py\<close>, except for the empty list.\<close>

definition percentile_opt :: "pyfloat list \<Rightarrow> int \<Rightarrow> pyfloat option result" where
  "percentile_opt values p = (if values = [] then Inr None
     else bindR (percentile values p) (\<lambda>x. Inr (Some x)))"

definition latency_value :: "csv_row \<Rightarrow> pyfloat option" where
  "latency_value row = (case parse_float_cell (row_get row ''total_delay_ns'') of
     Some x \<Rightarrow> Some x | None \<Rightarrow> parse_float_cell (row_get row ''delay_ns''))"

definition is_true_field :: "string option \<Rightarrow> bool" where
  "is_true_field v \<longleftrightarrow> py_lower (py_strip (str_opt v)) \<in> {''1'', ''true'', ''yes'', ''y''}"

definition numeric_values :: "csv_row list \<Rightarrow> string \<Rightarrow> pyfloat list" where
  "numeric_values rows k = List.map_filter (\<lambda>row. parse_float_cell (row_get row k)) rows"

section \<open>Reading a trace\<close>

definition read_trace_rows :: "string list list \<Rightarrow> (csv_row list \<times> string list) result" where
  "read_trace_rows recs =
     (let fieldnames = (case reader_fieldnames recs of None \<Rightarrow> [] | Some h \<Rightarrow> h);
          missing = filter (\<lambda>f. f \<notin> set fieldnames) REQUIRED_TRACE_FIELDS in
      bindR (raise_if (missing \<noteq> []) (ValueError (''trace missing fields: '' @ py_join '', '' missing))) (\<lambda>_.
      bindR (raise_if (''total_delay_ns'' \<notin> set fieldnames \<and> ''delay_ns'' \<notin> set fieldnames)
        (ValueError ''trace missing latency field: total_delay_ns or delay_ns'')) (\<lambda>_.
      Inr (dict_reader recs, fieldnames))))"

definition rows_for_initiator :: "csv_row list \<Rightarrow> int \<Rightarrow> csv_row list" where
  "rows_for_initiator rows wanted = filter (\<lambda>row. row_get row ''initiator_id'' = Some (str_int wanted)) rows"

text \<open>The rows a trace is judged on: those of initiator 101, where the trace names initiators.\<close>

definition selected_rows :: "csv_row list \<Rightarrow> string list \<Rightarrow> csv_row list" where
  "selected_rows rows fieldnames = (if ''initiator_id'' \<in> set fieldnames then rows_for_initiator rows 101 else rows)"

section \<open>Metrics\<close>

record sweep_metrics =
  sm_num_transactions :: int
  sm_avg_latency_ns :: string
  sm_p50_latency_ns :: string
  sm_p95_latency_ns :: string
  sm_p99_latency_ns :: string
  sm_max_latency_ns :: string
  sm_bank_conflict_ratio_pct :: string
  sm_throughput_txn_per_us :: string
  sm_avg_queue_delay_ns :: string
  sm_max_queue_delay_ns :: string
  sm_avg_target_service_delay_ns :: string
  sm_total_bank_conflicts :: int

definition compute_summary_metrics :: "string list list \<Rightarrow> sweep_metrics result" where
  "compute_summary_metrics recs =
     bindR (read_trace_rows recs) (\<lambda>(all_rows, fieldnames).
     let rows = selected_rows all_rows fieldnames in
     bindR (raise_if (rows = []) (ValueError ''trace has no transactions'')) (\<lambda>_.
     let latencies = List.map_filter latency_value rows; invalid_latency_rows = length rows - length latencies in
     bindR (raise_if (invalid_latency_rows \<noteq> 0)
       (ValueError (''trace has '' @ str_nat invalid_latency_rows @ '' rows without total_delay_ns or delay_ns''))) (\<lambda>_.
     let starts = numeric_values rows ''start_time_ns''; ends = numeric_values rows ''end_time_ns'' in
     bindR (raise_if (length starts \<noteq> length rows \<or> length ends \<noteq> length rows)
       (ValueError ''trace has non-numeric start_time_ns or end_time_ns'')) (\<lambda>_.
     let transaction_count = int (length rows) in
     bindR (py_max ends) (\<lambda>hi. bindR (py_min starts) (\<lambda>lo.
     bindR (throughput_of transaction_count (f_sub hi lo)) (\<lambda>throughput.
     let bank_conflict_count = int (length (filter (\<lambda>row. is_true_field (row_get row ''bank_conflict'')) rows)) in
     bindR (conflict_ratio bank_conflict_count transaction_count) (\<lambda>bank_conflict_ratio.
     let queue_delays = numeric_values rows ''queue_delay_ns'';
         service_delays = numeric_values rows ''target_service_delay_ns'' in
     bindR (average_opt latencies) (\<lambda>avg. bindR (percentile_opt latencies 50) (\<lambda>p50.
     bindR (percentile_opt latencies 95) (\<lambda>p95. bindR (percentile_opt latencies 99) (\<lambda>p99.
     bindR (py_max latencies) (\<lambda>mx. bindR (average_opt queue_delays) (\<lambda>avg_queue.
     bindR (if queue_delays = [] then Inr None else bindR (py_max queue_delays) (\<lambda>m. Inr (Some m))) (\<lambda>max_queue.
     bindR (average_opt service_delays) (\<lambda>avg_service.
     Inr \<lparr>sm_num_transactions = transaction_count, sm_avg_latency_ns = format_opt avg,
          sm_p50_latency_ns = format_opt p50, sm_p95_latency_ns = format_opt p95, sm_p99_latency_ns = format_opt p99,
          sm_max_latency_ns = format_opt (Some mx), sm_bank_conflict_ratio_pct = format_opt (Some bank_conflict_ratio),
          sm_throughput_txn_per_us = format_opt (Some throughput), sm_avg_queue_delay_ns = format_opt avg_queue,
          sm_max_queue_delay_ns = format_opt max_queue, sm_avg_target_service_delay_ns = format_opt avg_service,
          sm_total_bank_conflicts = bank_conflict_count\<rparr>))))))))))))))))"

section \<open>Validation\<close>

text \<open>\<open>sorted(set)\<close> of integers and the steps between neighbours.\<close>

definition sorted_set :: "int list \<Rightarrow> int list" where
  "sorted_set xs = sorted_list_of_set (set xs)"

fun steps :: "int list \<Rightarrow> int list" where
  "steps (x # y # ys) = (y - x) # steps (y # ys)"
| "steps _ = []"

text \<open>The addresses of the rows of a command, \<open>None\<close> where the cell is not a hexadecimal number.\<close>

definition command_addresses :: "csv_row list \<Rightarrow> string \<Rightarrow> int option list" where
  "command_addresses rows cmd =
     map (\<lambda>row. parse_hex (row_get row ''address'')) (filter (\<lambda>row. row_get row ''command'' = Some cmd) rows)"

definition stride_errors :: "csv_row list \<Rightarrow> int \<Rightarrow> string \<Rightarrow> string list" where
  "stride_errors rows expected_stride cmd =
     (let parsed_addresses = command_addresses rows cmd;
          addresses = sorted_set (List.map_filter id parsed_addresses) in
      if None \<in> set parsed_addresses then [cmd @ '' contains invalid address'']
      else case filter (\<lambda>delta. delta \<noteq> expected_stride) (steps addresses) of
        [] \<Rightarrow> []
      | bad # _ \<Rightarrow> [cmd @ '' address stride expected '' @ str_int expected_stride @ '', saw '' @ str_int bad])"

definition validate_address_stride :: "csv_row list \<Rightarrow> int \<Rightarrow> string list" where
  "validate_address_stride rows expected_stride =
     concat (map (stride_errors rows expected_stride) [''WRITE'', ''READ''])"

definition validate_hotspot :: "csv_row list \<Rightarrow> pyfloat \<Rightarrow> string list result" where
  "validate_hotspot rows expected_ratio =
     (if rows = [] then Inr [''hotspot trace has no rows'']
      else
        let hotspot_count = length (filter (\<lambda>row. row_get row ''is_hotspot_access'' = Some ''1'') rows) in
        bindR (int_truediv (int hotspot_count) (int (length rows))) (\<lambda>observed_ratio.
        if f_lt (flit 10 100) (f_abs (f_sub observed_ratio expected_ratio))
        then Inr [''hotspot ratio expected '' @ fmt3 expected_ratio @ '', saw '' @ fmt3 observed_ratio]
        else if list_ex (\<lambda>row. row_get row ''is_hotspot_access'' \<noteq> Some ''1'' \<and> parse_hex (row_get row ''address'') = Some 0) rows
        then Inr [''non-hotspot rows include the hotspot base address'']
        else Inr []))"

text \<open>The nonempty cells of a column, as a set in order of appearance.\<close>

definition observed_values :: "csv_row list \<Rightarrow> string \<Rightarrow> string list" where
  "observed_values rows k = remdups (filter (\<lambda>s. s \<noteq> []) (List.map_filter (\<lambda>row. row_get row k) rows))"

definition expect_values :: "csv_row list \<Rightarrow> string list \<Rightarrow> string \<times> string \<Rightarrow> string list" where
  "expect_values rows fieldnames = (\<lambda>(k, expected).
     let observed = observed_values rows k in
     if k \<notin> set fieldnames \<or> observed = [] \<or> set observed = {expected} then []
     else [k @ '' expected '' @ expected @ '', saw '' @ repr_list (py_sorted str_lt observed)])"

text \<open>A set of floats, some missing: equal elements are one, a NaN equals nothing.\<close>

fun ratio_eq :: "pyfloat option \<Rightarrow> pyfloat option \<Rightarrow> bool" where
  "ratio_eq None None = True"
| "ratio_eq (Some x) (Some y) = f_eq x y"
| "ratio_eq _ _ = False"

fun ratio_set :: "pyfloat option list \<Rightarrow> pyfloat option list" where
  "ratio_set [] = []"
| "ratio_set (x # xs) = x # filter (\<lambda>y. \<not> ratio_eq x y) (ratio_set xs)"

definition ratio_errors :: "sweep_case \<Rightarrow> csv_row list \<Rightarrow> string list result" where
  "ratio_errors c rows =
     (let ratios = ratio_set (map parse_float (filter (\<lambda>s. s \<noteq> []) (List.map_filter (\<lambda>row. row_get row ''workload_hotspot_ratio'') rows)));
          complaint = [''workload_hotspot_ratio expected '' @ hotspot_ratio_text c] in
      case ratios of
        [] \<Rightarrow> Inr []
      | [None] \<Rightarrow> Inl TypeError
      | [Some x] \<Rightarrow> Inr (if f_lt (flit 1 1000) (f_abs (f_sub x (hotspot_ratio c))) then complaint else [])
      | _ \<Rightarrow> Inr complaint)"

definition hotspot_errors :: "sweep_case \<Rightarrow> csv_row list \<Rightarrow> string list result" where
  "hotspot_errors c rows =
     (if pattern c \<in> {''sequential'', ''stride''}
      then Inr (if list_ex (\<lambda>row. is_true_field (row_get row ''is_hotspot_access'')) rows
                then [pattern c @ '' should not mark hotspot accesses''] else [])
      else if pattern c = ''hotspot'' then validate_hotspot rows (hotspot_ratio c) else Inr [])"

definition validate_case_trace :: "sweep_case \<Rightarrow> string list list \<Rightarrow> string list result" where
  "validate_case_trace c recs =
     bindR (read_trace_rows recs) (\<lambda>(trace_rows, fieldnames).
     let rows = selected_rows trace_rows fieldnames;
         none = (if rows = [] then [''trace has no transactions''] else []);
         ids = expect_values trace_rows fieldnames (''case_id'', case_id c);
         second = (if ''initiator_id'' \<in> set fieldnames \<and> list_ex (\<lambda>row. row_get row ''initiator_id'' = Some ''102'') trace_rows
                   then [''MVP sweep should not emit initiator 102 rows''] else []);
         expected = concat (map (expect_values rows fieldnames)
           [(''workload_transaction_count'', str_int (num_transactions c)),
            (''workload_address_stride'', str_int (stride c)), (''workload_memory_pattern'', pattern c)]) in
     bindR (if ''workload_hotspot_ratio'' \<in> set fieldnames then ratio_errors c rows else Inr []) (\<lambda>ratios.
     let strides = (if pattern c \<in> {''sequential'', ''stride''} \<and> ''address'' \<in> set fieldnames \<and> ''command'' \<in> set fieldnames
                    then validate_address_stride rows (stride c) else []) in
     bindR (if ''is_hotspot_access'' \<in> set fieldnames then hotspot_errors c rows else Inr []) (\<lambda>hotspots.
     Inr (none @ ids @ second @ expected @ ratios @ strides @ hotspots))))"

section \<open>The stride check\<close>

text \<open>Equal steps make an arithmetic progression, and conversely.\<close>

lemma steps_const:
  "xs \<noteq> [] \<Longrightarrow> \<forall>d \<in> set (steps xs). d = s \<Longrightarrow> xs = map (\<lambda>i. hd xs + s * int i) [0..<length xs]"
proof (induction xs rule: steps.induct)
  case (1 x y ys)
  have y: "y = x + s" using 1(3) by simp
  have "\<forall>d \<in> set (steps (y # ys)). d = s" using 1(3) unfolding steps.simps list.set ball_simps by (rule conjunct2)
  then have "y # ys = map (\<lambda>i. hd (y # ys) + s * int i) [0..<length (y # ys)]" by (rule 1(1) [rotated]) (rule list.distinct)
  then have IH: "y # ys = map (\<lambda>i. y + s * int i) [0..<length (y # ys)]" by (simp only: list.sel)
  have "map (\<lambda>i. x + s * int i) [0..<length (x # y # ys)] = x # map (\<lambda>i. x + s * int (Suc i)) [0..<length (y # ys)]"
    using map_upt_Suc [of "\<lambda>i. x + s * int i" "length (y # ys)"] by (simp del: upt_Suc)
  also have "map (\<lambda>i. x + s * int (Suc i)) [0..<length (y # ys)] = map (\<lambda>i. y + s * int i) [0..<length (y # ys)]"
    by (rule map_cong) (simp_all add: y algebra_simps)
  finally show ?case unfolding IH [symmetric] list.sel by (rule sym)
qed simp_all

lemma steps_progression: "d \<in> set (steps (map (\<lambda>i. a + s * int i) [0..<n])) \<Longrightarrow> d = s"
proof (induction n arbitrary: a)
  case (Suc n)
  have shift: "map (\<lambda>i. a + s * int (Suc i)) [0..<n] = map (\<lambda>i. (a + s) + s * int i) [0..<n]"
    by (rule map_cong) (simp_all add: algebra_simps)
  show ?case
  proof (cases n)
    case (Suc k)
    have "d = s \<or> d \<in> set (steps (map (\<lambda>i. (a + s) + s * int i) [0..<n]))"
      using Suc.prems unfolding map_upt_Suc shift unfolding Suc map_upt_Suc by auto
    then show ?thesis using Suc.IH [of "a + s"] by blast
  qed (use Suc.prems in simp)
qed simp

lemma sorted_progression:
  assumes "0 < s"
  shows "sorted_list_of_set ((\<lambda>i. a + s * int i) ` {..<n}) = map (\<lambda>i. a + s * int i) [0..<n]"
proof -
  let ?xs = "map (\<lambda>i. a + s * int i) [0..<n]"
  have "sorted ?xs" using assms by (auto simp: sorted_iff_nth_mono intro: mult_left_mono)
  moreover have "distinct ?xs" using assms by (auto simp: distinct_map inj_on_def)
  moreover have "set ?xs = (\<lambda>i. a + s * int i) ` {..<n}" by (simp add: atLeast0LessThan)
  ultimately show ?thesis by (metis sorted_list_of_set.idem_if_sorted_distinct)
qed

lemma progression_iff:
  assumes "0 < s"
  shows "(\<forall>d \<in> set (steps (sorted_set xs)). d = s) \<longleftrightarrow> (\<exists>a n. set xs = (\<lambda>i. a + s * int i) ` {..<n})"
proof
  assume d: "\<forall>d \<in> set (steps (sorted_set xs)). d = s"
  show "\<exists>a n. set xs = (\<lambda>i. a + s * int i) ` {..<n}"
  proof (cases "sorted_set xs = []")
    case True
    then have "set xs = {}" by (simp add: sorted_set_def)
    then show ?thesis by (intro exI [of _ 0]) simp
  next
    case False
    have "set xs = set (sorted_set xs)" by (simp add: sorted_set_def)
    also have "\<dots> = (\<lambda>i. hd (sorted_set xs) + s * int i) ` {..<length (sorted_set xs)}"
      by (subst steps_const [OF False d]) (simp add: atLeast0LessThan)
    finally show ?thesis by blast
  qed
next
  assume "\<exists>a n. set xs = (\<lambda>i. a + s * int i) ` {..<n}"
  then obtain a n where "set xs = (\<lambda>i. a + s * int i) ` {..<n}" by blast
  then have "sorted_set xs = map (\<lambda>i. a + s * int i) [0..<n]"
    unfolding sorted_set_def using sorted_progression [OF assms] by simp
  then show "\<forall>d \<in> set (steps (sorted_set xs)). d = s" using steps_progression by metis
qed

lemma set_some_iff: "set zs = Some ` X \<longleftrightarrow> None \<notin> set zs \<and> set (List.map_filter id zs) = X"
proof -
  have "set (List.map_filter id zs) = {x. Some x \<in> set zs}" by (auto simp: List.map_filter_def intro: rev_image_eqI)
  then show ?thesis by (auto simp: set_eq_iff image_iff) (metis option.exhaust)+
qed

lemma filter_steps: "filter (\<lambda>d. d \<noteq> s) ds = [] \<longleftrightarrow> (\<forall>d \<in> set ds. d = s)"
  by (simp add: filter_empty_conv)

lemma stride_errors_Nil:
  assumes "0 < s"
  shows "stride_errors rows s cmd = [] \<longleftrightarrow>
    (\<exists>a n. set (command_addresses rows cmd) = Some ` (\<lambda>i. a + s * int i) ` {..<n})"
proof -
  let ?as = "command_addresses rows cmd"
  have "stride_errors rows s cmd = [] \<longleftrightarrow>
    None \<notin> set ?as \<and> (\<forall>d \<in> set (steps (sorted_set (List.map_filter id ?as))). d = s)"
    unfolding filter_steps [symmetric]
    by (cases "filter (\<lambda>d. d \<noteq> s) (steps (sorted_set (List.map_filter id ?as)))") (simp_all add: stride_errors_def Let_def)
  then show ?thesis unfolding progression_iff [OF assms] set_some_iff by blast
qed

text \<open>C17. The stride check is exact: for a positive stride, \<open>validate_address_stride\<close> reports nothing
  precisely when, for the writes and for the reads, every address cell is a hexadecimal number and the
  addresses, as a set, are an arithmetic progression \<open>a, a + s, a + 2 s, \<dots>\<close> with that stride.\<close>

theorem address_stride_exact:
  assumes "0 < s"
  shows "validate_address_stride rows s = [] \<longleftrightarrow>
    (\<forall>cmd \<in> {''WRITE'', ''READ''}.
       \<exists>a n. set (command_addresses rows cmd) = Some ` (\<lambda>i. a + s * int i) ` {..<n})"
  unfolding validate_address_stride_def using stride_errors_Nil [OF assms] by auto

definition stride_sample :: "csv_row list" where
  "stride_sample = dict_reader [[''command'', ''address''], [''WRITE'', ''0x10''], [''READ'', ''0x14''], [''WRITE'', ''0x14''],
     [''WRITE'', ''0x18''], [''WRITE'', ''0x10'']]"

theorem address_stride_exact_witness:
  "validate_address_stride stride_sample 4 = [] \<and>
   (\<exists>a n. set (command_addresses stride_sample ''WRITE'') = Some ` (\<lambda>i. a + 4 * int i) ` {..<n})"
proof -
  have "validate_address_stride stride_sample 4 = []" by code_simp
  then show ?thesis using address_stride_exact [of 4 stride_sample] by simp
qed

section \<open>The metrics\<close>

lemma latency_value_wf: "latency_value row = Some x \<Longrightarrow> wf_float x"
  unfolding latency_value_def parse_float_cell_def
  by (auto split: option.splits simp: bind_eq_Some_conv dest: wf_parse_float)

lemma percentile_opt_eq: "xs \<noteq> [] \<Longrightarrow> percentile_opt xs p = Inr v \<longleftrightarrow> (\<exists>x. percentile xs p = Inr x \<and> v = Some x)"
  by (auto simp: percentile_opt_def bindR_eq_Inr)

lemma latencies_complete:
  assumes "length rows - length (List.map_filter latency_value rows) = 0" and "x \<in> set (List.map_filter latency_value rows)"
  shows "\<exists>row \<in> set rows. latency_value row = Some x"
  using assms(2) by (auto simp: List.map_filter_def)

lemma selected_subset: "set (selected_rows rows fs) \<subseteq> set rows"
  by (auto simp: selected_rows_def rows_for_initiator_def)

lemma read_trace_rows_eq: "read_trace_rows recs = Inr (rows, fs) \<Longrightarrow> rows = dict_reader recs"
  unfolding read_trace_rows_def Let_def by (elim bindRE) simp

text \<open>What a successful \<open>compute_summary_metrics\<close> has computed.\<close>

lemma metrics_inversion:
  assumes "compute_summary_metrics recs = Inr m"
  shows "\<exists>rows lats p50 p95 p99 mx ratio. rows \<noteq> [] \<and> set rows \<subseteq> set (dict_reader recs) \<and> length rows \<le> length recs \<and>
    lats = List.map_filter latency_value rows \<and> length lats = length rows \<and>
    percentile lats 50 = Inr p50 \<and> percentile lats 95 = Inr p95 \<and> percentile lats 99 = Inr p99 \<and>
    py_max lats = Inr mx \<and> sm_total_bank_conflicts m \<le> int (length rows) \<and> 0 \<le> sm_total_bank_conflicts m \<and>
    conflict_ratio (sm_total_bank_conflicts m) (int (length rows)) = Inr ratio \<and>
    sm_num_transactions m = int (length rows) \<and>
    sm_p50_latency_ns m = fmt3 p50 \<and> sm_p95_latency_ns m = fmt3 p95 \<and> sm_p99_latency_ns m = fmt3 p99 \<and>
    sm_max_latency_ns m = fmt3 mx \<and> sm_bank_conflict_ratio_pct m = fmt3 ratio"
proof -
  obtain all fs where r: "read_trace_rows recs = Inr (all, fs)"
    using assms unfolding compute_summary_metrics_def by (elim bindRE) auto
  let ?rows = "selected_rows all fs"
  let ?lats = "List.map_filter latency_value ?rows"
  have all: "all = dict_reader recs" by (rule read_trace_rows_eq [OF r])
  have sub: "set ?rows \<subseteq> set (dict_reader recs)" using selected_subset all by metis
  have "length ?rows \<le> length all"
    by (simp add: selected_rows_def rows_for_initiator_def)
  moreover have "length all \<le> length recs"
    unfolding all dict_reader_def by (cases recs) (auto intro: le_SucI)
  ultimately have len: "length ?rows \<le> length recs" by (rule order_trans)
  note c = assms [unfolded compute_summary_metrics_def r bindR_Inr prod.case Let_def]
  have ne: "?rows \<noteq> []" and full: "length ?rows - length ?lats = 0"
    using c by (elim bindRE; simp add: raise_if_eq_Inr)+
  have "length ?lats \<le> length ?rows" by (simp add: List.map_filter_def)
  then have l: "length ?lats = length ?rows" using full by simp
  then have lne: "?lats \<noteq> []" using ne by (metis length_0_conv)
  have cc: "int (length (filter P ?rows)) \<le> int (length ?rows)" for P by simp
  show ?thesis
    using c
    by (elim bindRE, intro exI [of _ "selected_rows all fs"])
      (auto simp: ne sub len l percentile_opt_eq [OF lne] format_opt_def)
qed

lemma metrics_printed_order:
  assumes "compute_summary_metrics recs = Inr m" and "length recs < 2 ^ 46"
    and "\<forall>row \<in> set (dict_reader recs). latency_value row \<noteq> Some FNan"
  shows "\<exists>a b c d r. parse_float (sm_p50_latency_ns m) = Some a \<and> parse_float (sm_p95_latency_ns m) = Some b \<and>
    parse_float (sm_p99_latency_ns m) = Some c \<and> parse_float (sm_max_latency_ns m) = Some d \<and>
    f_le a b \<and> f_le b c \<and> f_le c d \<and>
    parse_float (sm_bank_conflict_ratio_pct m) = Some r \<and> f_le f_zero r \<and> f_le r (flit 100 1)"
proof -
  obtain rows lats p50 p95 p99 mx ratio where r: "rows \<noteq> []" "set rows \<subseteq> set (dict_reader recs)" "length rows \<le> length recs"
    and lats: "lats = List.map_filter latency_value rows" "length lats = length rows"
    and st: "percentile lats 50 = Inr p50" "percentile lats 95 = Inr p95" "percentile lats 99 = Inr p99" "py_max lats = Inr mx"
    and n: "sm_total_bank_conflicts m \<le> int (length rows)" "0 \<le> sm_total_bank_conflicts m"
      "conflict_ratio (sm_total_bank_conflicts m) (int (length rows)) = Inr ratio"
    and out: "sm_p50_latency_ns m = fmt3 p50" "sm_p95_latency_ns m = fmt3 p95" "sm_p99_latency_ns m = fmt3 p99"
      "sm_max_latency_ns m = fmt3 mx" "sm_bank_conflict_ratio_pct m = fmt3 ratio"
    using metrics_inversion [OF assms(1)] by blast
  have "lats \<noteq> []" using r(1) lats(2) by (metis length_0_conv)
  moreover have "length lats < 2 ^ 53" using r(3) lats(2) assms(2) by simp
  ultimately have len: "lats \<noteq> []" "length lats < 2 ^ 53" .
  have el: "wf_float x \<and> not_nan x" if "x \<in> set lats" for x
  proof -
    obtain row where "row \<in> set rows" "latency_value row = Some x" using \<open>x \<in> set lats\<close> unfolding lats(1) by (auto simp: List.map_filter_def)
    then show ?thesis using latency_value_wf assms(3) r(2) by (auto simp: not_nan_def)
  qed
  then have nn: "\<forall>x \<in> set lats. not_nan x" by blast
  have mem: "p50 \<in> set lats" "p95 \<in> set lats" "p99 \<in> set lats" "mx \<in> set lats"
    using percentile_mem [OF _ _ len st(1)] percentile_mem [OF _ _ len st(2)]
      percentile_mem [OF _ _ len st(3)] py_max_mem [OF st(4)] by simp_all
  then have wf: "wf_float p50" "wf_float p95" "wf_float p99" "wf_float mx" using el by auto
  have ord: "f_le (reparse p50) (reparse p95)" "f_le (reparse p95) (reparse p99)" "f_le (reparse p99) (reparse mx)"
    using percentile_mono [OF _ _ _ len nn st(1,2)] percentile_mono [OF _ _ _ len nn st(2,3)]
      py_max_ge [OF st(4) nn mem(3)] by (simp_all add: reparse_mono wf)
  have "length rows < 2 ^ 46" using r(3) assms(2) by linarith
  then have "int (length rows) < int (2 ^ 46)" by (simp only: of_nat_less_iff)
  then have "int (length rows) < 2 ^ 46" "1 \<le> int (length rows)" using r(1) by (cases rows; simp)+
  from conflict_ratio_range [OF n(2,1) this(2,1)] n(3)
  have rr: "rounds_to False (of_int (100 * sm_total_bank_conflicts m) / of_int (int (length rows))) ratio" by auto
  have "of_int (100 * sm_total_bank_conflicts m) / of_int (int (length rows)) \<le> (of_int 100 :: rat)"
    using n r(1) by (simp add: divide_le_eq)
  from reparse_le_int [OF rr this] have "f_le f_zero (reparse ratio)" "f_le (reparse ratio) (flit 100 1)" by simp_all
  then show ?thesis unfolding out using ord wf wf_rounds [OF rr] by (simp add: parse_fmt3)
qed

text \<open>Whenever the metrics of a trace can be computed, and none of its latencies is a NaN (fewer than \<open>2 ^ 46\<close>
  records), the printed percentiles read back in order, up to the printed maximum, and the printed conflict
  ratio lies in 0..100.\<close>

theorem sweep_metrics_ordered:
  assumes "compute_summary_metrics recs = Inr m" and "length recs < 2 ^ 46"
    and "\<forall>row \<in> set (dict_reader recs). latency_value row \<noteq> Some FNan"
  shows "\<exists>a b c d r. parse_float (sm_p50_latency_ns m) = Some a \<and> parse_float (sm_p95_latency_ns m) = Some b \<and>
    parse_float (sm_p99_latency_ns m) = Some c \<and> parse_float (sm_max_latency_ns m) = Some d \<and>
    f_le a b \<and> f_le b c \<and> f_le c d \<and>
    parse_float (sm_bank_conflict_ratio_pct m) = Some r \<and> f_le f_zero r \<and> f_le r (flit 100 1)"
  using assms by (rule metrics_printed_order)

text \<open>A small trace that every case accepts.\<close>

definition plain_trace :: "string list list" where
  "plain_trace = [[''start_time_ns'', ''end_time_ns'', ''bank_conflict'', ''total_delay_ns''],
     [''0'', ''100'', ''0'', ''100''], [''100'', ''220'', ''true'', ''120'']]"

definition plain_metrics :: sweep_metrics where
  "plain_metrics = \<lparr>sm_num_transactions = 2, sm_avg_latency_ns = ''110.000'', sm_p50_latency_ns = ''100.000'',
     sm_p95_latency_ns = ''120.000'', sm_p99_latency_ns = ''120.000'', sm_max_latency_ns = ''120.000'',
     sm_bank_conflict_ratio_pct = ''50.000'', sm_throughput_txn_per_us = ''9.091'', sm_avg_queue_delay_ns = [],
     sm_max_queue_delay_ns = [], sm_avg_target_service_delay_ns = [], sm_total_bank_conflicts = 1\<rparr>"

lemma plain_metrics_computed: "compute_summary_metrics plain_trace = Inr plain_metrics"
  by code_simp

theorem sweep_metrics_ordered_witness:
  "compute_summary_metrics plain_trace = Inr plain_metrics \<and>
   (\<exists>a b. parse_float (sm_p50_latency_ns plain_metrics) = Some a \<and> parse_float (sm_p95_latency_ns plain_metrics) = Some b \<and> f_le a b)"
proof -
  have n: "length plain_trace < 2 ^ 46" by (simp add: plain_trace_def)
  have "list_all (\<lambda>row. latency_value row \<noteq> Some FNan) (dict_reader plain_trace)" by code_simp
  then have "\<forall>row \<in> set (dict_reader plain_trace). latency_value row \<noteq> Some FNan" by (simp add: list_all_iff)
  from sweep_metrics_ordered [OF plain_metrics_computed n this] plain_metrics_computed show ?thesis by blast
qed

section \<open>The hotspot ratio column\<close>

lemma ratio_set_None: "xs \<noteq> [] \<Longrightarrow> set xs \<subseteq> {None} \<Longrightarrow> ratio_set xs = [None]"
proof (induction xs)
  case (Cons x xs)
  then show ?case by (cases xs) auto
qed simp

text \<open>The nonempty cells of the ratio column.\<close>

definition ratio_cells :: "csv_row list \<Rightarrow> string list" where
  "ratio_cells rows = filter (\<lambda>s. s \<noteq> []) (List.map_filter (\<lambda>row. row_get row ''workload_hotspot_ratio'') rows)"

lemma ratio_errors_text:
  assumes "ratio_cells rows \<noteq> []" and "\<forall>s \<in> set (ratio_cells rows). parse_float s = None"
  shows "ratio_errors c rows = Inl TypeError"
proof -
  have "ratio_set (map parse_float (ratio_cells rows)) = [None]"
    by (rule ratio_set_None) (use assms in auto)
  then show ?thesis by (simp add: ratio_errors_def ratio_cells_def Let_def)
qed

lemma validate_text_ratio:
  assumes "compute_summary_metrics recs = Inr m" and "reader_fieldnames recs = Some h"
    and "''workload_hotspot_ratio'' \<in> set h"
    and "ratio_cells (selected_rows (dict_reader recs) h) \<noteq> []"
    and "\<forall>s \<in> set (ratio_cells (selected_rows (dict_reader recs) h)). parse_float s = None"
  shows "validate_case_trace c recs = Inl TypeError"
proof -
  obtain rows fs where r: "read_trace_rows recs = Inr (rows, fs)"
    using assms(1) unfolding compute_summary_metrics_def by (elim bindRE) auto
  then have "rows = dict_reader recs" "fs = h"
    using read_trace_rows_eq [OF r] r assms(2) unfolding read_trace_rows_def Let_def by (auto elim!: bindRE)
  then show ?thesis
    using assms(3) ratio_errors_text [OF assms(4,5)] unfolding validate_case_trace_def r bindR_Inr prod.case Let_def by simp
qed

end
