(* ===== verification/Mem_Sweep_Run.thy ===== *)
theory Mem_Sweep_Run
  imports Mem_Sweep
begin

text \<open>
  \<open>examples/lt/tools/run_memory_access_pattern_sweep.py\<close>, second part: running a case, the
  combined trace, the comparison report and \<open>main\<close>.  The Robot test run and the file system
  are parameters: whether the workload configuration can be written and removed, the exit code
  of \<open>renode-test\<close>, and the records of the trace it leaves.  The files written are effects, in order.
\<close>

section \<open>Rows of the summary\<close>

record case_row =
  cr_case :: sweep_case
  cr_status :: string
  cr_trace_csv :: string
  cr_metrics :: "sweep_metrics option"
  cr_error :: string

definition base_summary_row :: "sweep_case \<Rightarrow> case_row" where
  "base_summary_row c = \<lparr>cr_case = c, cr_status = ''OK'', cr_trace_csv = [], cr_metrics = None, cr_error = []\<rparr>"

definition row_failed :: "case_row \<Rightarrow> string \<Rightarrow> case_row" where
  "row_failed row e = row\<lparr>cr_status := ''FAIL'', cr_error := e\<rparr>"

text \<open>The dictionary of a row, as text; \<open>row.update(metrics)\<close> replaces the transaction count.\<close>

definition row_cells :: "case_row \<Rightarrow> (string \<times> string) list" where
  "row_cells row =
     (let c = cr_case row; metric = (\<lambda>f. case cr_metrics row of None \<Rightarrow> [] | Some m \<Rightarrow> f m) in
     [(''case_id'', case_id c), (''status'', cr_status row), (''pattern'', pattern c),
      (''stride'', str_int (stride c)),
      (''num_transactions'', case cr_metrics row of None \<Rightarrow> str_int (num_transactions c)
         | Some m \<Rightarrow> str_int (sm_num_transactions m)),
      (''hotspot_ratio'', hotspot_ratio_text c), (''trace_csv'', cr_trace_csv row),
      (''total_transactions'', metric (\<lambda>m. str_int (sm_num_transactions m))),
      (''avg_latency_ns'', metric sm_avg_latency_ns), (''p50_latency_ns'', metric sm_p50_latency_ns),
      (''p95_latency_ns'', metric sm_p95_latency_ns), (''p99_latency_ns'', metric sm_p99_latency_ns),
      (''max_latency_ns'', metric sm_max_latency_ns),
      (''bank_conflict_ratio_pct'', metric sm_bank_conflict_ratio_pct),
      (''throughput_txn_per_us'', metric sm_throughput_txn_per_us),
      (''avg_queue_delay_ns'', metric sm_avg_queue_delay_ns),
      (''max_queue_delay_ns'', metric sm_max_queue_delay_ns),
      (''avg_target_service_delay_ns'', metric sm_avg_target_service_delay_ns),
      (''total_bank_conflicts'', metric (\<lambda>m. str_int (sm_total_bank_conflicts m))),
      (''error'', cr_error row)])"

text \<open>\<open>row.get(field, "")\<close>.\<close>

definition row_text :: "case_row \<Rightarrow> string \<Rightarrow> string" where
  "row_text row k = (case map_of (row_cells row) k of None \<Rightarrow> [] | Some s \<Rightarrow> s)"

definition write_summary_csv :: "case_row list \<Rightarrow> string list list" where
  "write_summary_csv rows = SUMMARY_FIELDS # map (\<lambda>row. map (row_text row) SUMMARY_FIELDS) rows"

section \<open>Running a case\<close>

record sweep_env =
  config_error :: "sweep_case \<Rightarrow> string option"
  renode_status :: "sweep_case \<Rightarrow> int"
  remove_error :: "sweep_case \<Rightarrow> string"
  left_trace :: "sweep_case \<Rightarrow> string list list option"
  trace_name :: string
  shown_path :: "sweep_case \<Rightarrow> string"

definition analysis_text :: "sweep_case \<Rightarrow> case_row \<Rightarrow> string" where
  "analysis_text c row = py_join [CHR 0x0A]
     ([''pattern='' @ pattern c, ''trace='' @ cr_trace_csv row] @
      map (\<lambda>k. k @ ''='' @ row_text row k)
        [''num_transactions'', ''avg_latency_ns'', ''p50_latency_ns'', ''p95_latency_ns'', ''p99_latency_ns'',
         ''max_latency_ns'', ''bank_conflict_ratio_pct'', ''throughput_txn_per_us''] @ [[]])"

text \<open>The metrics and the validation of a copied trace; a ValueError makes the row fail.\<close>

definition check_trace :: "sweep_case \<Rightarrow> case_row \<Rightarrow> string list list \<Rightarrow> case_row result" where
  "check_trace c row recs =
     (case compute_summary_metrics recs of
        Inl e \<Rightarrow> (case e of ValueError m \<Rightarrow> Inr (row_failed row m) | _ \<Rightarrow> Inl e)
      | Inr metrics \<Rightarrow>
          let row1 = row\<lparr>cr_metrics := Some metrics\<rparr> in
          (case validate_case_trace c recs of
             Inl e \<Rightarrow> (case e of ValueError m \<Rightarrow> Inr (row_failed row1 m) | _ \<Rightarrow> Inl e)
           | Inr errors \<Rightarrow>
               Inr (if errors \<noteq> [] then row_failed row1 (py_join ''; '' (take 4 errors)) else row1)))"

definition run_case :: "sweep_env \<Rightarrow> sweep_case \<Rightarrow> (case_row \<times> string list list option) result" where
  "run_case env c =
     (let row = base_summary_row c in
      case config_error env c of
        Some e \<Rightarrow> Inr (row_failed row (''failed to write workload config: '' @ e), None)
      | None \<Rightarrow>
          if remove_error env c \<noteq> []
          then Inr (row_failed row (''failed to remove workload config: '' @ remove_error env c), None)
          else if renode_status env c \<noteq> 0
          then Inr (row_failed row (''renode-test exited with '' @ str_int (renode_status env c)), None)
          else case left_trace env c of
            None \<Rightarrow> Inr (row_failed row (''trace not found: '' @ trace_name env), None)
          | Some recs \<Rightarrow>
              bindR (check_trace c (row\<lparr>cr_trace_csv := shown_path env c\<rparr>) recs) (\<lambda>row'. Inr (row', Some recs)))"

section \<open>The combined trace\<close>

text \<open>
  The columns are \<open>case_id\<close> and the columns of the traces in order of appearance.  A record with
  more cells than its header has the key \<open>None\<close>, which \<open>csv.DictWriter\<close> refuses; the file with the rows
  before it, which the exception leaves behind, is not an effect of the model.
\<close>

definition add_fields :: "string list \<Rightarrow> string list \<Rightarrow> string list" where
  "add_fields fieldnames new = foldl (\<lambda>fs f. if f \<in> set fs then fs else fs @ [f]) fieldnames new"

definition combined_fields :: "(string \<times> string list list) list \<Rightarrow> string list" where
  "combined_fields traces =
     foldl (\<lambda>fs (c, recs). add_fields fs (case reader_fieldnames recs of None \<Rightarrow> [] | Some h \<Rightarrow> h)) [''case_id''] traces"

definition labelled_rows :: "(string \<times> string list list) list \<Rightarrow> (string \<times> csv_row) list" where
  "labelled_rows traces = concat (map (\<lambda>(c, recs). map (\<lambda>row. (c, row)) (dict_reader recs)) traces)"

definition combined_cell :: "string \<times> csv_row \<Rightarrow> string \<Rightarrow> string" where
  "combined_cell = (\<lambda>(c, row) k. if k = ''case_id'' then c else row_get_or row k)"

definition write_combined_trace :: "(string \<times> string list list) list \<Rightarrow> string list list option result" where
  "write_combined_trace traces =
     (if labelled_rows traces = [] then Inr None
      else bindR (checkR (\<lambda>(c, row). raise_if (extra row) (ValueError ''dict contains fields not in fieldnames: None''))
          (labelled_rows traces)) (\<lambda>_.
        Inr (Some (combined_fields traces # map (\<lambda>lr. map (combined_cell lr) (combined_fields traces)) (labelled_rows traces)))))"

section \<open>The comparison report\<close>

definition PATTERN_DESCRIPTIONS :: "(string \<times> string) list" where
  "PATTERN_DESCRIPTIONS =
    [(''sequential'', ''Contiguous word accesses with `stride=4`; the locality-friendly '' @
        ''baseline for the MVP.''),
     (''stride'', ''Fixed larger-step accesses with `stride=16`; this intentionally maps '' @
        ''back to the same minimal bank more often.''),
     (''hotspot'', ''A concentrated access stream where most transactions target one base '' @
        ''address, controlled by `LT_HOTSPOT_RATIO=0.8`.'')]"

definition metric_float :: "case_row \<Rightarrow> string \<Rightarrow> pyfloat option" where
  "metric_float row k = parse_float (row_text row k)"

definition delta_text :: "case_row \<Rightarrow> case_row \<Rightarrow> string \<Rightarrow> string \<Rightarrow> string" where
  "delta_text row baseline k unit =
     (case (metric_float row k, metric_float baseline k) of
        (Some a, Some b) \<Rightarrow> fmt3_signed (f_sub a b) @ '' '' @ unit
      | _ \<Rightarrow> ''NA'')"

definition row_passed :: "case_row option \<Rightarrow> bool" where
  "row_passed row \<longleftrightarrow> (case row of None \<Rightarrow> False | Some r \<Rightarrow> cr_status r = ''OK'')"

text \<open>\<open>by_pattern.get(p)\<close>: the last row of the pattern.\<close>

definition by_pattern :: "case_row list \<Rightarrow> string \<Rightarrow> case_row option" where
  "by_pattern rows p = find (\<lambda>r. pattern (cr_case r) = p) (rev rows)"

definition delta_cells :: "case_row list \<Rightarrow> case_row \<Rightarrow> string \<Rightarrow> string list" where
  "delta_cells rows baseline p =
     (if p = ''sequential'' \<and> row_passed (by_pattern rows p)
      then ''sequential'' # replicate 6 ''baseline''
      else case by_pattern rows p of
        None \<Rightarrow> [p] @ replicate 5 ''FAIL'' @ [''missing'']
      | Some row \<Rightarrow>
          if \<not> row_passed (Some row) then [p] @ replicate 5 ''FAIL'' @ [cr_error row]
          else [p, delta_text row baseline ''avg_latency_ns'' ''ns'', delta_text row baseline ''p50_latency_ns'' ''ns'',
                delta_text row baseline ''p95_latency_ns'' ''ns'', delta_text row baseline ''p99_latency_ns'' ''ns'',
                delta_text row baseline ''bank_conflict_ratio_pct'' ''pct'',
                delta_text row baseline ''throughput_txn_per_us'' ''txn/us''])"

definition report_scope :: "string list" where
  "report_scope =
    [''# Phase 16A Memory Access Pattern MVP Comparison'', [],
     ''Generated from `summary.csv` by `run_memory_access_pattern_sweep.py`.'', [],
     ''This is an architecture-level SystemC/TLM memory access pattern lab. It '' @
     ''compares exactly three access patterns, `sequential`, `stride`, and '' @
     ''`hotspot`, through the existing LT trace -> metrics -> sweep -> '' @
     ''comparison chain.'', [],
     ''The model is intentionally small: it is not cycle accurate, and it '' @
     ''does not claim AXI, CHI, NoC, cache, or DRAM protocol compliance.'', [],
     ''## Workload Cases'', []]"

definition case_rows :: "string list list" where
  "case_rows = map (\<lambda>c. [pattern c, str_int (stride c), str_int (num_transactions c), hotspot_ratio_text c,
     (case map_of PATTERN_DESCRIPTIONS (pattern c) of None \<Rightarrow> [] | Some d \<Rightarrow> d)]) CASES"

definition delta_lines :: "case_row list \<Rightarrow> string list" where
  "delta_lines rows =
     (case by_pattern rows ''sequential'' of
        Some baseline \<Rightarrow>
          if cr_status baseline = ''OK''
          then markdown_table [''pattern'', ''avg_latency_delta'', ''p50_latency_delta'', ''p95_latency_delta'',
                 ''p99_latency_delta'', ''bank_conflict_ratio_delta'', ''throughput_delta'']
                 (map (delta_cells rows baseline) PATTERN_ORDER)
          else [''Sequential baseline is missing or failed; deltas are unavailable.'']
      | None \<Rightarrow> [''Sequential baseline is missing or failed; deltas are unavailable.''])"

definition report_interpretation :: "string list" where
  "report_interpretation =
    [''- `sequential` is the locality-friendly baseline. Consecutive word '' @
     ''accesses rotate through the minimal bank model, so it should be the '' @
     ''cleanest reference point for both latency and bank conflict ratio.'',
     ''- `stride` keeps the same transaction count but increases the address '' @
     ''step to 16 bytes. In this model that repeatedly aliases to the same '' @
     ''bank, which should raise bank conflict ratio and push average and '' @
     ''tail latency above the sequential baseline.'',
     ''- `hotspot` keeps a small stride for non-hotspot accesses but pins most '' @
     ''transactions to one base address. That deliberately stresses repeated '' @
     ''same-bank service and should expose higher bank conflict and tail '' @
     ''latency than sequential access.'',
     ''- `throughput_txn_per_us` is computed over the observed trace window. '' @
     ''Use it as an internal model comparison metric, not as a hardware '' @
     ''bandwidth claim.'']"

definition sanity_line :: "case_row list \<Rightarrow> string \<Rightarrow> string" where
  "sanity_line rows p =
     (case by_pattern rows p of
        None \<Rightarrow> ''- `'' @ p @ ''`: FAIL - missing from `summary.csv`''
      | Some row \<Rightarrow>
          if cr_status row = ''OK'' then ''- `'' @ p @ ''`: OK''
          else ''- `'' @ p @ ''`: FAIL - '' @ cr_error row)"

definition comparison_report_lines :: "case_row list \<Rightarrow> string list" where
  "comparison_report_lines rows =
     report_scope
     @ markdown_table [''pattern'', ''stride'', ''num_transactions'', ''hotspot_ratio'', ''intent''] case_rows
     @ [[], ''## Summary Metrics'', []]
     @ markdown_table REQUIRED_MVP_SUMMARY_FIELDS
         (map (\<lambda>row. map (row_text row) REQUIRED_MVP_SUMMARY_FIELDS) (List.map_filter (by_pattern rows) PATTERN_ORDER))
     @ [[], ''## Delta vs Sequential'', []] @ delta_lines rows
     @ [[], ''## Interpretation'', []] @ report_interpretation
     @ [[], ''## Sanity Checks'', []] @ map (sanity_line rows) PATTERN_ORDER @ [[]]"

definition write_comparison_report :: "case_row list \<Rightarrow> string" where
  "write_comparison_report rows = py_join [CHR 0x0A] (comparison_report_lines rows)"

section \<open>The run\<close>

text \<open>The files in the order in which they are written, each listed once it is complete.\<close>

datatype sweep_effect =
    ResetCaseDir string
  | WriteConfig string
  | RunTest string
  | RemoveConfig
  | CopyTrace string "string list list"
  | WriteAnalysis string string
  | WriteSummary "string list list"
  | WriteCombined "string list list"
  | WriteReport string

text \<open>
  The loop over the cases: the rows so far, the traces with their case, whether a case failed and
  the files written.  \<open>summary.csv\<close> is written after every case; the first failure ends the loop
  unless \<open>--keep-going\<close> is given.
\<close>

record sweep_state =
  sw_rows :: "case_row list"
  sw_traces :: "(string \<times> string list list) list"
  sw_failed :: bool
  sw_effects :: "sweep_effect list"

text \<open>What \<open>run_case\<close> does to the files before it judges the trace; \<open>analysis.txt\<close> is only written for a
  case that passes.\<close>

definition case_effects :: "sweep_env \<Rightarrow> sweep_case \<Rightarrow> sweep_effect list" where
  "case_effects env c = ResetCaseDir (case_id c) #
     (if config_error env c \<noteq> None then []
      else [WriteConfig (workload_config_text c), RunTest (case_id c), RemoveConfig] @
        (if remove_error env c \<noteq> [] \<or> renode_status env c \<noteq> 0 then []
         else case left_trace env c of None \<Rightarrow> [] | Some recs \<Rightarrow> [CopyTrace (case_id c) recs]))"

definition after_case :: "sweep_env \<Rightarrow> sweep_case \<Rightarrow> case_row \<Rightarrow> string list list option \<Rightarrow> sweep_state \<Rightarrow> sweep_state" where
  "after_case env c row trace st =
     st\<lparr>sw_rows := sw_rows st @ [row],
        sw_traces := sw_traces st @ (case trace of None \<Rightarrow> [] | Some recs \<Rightarrow> [(case_id c, recs)]),
        sw_failed := (sw_failed st \<or> cr_status row \<noteq> ''OK''),
        sw_effects := sw_effects st @ case_effects env c
          @ (if cr_status row = ''OK'' then [WriteAnalysis (case_id c) (analysis_text c row)] else [])
          @ [WriteSummary (write_summary_csv (sw_rows st @ [row]))]\<rparr>"

fun sweep_cases :: "sweep_env \<Rightarrow> bool \<Rightarrow> sweep_case list \<Rightarrow> sweep_state \<Rightarrow> sweep_state \<times> unit result" where
  "sweep_cases env keep_going [] st = (st, Inr ())"
| "sweep_cases env keep_going (c # cs) st =
     (case run_case env c of
        Inl e \<Rightarrow> (st\<lparr>sw_effects := sw_effects st @ case_effects env c\<rparr>, Inl e)
      | Inr (row, trace) \<Rightarrow>
          let st' = after_case env c row trace st in
          if cr_status row \<noteq> ''OK'' \<and> \<not> keep_going then (st', Inr ())
          else sweep_cases env keep_going cs st')"

definition finish_sweep :: "sweep_state \<Rightarrow> sweep_effect list \<times> int result" where
  "finish_sweep st =
     (case write_combined_trace (sw_traces st) of
        Inl e \<Rightarrow> (sw_effects st, Inl e)
      | Inr combined \<Rightarrow>
          (sw_effects st @ (case combined of None \<Rightarrow> [] | Some recs \<Rightarrow> [WriteCombined recs])
             @ [WriteReport (write_comparison_report (sw_rows st))],
           Inr (if sw_failed st \<or> combined = None then 1 else 0)))"

definition main_sweep :: "sweep_env \<Rightarrow> bool \<Rightarrow> sweep_effect list \<times> int result" where
  "main_sweep env keep_going =
     (case validate_case_definitions of
        Inl e \<Rightarrow> ([], Inr 1)
      | Inr _ \<Rightarrow>
          (case sweep_cases env keep_going CASES
               \<lparr>sw_rows = [], sw_traces = [], sw_failed = False, sw_effects = [RemoveConfig]\<rparr> of
             (st, Inl e) \<Rightarrow> (sw_effects st, Inl e)
           | (st, Inr _) \<Rightarrow> finish_sweep st))"

section \<open>Cases that pass\<close>

definition case_ok :: "sweep_env \<Rightarrow> sweep_case \<Rightarrow> string list list \<Rightarrow> bool" where
  "case_ok env c recs \<longleftrightarrow> (\<exists>row. run_case env c = Inr (row, Some recs) \<and> cr_status row = ''OK'')"

lemma failed_status [simp]: "cr_status (row_failed row e) = ''FAIL''"
  by (simp add: row_failed_def)

text \<open>The status of a case decides whether it was judged at all: an \<open>OK\<close> row has a trace with rows.\<close>

lemma check_trace_rows: "check_trace c row recs = Inr row' \<Longrightarrow> cr_status row' = ''OK'' \<Longrightarrow> dict_reader recs \<noteq> []"
proof -
  assume a: "check_trace c row recs = Inr row'" "cr_status row' = ''OK''"
  then obtain m where "compute_summary_metrics recs = Inr m"
    unfolding check_trace_def by (cases "compute_summary_metrics recs") (auto split: exn.splits)
  then obtain rows where "rows \<noteq> []" "set rows \<subseteq> set (dict_reader recs)" using metrics_inversion by blast
  then show ?thesis by auto
qed

lemma run_case_trace:
  "run_case env c = Inr (row, tr) \<Longrightarrow> cr_status row = ''OK'' \<Longrightarrow> \<exists>recs. tr = Some recs \<and> dict_reader recs \<noteq> []"
proof -
  assume a: "run_case env c = Inr (row, tr)" "cr_status row = ''OK''"
  show ?thesis
  proof (cases "left_trace env c")
    case None
    then show ?thesis using a by (auto simp: run_case_def Let_def split: option.splits if_splits)
  next
    case (Some recs)
    then have "check_trace c ((base_summary_row c)\<lparr>cr_trace_csv := shown_path env c\<rparr>) recs = Inr row" "tr = Some recs"
      using a by (auto simp: run_case_def Let_def bindR_eq_Inr split: option.splits if_splits)
    then show ?thesis using check_trace_rows [OF _ a(2)] by blast
  qed
qed

lemma after_case_simps [simp]:
  "sw_failed (after_case env c row tr st) = (sw_failed st \<or> cr_status row \<noteq> ''OK'')"
  "sw_traces (after_case env c row tr st) = sw_traces st @ (case tr of None \<Rightarrow> [] | Some recs \<Rightarrow> [(case_id c, recs)])"
  "sw_rows (after_case env c row tr st) = sw_rows st @ [row]"
  by (simp_all add: after_case_def)

lemma sweep_cases_pass:
  "\<forall>c \<in> set cs. case_ok env c (f c) \<Longrightarrow> \<exists>st'. sweep_cases env kg cs st = (st', Inr ()) \<and>
     sw_failed st' = sw_failed st \<and> sw_traces st' = sw_traces st @ map (\<lambda>c. (case_id c, f c)) cs"
proof (induction cs arbitrary: st)
  case (Cons c cs)
  then obtain row where r: "run_case env c = Inr (row, Some (f c))" "cr_status row = ''OK''"
    by (auto simp: case_ok_def)
  obtain st' where "sweep_cases env kg cs (after_case env c row (Some (f c)) st) = (st', Inr ())"
      "sw_failed st' = sw_failed st" "sw_traces st' = sw_traces st @ (case_id c, f c) # map (\<lambda>c. (case_id c, f c)) cs"
    using Cons.IH [of "after_case env c row (Some (f c)) st"] Cons.prems r by auto
  then show ?case using r by (simp add: Let_def)
qed simp

text \<open>A case that fails is never forgotten.\<close>

lemma sweep_cases_unfailed:
  "sweep_cases env kg cs st = (st', Inr ()) \<Longrightarrow> \<not> sw_failed st' \<Longrightarrow>
     \<not> sw_failed st \<and> (\<forall>c \<in> set cs. \<exists>recs. case_ok env c recs)"
proof (induction cs arbitrary: st)
  case (Cons c cs)
  obtain row tr where r: "run_case env c = Inr (row, tr)"
    using Cons.prems(1) by (cases "run_case env c") auto
  have ok: "cr_status row = ''OK''"
  proof (rule ccontr)
    assume n: "cr_status row \<noteq> ''OK''"
    then have failed: "sw_failed (after_case env c row tr st)" by simp
    have "sweep_cases env kg cs (after_case env c row tr st) = (st', Inr ()) \<or> st' = after_case env c row tr st"
      using Cons.prems(1) by (simp add: r Let_def split: if_splits)
    then show False using failed Cons.IH Cons.prems(2) by blast
  qed
  then have "sweep_cases env kg cs (after_case env c row tr st) = (st', Inr ())"
    using Cons.prems(1) by (simp add: r Let_def)
  from Cons.IH [OF this Cons.prems(2)] have "\<not> sw_failed st" "\<forall>c \<in> set cs. \<exists>recs. case_ok env c recs" by simp_all
  moreover have "\<exists>recs. case_ok env c recs"
    using run_case_trace [OF r ok] r ok by (auto simp: case_ok_def)
  ultimately show ?case by simp
qed simp

lemma definitions_valid: "validate_case_definitions = Inr ()"
  by code_simp

definition start_state :: sweep_state where
  "start_state = \<lparr>sw_rows = [], sw_traces = [], sw_failed = False, sw_effects = [RemoveConfig]\<rparr>"

lemma main_sweep_eq: "main_sweep env kg =
    (case sweep_cases env kg CASES start_state of (st, Inl e) \<Rightarrow> (sw_effects st, Inl e) | (st, Inr _) \<Rightarrow> finish_sweep st)"
  by (simp add: main_sweep_def definitions_valid start_state_def)

lemma labelled_mem: "(w, row) \<in> set (labelled_rows ts) \<longleftrightarrow> (\<exists>recs. (w, recs) \<in> set ts \<and> row \<in> set (dict_reader recs))"
  by (auto simp: labelled_rows_def)

lemma combined_cases:
  assumes "\<exists>t \<in> set ts. dict_reader (snd t) \<noteq> []"
  shows "write_combined_trace ts =
    (if \<exists>t \<in> set ts. \<exists>row \<in> set (dict_reader (snd t)). extra row
     then Inl (ValueError ''dict contains fields not in fieldnames: None'')
     else Inr (Some (combined_fields ts # map (\<lambda>lr. map (combined_cell lr) (combined_fields ts)) (labelled_rows ts))))"
proof -
  let ?chk = "\<lambda>(c, row). raise_if (extra row) (ValueError ''dict contains fields not in fieldnames: None'')"
  have ne: "labelled_rows ts \<noteq> []" using assms unfolding labelled_rows_def by fastforce
  show ?thesis
  proof (cases "checkR ?chk (labelled_rows ts)")
    case (Inl e)
    then have "e = ValueError ''dict contains fields not in fieldnames: None''"
      "\<exists>(w, row) \<in> set (labelled_rows ts). extra row"
      unfolding checkR_eq_Inl by (auto simp: raise_if_eq_Inl)
    then have "e = ValueError ''dict contains fields not in fieldnames: None''"
      "\<exists>t \<in> set ts. \<exists>row \<in> set (dict_reader (snd t)). extra row"
      by (blast, metis labelled_mem case_prodE snd_conv)
    then show ?thesis using ne Inl by (simp add: write_combined_trace_def)
  next
    case (Inr u)
    then have "\<forall>(w, row) \<in> set (labelled_rows ts). \<not> extra row"
      by (auto simp: checkR_eq_Inr raise_if_eq_Inr)
    then have "\<not> (\<exists>t \<in> set ts. \<exists>row \<in> set (dict_reader (snd t)). extra row)"
      by (fastforce simp: labelled_mem)
    then show ?thesis using ne Inr by (simp add: write_combined_trace_def)
  qed
qed

lemma case_ok_rows: "case_ok env c recs \<Longrightarrow> dict_reader recs \<noteq> []"
  using run_case_trace by (fastforce simp: case_ok_def)

lemma main_sweep_all_ok:
  assumes "\<forall>c \<in> set CASES. case_ok env c (f c)"
  shows "\<exists>st. sweep_cases env kg CASES start_state = (st, Inr ()) \<and> \<not> sw_failed st \<and>
    write_combined_trace (sw_traces st) =
      (if \<exists>c \<in> set CASES. \<exists>row \<in> set (dict_reader (f c)). extra row
       then Inl (ValueError ''dict contains fields not in fieldnames: None'')
       else Inr (Some (combined_fields (sw_traces st) #
              map (\<lambda>lr. map (combined_cell lr) (combined_fields (sw_traces st))) (labelled_rows (sw_traces st)))))"
proof -
  obtain st where st: "sweep_cases env kg CASES start_state = (st, Inr ())" "\<not> sw_failed st"
      "sw_traces st = map (\<lambda>c. (case_id c, f c)) CASES"
    using sweep_cases_pass [OF assms, of kg start_state] by (auto simp: start_state_def)
  have "hd CASES \<in> set CASES" by (simp add: CASES_def)
  then have "\<exists>t \<in> set (sw_traces st). dict_reader (snd t) \<noteq> []"
    using assms case_ok_rows unfolding st(3) set_map by (intro bexI [of _ "(case_id (hd CASES), f (hd CASES))"]) auto
  from combined_cases [OF this] st show ?thesis by (intro exI [of _ st]) (auto simp: st(3))
qed

lemma main_sweep_zero:
  "snd (main_sweep env kg) = Inr 0 \<longleftrightarrow>
     (\<forall>c \<in> set CASES. \<exists>recs. case_ok env c recs \<and> (\<forall>row \<in> set (dict_reader recs). \<not> extra row))"
proof
  assume z: "snd (main_sweep env kg) = Inr 0"
  then obtain st where st: "sweep_cases env kg CASES start_state = (st, Inr ())"
    unfolding main_sweep_eq by (auto split: prod.splits sum.splits)
  then have f: "snd (finish_sweep st) = Inr 0" using z by (simp add: main_sweep_eq)
  then have "\<not> sw_failed st" by (auto simp: finish_sweep_def split: sum.splits if_splits)
  from sweep_cases_unfailed [OF st this] have "\<forall>c \<in> set CASES. \<exists>recs. case_ok env c recs" by blast
  then obtain g where g: "\<forall>c \<in> set CASES. case_ok env c (g c)" by metis
  from main_sweep_all_ok [OF this, of kg] st f show "\<forall>c \<in> set CASES. \<exists>recs. case_ok env c recs \<and> (\<forall>row \<in> set (dict_reader recs). \<not> extra row)"
    using g by (auto simp: finish_sweep_def split: if_splits)
next
  assume "\<forall>c \<in> set CASES. \<exists>recs. case_ok env c recs \<and> (\<forall>row \<in> set (dict_reader recs). \<not> extra row)"
  then obtain g where g: "\<forall>c \<in> set CASES. case_ok env c (g c)" "\<forall>c \<in> set CASES. \<forall>row \<in> set (dict_reader (g c)). \<not> extra row" by metis
  from main_sweep_all_ok [OF g(1), of kg] g(2) show "snd (main_sweep env kg) = Inr 0"
    by (auto simp: main_sweep_eq finish_sweep_def)
qed

text \<open>C18. The sweep returns 0 exactly when every one of the three cases passes (its run, its metrics and its
  validation succeed) and no record of the three traces has more cells than its header; \<open>--keep-going\<close>
  never turns a failed sweep into a successful one.\<close>

theorem main_sweep_zero_iff:
  "snd (main_sweep env keep_going) = Inr 0 \<longleftrightarrow>
     (\<forall>c \<in> set CASES. \<exists>recs. case_ok env c recs \<and> (\<forall>row \<in> set (dict_reader recs). \<not> extra row))"
  by (rule main_sweep_zero)

text \<open>An environment in which every run succeeds and leaves the given trace.\<close>

definition env_of :: "string list list \<Rightarrow> sweep_env" where
  "env_of recs = \<lparr>config_error = (\<lambda>_. None), renode_status = (\<lambda>_. 0), remove_error = (\<lambda>_. []),
     left_trace = (\<lambda>_. Some recs), trace_name = ''latency_trace.csv'', shown_path = (\<lambda>c. case_id c @ ''/trace.csv'')\<rparr>"

lemma env_of_runs: "config_error (env_of recs) c = None" "remove_error (env_of recs) c = []"
  "renode_status (env_of recs) c = 0" "left_trace (env_of recs) c = Some recs"
  by (simp_all add: env_of_def)

definition plain_case_row :: "sweep_case \<Rightarrow> case_row" where
  "plain_case_row c = (base_summary_row c)\<lparr>cr_trace_csv := case_id c @ ''/trace.csv'', cr_metrics := Some plain_metrics\<rparr>"

lemma plain_run: "c \<in> set CASES \<Longrightarrow> run_case (env_of plain_trace) c = Inr (plain_case_row c, Some plain_trace)"
proof -
  have "list_all (\<lambda>c. validate_case_trace c plain_trace = Inr []) CASES" by code_simp
  then show "c \<in> set CASES \<Longrightarrow> run_case (env_of plain_trace) c = Inr (plain_case_row c, Some plain_trace)"
    by (simp add: list_all_iff run_case_def env_of_def check_trace_def plain_metrics_computed plain_case_row_def Let_def)
qed

lemma plain_case_ok: "c \<in> set CASES \<Longrightarrow> case_ok (env_of plain_trace) c plain_trace"
  using plain_run by (simp add: case_ok_def plain_case_row_def base_summary_row_def)

theorem main_sweep_zero_iff_witness:
  "snd (main_sweep (env_of plain_trace) False) = Inr 0"
proof -
  have "list_all (\<lambda>row. \<not> extra row) (dict_reader plain_trace)" by code_simp
  then have "\<forall>row \<in> set (dict_reader plain_trace). \<not> extra row" by (simp add: list_all_iff)
  then show ?thesis unfolding main_sweep_zero_iff using plain_case_ok by blast
qed







lemma sweep_first_error: "run_case env c = Inl e \<Longrightarrow> sweep_cases env kg (c # cs) st = (st\<lparr>sw_effects := sw_effects st @ case_effects env c\<rparr>, Inl e)"
  by simp

text \<open>C39. A ratio column that holds text makes the sweep crash: when the metrics of a case's trace are fine but every
  nonempty \<open>workload_hotspot_ratio\<close> cell of its rows is not a number, the subtraction in
  \<open>validate_case_trace\<close> is applied to \<open>None\<close>, and the TypeError, which \<open>run_case\<close> does not catch, ends
  the sweep; when it is the first case, no summary, no combined trace and no report have been written.\<close>

theorem text_ratio_uncaught:
  assumes "config_error env c = None" and "remove_error env c = []" and "renode_status env c = 0"
    and "left_trace env c = Some recs" and "compute_summary_metrics recs = Inr m"
    and "reader_fieldnames recs = Some h" and "''workload_hotspot_ratio'' \<in> set h"
    and "ratio_cells (selected_rows (dict_reader recs) h) \<noteq> []"
    and "\<forall>s \<in> set (ratio_cells (selected_rows (dict_reader recs) h)). parse_float s = None"
  shows "run_case env c = Inl TypeError \<and> (c = hd CASES \<longrightarrow> main_sweep env keep_going = (RemoveConfig # case_effects env c, Inl TypeError))"
proof -
  have r: "run_case env c = Inl TypeError"
    unfolding run_case_def Let_def using assms(1-5) validate_text_ratio [OF assms(5-9)]
    by (simp add: check_trace_def Let_def)
  have "CASES = hd CASES # tl CASES" by (simp add: CASES_def)
  then have "c = hd CASES \<Longrightarrow> sweep_cases env keep_going CASES start_state =
      (start_state\<lparr>sw_effects := sw_effects start_state @ case_effects env c\<rparr>, Inl TypeError)"
    using sweep_first_error [OF r] by metis
  then show ?thesis using r by (simp add: main_sweep_eq start_state_def)
qed

definition ratio_trace :: "string list list" where
  "ratio_trace = [[''start_time_ns'', ''end_time_ns'', ''bank_conflict'', ''total_delay_ns'', ''workload_hotspot_ratio''],
     [''0'', ''100'', ''0'', ''100'', ''none''], [''100'', ''220'', ''true'', ''120'', ''none'']]"

theorem text_ratio_uncaught_witness:
  "main_sweep (env_of ratio_trace) True = (RemoveConfig # case_effects (env_of ratio_trace) (hd CASES), Inl TypeError)"
proof -
  let ?h = "hd ratio_trace"
  have m: "compute_summary_metrics ratio_trace = Inr plain_metrics" by code_simp
  have h: "reader_fieldnames ratio_trace = Some ?h" "''workload_hotspot_ratio'' \<in> set ?h"
    by (simp_all add: ratio_trace_def reader_fieldnames_def)
  have "ratio_cells (selected_rows (dict_reader ratio_trace) ?h) = [''none'', ''none'']" by code_simp
  then have c: "ratio_cells (selected_rows (dict_reader ratio_trace) ?h) \<noteq> []"
    "\<forall>s \<in> set (ratio_cells (selected_rows (dict_reader ratio_trace) ?h)). s = ''none''" by simp_all
  have p: "parse_float ''none'' = None" by code_simp
  have "\<forall>s \<in> set (ratio_cells (selected_rows (dict_reader ratio_trace) ?h)). parse_float s = None"
  proof
    fix s assume "s \<in> set (ratio_cells (selected_rows (dict_reader ratio_trace) ?h))"
    then have "s = ''none''" by (rule bspec [OF c(2)])
    then show "parse_float s = None" by (simp only: p)
  qed
  from text_ratio_uncaught [OF env_of_runs m h c(1) this, of "hd CASES" True] show ?thesis
    by (rule conjunct2 [THEN mp [OF _ refl]])
qed

end
