(* ===== verification/Replay_Compare.thy ===== *)
theory Replay_Compare
  imports Trace_Summary Py_Repr
begin

text \<open>
  \<open>examples/lt/tools/compare_python_cpp_replay_outputs.py\<close>: the comparison of the \<open>summary.csv\<close> that the
  Python replay writes with the one of the C++ replay.  Both files are given as the records that
  \<open>csv.reader\<close> yields, \<open>None\<close> where the file does not exist.
\<close>

section \<open>Reading\<close>

definition COMPARE_FIELDS :: "string list" where
  "COMPARE_FIELDS =
    [''workload_name'', ''num_transactions'', ''avg_latency_ns'', ''p50_latency_ns'', ''p95_latency_ns'',
     ''p99_latency_ns'', ''max_latency_ns'', ''bank_conflict_ratio_pct'', ''throughput_txn_per_us'']"

definition STRING_FIELDS :: "string list" where
  "STRING_FIELDS = [''workload_name'']"

definition INT_FIELDS :: "string list" where
  "INT_FIELDS = [''num_transactions'']"

definition read_summary :: "string \<Rightarrow> string list list option \<Rightarrow> (string list \<times> csv_row list) result" where
  "read_summary path file =
     bindR (opt_or_raise file (CompareError (''summary.csv not found: '' @ path))) (\<lambda>recs.
     let fieldnames = (case reader_fieldnames recs of None \<Rightarrow> [] | Some h \<Rightarrow> h); rows = dict_reader recs in
     bindR (raise_if (fieldnames = []) (CompareError (''summary.csv has no header: '' @ path))) (\<lambda>_.
     bindR (raise_if (rows = []) (CompareError (''summary.csv has no rows: '' @ path))) (\<lambda>_.
     let missing = filter (\<lambda>f. f \<notin> set fieldnames) COMPARE_FIELDS in
     bindR (raise_if (missing \<noteq> [])
       (CompareError (''summary.csv missing required fields in '' @ path @ '': '' @ py_join '', '' missing))) (\<lambda>_.
     Inr (fieldnames, rows)))))"

section \<open>Comparing\<close>

definition parse_int :: "string option \<Rightarrow> string \<Rightarrow> string \<Rightarrow> string \<Rightarrow> int result" where
  "parse_int v workload k side = opt_or_raise (cell_int v)
     (CompareError (workload @ '' '' @ k @ '': '' @ side @ '' value is not an integer: '' @ repr_opt v))"

definition parse_float_value :: "string option \<Rightarrow> string \<Rightarrow> string \<Rightarrow> string \<Rightarrow> pyfloat result" where
  "parse_float_value v workload k side = opt_or_raise (cell_float v)
     (CompareError (workload @ '' '' @ k @ '': '' @ side @ '' value is not a float: '' @ repr_opt v))"

text \<open>The tolerance comes with the text Python prints for it.\<close>

definition mismatch :: "string \<Rightarrow> string \<Rightarrow> string option \<Rightarrow> string option \<Rightarrow> string" where
  "mismatch workload k p c = workload @ '' '' @ k @ '' mismatch: python='' @ repr_opt p @ '' cpp='' @ repr_opt c"

definition compare_field ::
  "pyfloat \<Rightarrow> string \<Rightarrow> string \<Rightarrow> csv_row \<Rightarrow> csv_row \<Rightarrow> string \<Rightarrow> unit result" where
  "compare_field tolerance tolerance_text workload python_row cpp_row k =
     (let p = row_get python_row k; c = row_get cpp_row k in
      if k \<in> set STRING_FIELDS then raise_if (p \<noteq> c) (CompareError (mismatch workload k p c))
      else if k \<in> set INT_FIELDS then
        bindR (parse_int p workload k ''Python'') (\<lambda>a. bindR (parse_int c workload k ''C++'') (\<lambda>b.
        raise_if (a \<noteq> b) (CompareError (mismatch workload k p c))))
      else
        bindR (parse_float_value p workload k ''Python'') (\<lambda>a.
        bindR (parse_float_value c workload k ''C++'') (\<lambda>b.
        raise_if (f_lt tolerance (f_abs (f_sub a b)))
          (CompareError (mismatch workload k p c @ '' tolerance='' @ tolerance_text)))))"

definition compare_rows :: "pyfloat \<Rightarrow> string \<Rightarrow> nat \<times> csv_row \<times> csv_row \<Rightarrow> unit result" where
  "compare_rows tolerance tolerance_text = (\<lambda>(index, python_row, cpp_row).
     let p = row_get python_row ''workload_name''; c = row_get cpp_row ''workload_name'' in
     bindR (raise_if (p \<noteq> c) (CompareError (''workload_name mismatch at summary.csv row '' @ str_nat index @
       '': python='' @ repr_opt p @ '' cpp='' @ repr_opt c))) (\<lambda>_.
     let workload = (case p of None \<Rightarrow> ''row '' @ str_nat index | Some w \<Rightarrow> if w = [] then ''row '' @ str_nat index else w) in
     checkR (compare_field tolerance tolerance_text workload python_row cpp_row) COMPARE_FIELDS))"

definition compare_summaries ::
  "string \<times> string list list option \<Rightarrow> string \<times> string list list option \<Rightarrow> pyfloat \<Rightarrow> string \<Rightarrow> unit result" where
  "compare_summaries python_file cpp_file tolerance tolerance_text =
     bindR (read_summary (fst python_file) (snd python_file)) (\<lambda>(python_fields, python_rows).
     bindR (read_summary (fst cpp_file) (snd cpp_file)) (\<lambda>(cpp_fields, cpp_rows).
     bindR (raise_if (python_fields \<noteq> cpp_fields) (CompareError (''summary.csv field mismatch:'' @ [CHR 0x0A] @
       ''  python: '' @ py_join '', '' python_fields @ [CHR 0x0A] @ ''  cpp:    '' @ py_join '', '' cpp_fields))) (\<lambda>_.
     bindR (raise_if (length python_rows \<noteq> length cpp_rows) (CompareError (''summary.csv row count mismatch: python='' @
       str_nat (length python_rows) @ '' cpp='' @ str_nat (length cpp_rows)))) (\<lambda>_.
     checkR (compare_rows tolerance tolerance_text) (zip [2..<2 + length python_rows] (zip python_rows cpp_rows))))))"

definition main_compare ::
  "string \<times> string list list option \<Rightarrow> string \<times> string list list option \<Rightarrow> pyfloat \<Rightarrow> string \<Rightarrow> int result" where
  "main_compare python_file cpp_file tolerance tolerance_text =
     bindR (raise_if (f_lt tolerance f_zero) (CompareError ''--tolerance must be non-negative'')) (\<lambda>_.
     bindR (compare_summaries python_file cpp_file tolerance tolerance_text) (\<lambda>_. Inr 0))"

section \<open>What the comparison accepts\<close>

definition METRICS :: "string list" where
  "METRICS = [''avg_latency_ns'', ''p50_latency_ns'', ''p95_latency_ns'', ''p99_latency_ns'', ''max_latency_ns'',
     ''bank_conflict_ratio_pct'', ''throughput_txn_per_us'']"

definition rows_agree :: "pyfloat \<Rightarrow> csv_row \<Rightarrow> csv_row \<Rightarrow> bool" where
  "rows_agree tolerance p c \<longleftrightarrow>
     row_get p ''workload_name'' = row_get c ''workload_name'' \<and>
     cell_int (row_get p ''num_transactions'') \<noteq> None \<and>
     cell_int (row_get p ''num_transactions'') = cell_int (row_get c ''num_transactions'') \<and>
     (\<forall>k \<in> set METRICS. \<exists>a b. cell_float (row_get p k) = Some a \<and> cell_float (row_get c k) = Some b \<and>
        \<not> f_lt tolerance (f_abs (f_sub a b)))"

lemma compare_metric:
  "k \<in> set METRICS \<Longrightarrow> compare_field tol tt w p c k = Inr () \<longleftrightarrow>
     (\<exists>a b. cell_float (row_get p k) = Some a \<and> cell_float (row_get c k) = Some b \<and> \<not> f_lt tol (f_abs (f_sub a b)))"
proof -
  assume "k \<in> set METRICS"
  then have "k \<notin> set STRING_FIELDS" "k \<notin> set INT_FIELDS" by (auto simp: METRICS_def STRING_FIELDS_def INT_FIELDS_def)
  then show ?thesis
    by (simp add: compare_field_def Let_def parse_float_value_def result_simps)
qed

lemma compare_name: "compare_field tol tt w p c ''workload_name'' = Inr () \<longleftrightarrow> row_get p ''workload_name'' = row_get c ''workload_name''"
  by (simp add: compare_field_def Let_def STRING_FIELDS_def result_simps)

lemma compare_count: "compare_field tol tt w p c ''num_transactions'' = Inr () \<longleftrightarrow>
    cell_int (row_get p ''num_transactions'') \<noteq> None \<and>
    cell_int (row_get p ''num_transactions'') = cell_int (row_get c ''num_transactions'')"
  by (auto simp: compare_field_def Let_def STRING_FIELDS_def INT_FIELDS_def parse_int_def result_simps)

lemma compare_fields_split: "set COMPARE_FIELDS = {''workload_name'', ''num_transactions''} \<union> set METRICS"
  by (auto simp: COMPARE_FIELDS_def METRICS_def)

lemma compare_rows_iff: "compare_rows tol tt (i, p, c) = Inr () \<longleftrightarrow> rows_agree tol p c"
  unfolding compare_rows_def rows_agree_def prod.case Let_def bindR_eq_Inr raise_if_eq_Inr checkR_eq_Inr compare_fields_split
  by (auto simp: ball_Un compare_metric compare_name compare_count)

lemma read_summary_iff:
  "read_summary path file = Inr (h, rows) \<longleftrightarrow>
     (\<exists>recs. file = Some recs \<and> reader_fieldnames recs = Some h \<and> rows = dict_reader recs \<and> rows \<noteq> [] \<and>
       set COMPARE_FIELDS \<subseteq> set h)"
proof (cases "file = None")
  case False
  then obtain recs where Some: "file = Some recs" by auto
  have ne: "COMPARE_FIELDS \<noteq> []" by (simp add: COMPARE_FIELDS_def)
  show ?thesis
    unfolding read_summary_def Let_def Some
    by (cases "reader_fieldnames recs")
      (use ne in \<open>auto simp: bindR_eq_Inr opt_or_raise_eq_Inr raise_if_eq_Inr filter_empty_conv\<close>)
qed (simp add: read_summary_def opt_or_raise_def)

lemma zip_index_all:
  "length xs = length ys \<Longrightarrow>
     (\<forall>t \<in> set (zip [k..<k + length xs] (zip xs ys)). case t of (i, x, y) \<Rightarrow> P x y) \<longleftrightarrow> list_all2 P xs ys"
proof (induction xs ys arbitrary: k rule: list_induct2)
  case (Cons x xs y ys)
  have "[k..<k + length (x # xs)] = k # [Suc k..<Suc k + length xs]" by (simp add: upt_conv_Cons del: upt_Suc)
  then show ?case using Cons.IH [of "Suc k"] by (simp del: upt_Suc)
qed simp

lemma compare_summaries_iff:
  "compare_summaries (pp, pf) (cp, cf) tol tt = Inr () \<longleftrightarrow>
     (\<exists>h precs crecs. pf = Some precs \<and> cf = Some crecs \<and>
        reader_fieldnames precs = Some h \<and> reader_fieldnames crecs = Some h \<and> set COMPARE_FIELDS \<subseteq> set h \<and>
        dict_reader precs \<noteq> [] \<and> list_all2 (rows_agree tol) (dict_reader precs) (dict_reader crecs))"
proof -
  have all: "checkR (compare_rows tol tt) (zip [2..<2 + length xs] (zip xs ys)) = Inr () \<longleftrightarrow> list_all2 (rows_agree tol) xs ys"
    if "length xs = length ys" for xs ys
    unfolding checkR_eq_Inr zip_index_all [OF that, of 2 "rows_agree tol", symmetric]
    by (auto simp: compare_rows_iff)
  have "compare_summaries (pp, pf) (cp, cf) tol tt = Inr () \<longleftrightarrow>
    (\<exists>h ps cs. read_summary pp pf = Inr (h, ps) \<and> read_summary cp cf = Inr (h, cs) \<and> length ps = length cs \<and>
       checkR (compare_rows tol tt) (zip [2..<2 + length ps] (zip ps cs)) = Inr ())"
    unfolding compare_summaries_def fst_conv snd_conv by (auto simp: bindR_eq_Inr raise_if_eq_Inr simp del: upt_Suc)
  also have "\<dots> \<longleftrightarrow> (\<exists>h ps cs. read_summary pp pf = Inr (h, ps) \<and> read_summary cp cf = Inr (h, cs) \<and>
       list_all2 (rows_agree tol) ps cs)"
    using all list_all2_lengthD by blast
  finally show ?thesis unfolding read_summary_iff by (auto dest: list_all2_lengthD)
qed

text \<open>C16. The comparison is exact: \<open>compare_summaries\<close> accepts two files precisely when both exist, have the
  same header with the nine required columns, the same nonzero number of rows, and row by row the same
  workload name, transaction counts that read as the same integer, and metrics that read as floats whose
  difference does not exceed the tolerance (as Python compares: a NaN exceeds nothing).\<close>

theorem compare_summaries_exact:
  "compare_summaries (pp, pf) (cp, cf) tol tt = Inr () \<longleftrightarrow>
     (\<exists>h precs crecs. pf = Some precs \<and> cf = Some crecs \<and>
        reader_fieldnames precs = Some h \<and> reader_fieldnames crecs = Some h \<and> set COMPARE_FIELDS \<subseteq> set h \<and>
        dict_reader precs \<noteq> [] \<and> list_all2 (rows_agree tol) (dict_reader precs) (dict_reader crecs))"
  by (rule compare_summaries_iff)

section \<open>The replay's own output\<close>

text \<open>The records of \<open>summary.csv\<close>, as \<open>write_summary_csv\<close> of the replay tool writes them.\<close>

definition summary_csv :: "summary list \<Rightarrow> string list list" where
  "summary_csv ss = Trace_Replay.SUMMARY_FIELDS # map summary_cells ss"

lemma self_difference: "\<not> f_lt tol f_zero \<Longrightarrow> \<not> f_lt tol (f_abs (f_sub x x))"
proof (cases x)
  case (Fin s m e)
  have "f_sub x x = mk_scaled False 0 e"
    unfolding Fin by (cases s) (simp_all add: f_sub_def aligned_def of_scaled_def)
  moreover have r: "rounds_to False (mag 0 e) (mk_scaled False 0 e)" by (rule mk_scaled_rounds) simp
  moreover have "\<exists>n g. mk_scaled False 0 e = Fin False n g \<and> 0 \<le> n \<and> mag n g \<le> of_int 0"
    by (rule rounds_le_int [OF r]) simp_all
  ultimately have "\<exists>n g. f_abs (f_sub x x) = Fin False n g \<and> mag n g = 0"
    by (elim exE conjE) (intro exI conjI, simp, use mag_nonneg in \<open>auto intro: antisym\<close>)
  then show "\<not> f_lt tol f_zero \<Longrightarrow> \<not> f_lt tol (f_abs (f_sub x x))"
    by (auto simp: f_cmp f_zero_def)
qed (simp_all add: f_sub_def f_cmp)

lemma loaded_summary_columns:
  assumes "load_trace path file = Inr rows" and "length rows < 2 ^ 46"
    and "summary_for_workload (replay_rows rows) = Inr s"
  shows "list_all printed (drop 2 (summary_cells s)) \<and> cell_int (Some (s_num_transactions s)) = Some (int (length rows))"
proof -
  let ?lats = "map latency_of (replay_rows rows)"
  note ne = load_trace_nonempty [OF assms(1)]
  obtain w where w: "\<forall>r \<in> set rows. workload_name r = w"
    using load_trace_one_workload [OF assms(1)] by (metis list.set_sel(1) ne)
  have wf: "\<forall>r \<in> set rows. wf_float (timestamp_ns_value r)"
    using load_trace_valid [OF assms(1)] wf_parse_float by (auto simp: valid_row_def)
  have l: "length ?lats = length rows" by (simp add: replay_rows_def del: replay_from.simps)
  then have len: "length ?lats < 2 ^ 53" "?lats \<noteq> []" using assms(2) ne by (simp, metis length_0_conv)
  have wl: "wf_float x" if "x \<in> set ?lats" for x using that latency_wf by auto
  obtain tp avg p50 p95 p99 mx ratio q where s:
    "s = \<lparr>s_workload_name = w, s_num_transactions = str_int (int (length rows)),
      s_avg_latency_ns = fmt3 avg, s_p50_latency_ns = fmt3 p50, s_p95_latency_ns = fmt3 p95,
      s_p99_latency_ns = fmt3 p99, s_max_latency_ns = fmt3 mx,
      s_bank_conflict_ratio_pct = fmt3 ratio, s_throughput_txn_per_us = fmt3 tp\<rparr>"
    and st: "average ?lats = Inr avg" "percentile ?lats 50 = Inr p50" "percentile ?lats 95 = Inr p95"
      "percentile ?lats 99 = Inr p99" "py_max ?lats = Inr mx" "rounds_to False q ratio" "wf_float tp"
    using summary_of_replay [OF wf ne assms(2) w] assms(3) by auto
  have "wf_float avg" using average_of_replay [OF ne assms(2)] st(1) wf_rounds by auto
  moreover have "wf_float p50" "wf_float p95" "wf_float p99" "wf_float mx"
    using percentile_mem [OF _ _ len(2,1) st(2)] percentile_mem [OF _ _ len(2,1) st(3)]
      percentile_mem [OF _ _ len(2,1) st(4)] py_max_mem [OF st(5)] wl by auto
  moreover have "int (length rows) < int (2 ^ 46)" using assms(2) by (simp only: of_nat_less_iff)
  then have "py_int10 (str_int (int (length rows))) = Some (int (length rows))" by (intro py_int10_str_int) simp_all
  ultimately show ?thesis
    using wf_rounds [OF st(6)] st(7) by (auto simp: s summary_cells_def printed_def cell_int_Some)
qed

lemma summary_row_get:
  assumes "i < 9"
  shows "row_get (dict_row Trace_Replay.SUMMARY_FIELDS (summary_cells s)) (Trace_Replay.SUMMARY_FIELDS ! i) = Some (summary_cells s ! i)"
proof -
  have "distinct Trace_Replay.SUMMARY_FIELDS" "length Trace_Replay.SUMMARY_FIELDS = 9" by code_simp+
  then show ?thesis using row_get_dict_row [of Trace_Replay.SUMMARY_FIELDS i "summary_cells s"] assms
    by (simp add: summary_cells_def)
qed

lemma summary_agrees_with_itself:
  assumes "list_all printed (drop 2 (summary_cells s))" and "cell_int (Some (s_num_transactions s)) = Some n"
    and "\<not> f_lt tol f_zero"
  shows "rows_agree tol (dict_row Trace_Replay.SUMMARY_FIELDS (summary_cells s)) (dict_row Trace_Replay.SUMMARY_FIELDS (summary_cells s))"
proof -
  let ?r = "dict_row Trace_Replay.SUMMARY_FIELDS (summary_cells s)"
  have m: "set METRICS = (\<lambda>i. Trace_Replay.SUMMARY_FIELDS ! i) ` {2..<9}" by code_simp
  have c: "Trace_Replay.SUMMARY_FIELDS ! 1 = ''num_transactions''" by code_simp
  have "row_get ?r ''num_transactions'' = Some (s_num_transactions s)"
    using summary_row_get [of 1 s] unfolding c by (simp add: summary_cells_def)
  moreover have "\<exists>a b. cell_float (row_get ?r k) = Some a \<and> cell_float (row_get ?r k) = Some b \<and> \<not> f_lt tol (f_abs (f_sub a b))"
    if "k \<in> set METRICS" for k
  proof -
    have "\<exists>i. 2 \<le> i \<and> i < 9 \<and> k = Trace_Replay.SUMMARY_FIELDS ! i" using that unfolding m by auto
    then obtain i where i: "2 \<le> i" "i < 9" "k = Trace_Replay.SUMMARY_FIELDS ! i" by (elim exE conjE)
    have l: "length (summary_cells s) = 9" by (simp add: summary_cells_def)
    have "drop 2 (summary_cells s) ! (i - 2) = summary_cells s ! (2 + (i - 2))" by (rule nth_drop) (simp add: l)
    then have "summary_cells s ! i = drop 2 (summary_cells s) ! (i - 2)" by (simp only: le_add_diff_inverse i(1))
    moreover have "i - 2 < length (drop 2 (summary_cells s))" using i l by simp
    ultimately have "printed (summary_cells s ! i)" using assms(1) by (metis list_all_length)
    then obtain x where "wf_float x" "summary_cells s ! i = fmt3 x" by (auto simp: printed_def)
    then have "cell_float (row_get ?r k) = Some (reparse x)"
      unfolding i(3) summary_row_get [OF i(2)] cell_float_Some by (simp add: parse_fmt3)
    then show ?thesis using self_difference [OF assms(3)] by blast
  qed
  ultimately show ?thesis using assms(2) unfolding rows_agree_def by simp
qed

lemma summary_csv_reader:
  "reader_fieldnames (summary_csv ss) = Some Trace_Replay.SUMMARY_FIELDS"
  "dict_reader (summary_csv ss) = map (\<lambda>s. dict_row Trace_Replay.SUMMARY_FIELDS (summary_cells s)) ss"
  by (simp_all add: summary_csv_def reader_fieldnames_def dict_reader_def summary_cells_def comp_def)

lemma written_summaries:
  assumes "mapR (\<lambda>(p, f). load_trace p f) files = Inr traces" and "\<forall>rows \<in> set traces. length rows < 2 ^ 46"
    and "WriteSummaryCsv ss \<in> set (fst (main_replay validate_only files out st))"
  shows "ss \<noteq> [] \<and> (\<forall>s \<in> set ss. \<exists>p f rows. load_trace p f = Inr rows \<and> length rows < 2 ^ 46 \<and>
    summary_for_workload (replay_rows rows) = Inr s)"
proof -
  have l: "\<forall>rows \<in> set traces. (\<exists>p f. load_trace p f = Inr rows) \<and> length rows < 2 ^ 46"
    using mapR_mem [OF assms(1)] assms(2) by (fastforce split: prod.splits)
  obtain o' where o': "replay_outputs traces = Inr (o', ss)" "2 \<le> length traces"
    using assms(1,3) by (auto simp: main_replay_def remove_output_dir_def split: if_splits sum.splits path_state.splits)
  then have "traces \<noteq> []" by auto
  from loaded_outputs [OF this l] o' show ?thesis using l by fastforce
qed

text \<open>C10. The two tools fit together: whatever summary file the replay of loadable traces writes (traces of fewer
  than \<open>2 ^ 46\<close> rows), the comparison accepts it against itself, for every tolerance that \<open>main\<close> lets
  through, zero included; so a C++ replay that prints the same file always passes.\<close>

theorem replay_summary_compares:
  assumes "mapR (\<lambda>(p, f). load_trace p f) files = Inr traces" and "\<forall>rows \<in> set traces. length rows < 2 ^ 46"
    and "WriteSummaryCsv ss \<in> set (fst (main_replay validate_only files out st))" and "\<not> f_lt tol f_zero"
  shows "main_compare (pp, Some (summary_csv ss)) (cp, Some (summary_csv ss)) tol tt = Inr 0"
proof -
  let ?r = "\<lambda>s. dict_row Trace_Replay.SUMMARY_FIELDS (summary_cells s)"
  note w = written_summaries [OF assms(1-3)]
  have "rows_agree tol (?r s) (?r s)" if "s \<in> set ss" for s
    using w that summary_agrees_with_itself [OF _ _ assms(4)] loaded_summary_columns by blast
  then have "list_all2 (rows_agree tol) (map ?r ss) (map ?r ss)"
    by (simp add: list_all2_map1 list_all2_map2 list_all2_same)
  moreover have "set COMPARE_FIELDS \<subseteq> set Trace_Replay.SUMMARY_FIELDS" by code_simp
  ultimately have "compare_summaries (pp, Some (summary_csv ss)) (cp, Some (summary_csv ss)) tol tt = Inr ()"
    unfolding compare_summaries_iff using w by (simp add: summary_csv_reader)
  then show ?thesis using assms(4) by (simp add: main_compare_def raise_if_def)
qed

theorem replay_summary_compares_witness:
  "\<exists>ss. WriteSummaryCsv ss \<in> set (fst (main_replay False [(''t'', Some sample_file), (''t'', Some sample_file)] ''o'' Removable)) \<and>
     main_compare (''p'', Some (summary_csv ss)) (''c'', Some (summary_csv ss)) (flit 1 1000) ''0.001'' = Inr 0"
proof -
  let ?files = "[(''t'', Some sample_file), (''t'', Some sample_file)]"
  obtain r1 r2 where l: "load_trace ''t'' (Some sample_file) = Inr [r1, r2]" using sample_loads by blast
  then have m: "mapR (\<lambda>(p, f). load_trace p f) ?files = Inr [[r1, r2], [r1, r2]]" by simp
  obtain ss out where o: "replay_outputs [[r1, r2], [r1, r2]] = Inr (out, ss)"
    using loaded_outputs [of "[[r1, r2], [r1, r2]]"] l by fastforce
  have w: "WriteSummaryCsv ss \<in> set (fst (main_replay False ?files ''o'' Removable))"
    unfolding main_replay_def m remove_output_dir_def by (cases "comparison_lines ss") (simp_all add: o)
  have "\<forall>rows \<in> set [[r1, r2], [r1, r2]]. length rows < 2 ^ 46" by simp
  moreover have "\<not> f_lt (flit 1 1000) f_zero" by code_simp
  ultimately have "main_compare (''p'', Some (summary_csv ss)) (''c'', Some (summary_csv ss)) (flit 1 1000) ''0.001'' = Inr 0"
    using replay_summary_compares [OF m _ w] by blast
  then show ?thesis using w by blast
qed

text \<open>A NaN on one side is within every tolerance.\<close>

lemma nan_metric_agrees: "\<not> f_lt tol (f_abs (f_sub FNan x)) \<and> \<not> f_lt tol (f_abs (f_sub x FNan))"
  by (cases x) (simp_all add: f_sub_def f_cmp)

definition nan_summary :: "string \<Rightarrow> string list list" where
  "nan_summary latency = [COMPARE_FIELDS, [''w'', ''2'', latency, ''1'', ''1'', ''1'', ''1'', ''0'', ''1'']]"

theorem nan_hides_difference:
  "main_compare (''p'', Some (nan_summary ''nan'')) (''c'', Some (nan_summary ''250.000'')) (flit 1 1000) ''0.001'' = Inr 0"
  by code_simp

end
