(* ===== verification/Rtl_Correlation.thy ===== *)
theory Rtl_Correlation
  imports Trace_Summary Py_Repr
begin

text \<open>
  \<open>examples/lt/tools/correlate_model_rtl_summaries.py\<close>: the correlation of the model's summary with the
  one of the Verilator RTL, metric by metric against an error budget, and the report.  Both files are
  given as the records that \<open>csv.reader\<close> yields, \<open>None\<close> where the file does not exist, with the path
  as the messages show it.
\<close>

section \<open>The error budget\<close>

definition RTL_FIELDS :: "string list" where
  "RTL_FIELDS =
    [''workload'', ''total_requests'', ''accepted_requests'', ''rejected_requests'', ''avg_latency_cycles'',
     ''p50_latency_cycles'', ''p95_latency_cycles'', ''p99_latency_cycles'', ''max_latency_cycles'',
     ''avg_latency_ns'', ''p50_latency_ns'', ''p95_latency_ns'', ''p99_latency_ns'', ''max_latency_ns'',
     ''throughput_txn_per_cycle'', ''throughput_txn_per_us'', ''bank_conflict_ratio_pct'']"

definition CORRELATION_FIELDS :: "string list" where
  "CORRELATION_FIELDS =
    [''workload'', ''metric'', ''unit'', ''model_value'', ''rtl_value'', ''abs_error'', ''rel_error_pct'',
     ''tolerance_pct'', ''status'']"

definition ERROR_BUDGET_FIELDS :: "string list" where
  "ERROR_BUDGET_FIELDS = [''metric'', ''unit'', ''tolerance_pct'', ''rule'']"

definition ERROR_BUDGET :: "(string \<times> string \<times> pyfloat \<times> string) list" where
  "ERROR_BUDGET =
    [(''total_requests'', ''requests'', flit 0 1, ''exact integer match''),
     (''accepted_requests'', ''requests'', flit 0 1, ''exact integer match''),
     (''rejected_requests'', ''requests'', flit 0 1, ''exact integer match''),
     (''avg_latency_cycles'', ''cycles'', flit 1 1000, ''floating match with tiny tolerance''),
     (''p50_latency_cycles'', ''cycles'', flit 1 1000, ''floating match with tiny tolerance''),
     (''p95_latency_cycles'', ''cycles'', flit 1 1000, ''floating match with tiny tolerance''),
     (''p99_latency_cycles'', ''cycles'', flit 1 1000, ''floating match with tiny tolerance''),
     (''max_latency_cycles'', ''cycles'', flit 1 1000, ''floating match with tiny tolerance''),
     (''avg_latency_ns'', ''ns'', flit 1 1000, ''floating match with tiny tolerance''),
     (''p50_latency_ns'', ''ns'', flit 1 1000, ''floating match with tiny tolerance''),
     (''p95_latency_ns'', ''ns'', flit 1 1000, ''floating match with tiny tolerance''),
     (''p99_latency_ns'', ''ns'', flit 1 1000, ''floating match with tiny tolerance''),
     (''max_latency_ns'', ''ns'', flit 1 1000, ''floating match with tiny tolerance''),
     (''throughput_txn_per_cycle'', ''txn/cycle'', flit 1 10, ''relative error must be <= 0.1%''),
     (''throughput_txn_per_us'', ''txn/us'', flit 1 10, ''relative error must be <= 0.1%''),
     (''bank_conflict_ratio_pct'', ''pct'', flit 1 1000, ''Project H definition: accepted requests with latency_cycles > service_latency_cycles divided by accepted_requests'')]"

definition EXACT_METRICS :: "string list" where
  "EXACT_METRICS = [''total_requests'', ''accepted_requests'', ''rejected_requests'']"

definition TINY_FLOAT_METRICS :: "string list" where
  "TINY_FLOAT_METRICS =
    [''avg_latency_cycles'', ''p50_latency_cycles'', ''p95_latency_cycles'', ''p99_latency_cycles'',
     ''max_latency_cycles'', ''avg_latency_ns'', ''p50_latency_ns'', ''p95_latency_ns'', ''p99_latency_ns'',
     ''max_latency_ns'', ''bank_conflict_ratio_pct'']"

section \<open>Reading\<close>

definition add_workload ::
  "string \<Rightarrow> (string \<times> csv_row) list \<Rightarrow> csv_row \<Rightarrow> (string \<times> csv_row) list result" where
  "add_workload label by_workload row =
     (let workload = row_get_or row ''workload'' in
      bindR (raise_if (workload = []) (CorrelationError (label @ '' contains row with empty workload''))) (\<lambda>_.
      bindR (raise_if (workload \<in> set (map fst by_workload))
        (CorrelationError (label @ '' has duplicate workload: '' @ workload))) (\<lambda>_.
      Inr (by_workload @ [(workload, row)]))))"

definition read_rtl_summary :: "string \<Rightarrow> string \<Rightarrow> string list list option \<Rightarrow> (string \<times> csv_row) list result" where
  "read_rtl_summary path label file =
     bindR (opt_or_raise file (CorrelationError (label @ '' not found: '' @ path))) (\<lambda>recs.
     let fieldnames = (case reader_fieldnames recs of None \<Rightarrow> [] | Some h \<Rightarrow> h); rows = dict_reader recs in
     bindR (raise_if (fieldnames = []) (CorrelationError (label @ '' has no header: '' @ path))) (\<lambda>_.
     bindR (raise_if (rows = []) (CorrelationError (label @ '' is empty: '' @ path))) (\<lambda>_.
     let missing = filter (\<lambda>f. f \<notin> set fieldnames) RTL_FIELDS in
     bindR (raise_if (missing \<noteq> [])
       (CorrelationError (label @ '' missing fields in '' @ path @ '': '' @ py_join '', '' missing))) (\<lambda>_.
     foldR (add_workload label) [] rows))))"

definition parse_value :: "string option \<Rightarrow> string \<Rightarrow> string \<Rightarrow> string \<Rightarrow> pyfloat result" where
  "parse_value v workload metric side = opt_or_raise (cell_float v)
     (CorrelationError (workload @ '' '' @ metric @ '': '' @ side @ '' value is not numeric: '' @ repr_opt v))"

section \<open>Correlating\<close>

definition status_for_metric :: "string \<Rightarrow> pyfloat \<Rightarrow> pyfloat \<Rightarrow> pyfloat \<Rightarrow> string result" where
  "status_for_metric metric abs_error rel_error_pct rtl_value =
     bindR (opt_or_raise (map_of ERROR_BUDGET metric) (KeyError metric)) (\<lambda>(u, tolerance_pct, rule). Inr
     (if metric \<in> set EXACT_METRICS then (if f_eq abs_error f_zero then ''pass'' else ''fail'')
      else if metric \<in> set TINY_FLOAT_METRICS then (if f_le abs_error (flit 1 1000) then ''pass'' else ''fail'')
      else if f_eq rtl_value f_zero then (if f_eq abs_error f_zero then ''pass'' else ''warning'')
      else if f_le rel_error_pct tolerance_pct then ''pass'' else ''fail''))"

record correlation_row =
  c_workload :: string
  c_metric :: string
  c_unit :: string
  c_model_value :: string
  c_rtl_value :: string
  c_abs_error :: string
  c_rel_error_pct :: string
  c_tolerance_pct :: string
  c_status :: string

definition rel_error :: "pyfloat \<Rightarrow> pyfloat \<Rightarrow> pyfloat result" where
  "rel_error abs_error rtl_value =
     (if f_eq rtl_value f_zero then Inr f_zero
      else bindR (f_div abs_error (f_abs rtl_value)) (\<lambda>q. Inr (f_mul q (flit 100 1))))"

definition correlate_metric ::
  "string \<Rightarrow> csv_row \<Rightarrow> csv_row \<Rightarrow> string \<times> string \<times> pyfloat \<times> string \<Rightarrow> correlation_row result" where
  "correlate_metric workload model rtl = (\<lambda>(metric, u, tolerance_pct, rule).
     bindR (parse_value (row_get model metric) workload metric ''model'') (\<lambda>model_value.
     bindR (parse_value (row_get rtl metric) workload metric ''rtl'') (\<lambda>rtl_value.
     let abs_error = f_abs (f_sub model_value rtl_value) in
     bindR (rel_error abs_error rtl_value) (\<lambda>rel.
     bindR (status_for_metric metric abs_error rel rtl_value) (\<lambda>status.
     Inr \<lparr>c_workload = workload, c_metric = metric, c_unit = u, c_model_value = fmt3 model_value,
          c_rtl_value = fmt3 rtl_value, c_abs_error = fmt3 abs_error,
          c_rel_error_pct = (if f_eq rtl_value f_zero then ''NA'' else fmt3 rel),
          c_tolerance_pct = fmt3 tolerance_pct,
          c_status = status\<rparr>)))))"

text \<open>\<open>d[w]\<close>.\<close>

definition row_of :: "(string \<times> csv_row) list \<Rightarrow> string \<Rightarrow> csv_row result" where
  "row_of d w = opt_or_raise (map_of d w) (KeyError w)"

definition correlate_workload ::
  "(string \<times> csv_row) list \<Rightarrow> (string \<times> csv_row) list \<Rightarrow> string \<Rightarrow> correlation_row list result" where
  "correlate_workload model_rows rtl_rows workload =
     bindR (row_of model_rows workload) (\<lambda>model. bindR (row_of rtl_rows workload) (\<lambda>rtl.
     mapR (correlate_metric workload model rtl) ERROR_BUDGET))"

definition build_correlation_rows ::
  "(string \<times> csv_row) list \<Rightarrow> (string \<times> csv_row) list \<Rightarrow> correlation_row list result" where
  "build_correlation_rows model_rows rtl_rows =
     (let model_workloads = map fst model_rows; rtl_workloads = map fst rtl_rows in
      bindR (raise_if (set model_workloads \<noteq> set rtl_workloads) (CorrelationError (''workload mismatch: missing_in_model='' @
        repr_list (py_sorted str_lt (filter (\<lambda>w. w \<notin> set model_workloads) rtl_workloads)) @ '' missing_in_rtl='' @
        repr_list (py_sorted str_lt (filter (\<lambda>w. w \<notin> set rtl_workloads) model_workloads))))) (\<lambda>_.
      bindR (mapR (correlate_workload model_rows rtl_rows) (py_sorted str_lt model_workloads)) (\<lambda>rss. Inr (concat rss))))"

section \<open>The report and the run\<close>

definition report_head :: "string \<Rightarrow> string \<Rightarrow> string list" where
  "report_head model_summary rtl_summary =
     [''# Project H'' @ [CHR 0xEF, CHR 0xBC, CHR 0x9A] @ ''Verilator RTL Golden Model Correlation Report'',
      [],
      ''## Current'',
      [],
      ''Project H '' @ [CHR 0xE5, CHR 0xBD, CHR 0x93, CHR 0xE5, CHR 0x89, CHR 0x8D, CHR 0xE5, CHR 0xBB, CHR 0xBA, CHR 0xE7, CHR 0xAB, CHR 0x8B, CHR 0xE7, CHR 0x9A, CHR 0x84, CHR 0xE6, CHR 0x98, CHR 0xAF] @ '' local banked memory controller '' @ [CHR 0xE7, CHR 0x9A, CHR 0x84] @ '' bounded RTL golden reference'' @ [CHR 0xE3, CHR 0x80, CHR 0x82, CHR 0xE5, CHR 0xAE, CHR 0x83, CHR 0xE7, CHR 0x94, CHR 0xA8] @ '' deterministic normalized trace '' @ [CHR 0xE9, CHR 0xA9, CHR 0xB1, CHR 0xE5, CHR 0x8A, CHR 0xA8] @ '' Verilator RTL'' @ [CHR 0xEF, CHR 0xBC, CHR 0x8C, CHR 0xE5, CHR 0xB9, CHR 0xB6, CHR 0xE6, CHR 0x8A, CHR 0x8A, CHR 0xE5, CHR 0x90, CHR 0x8C, CHR 0xE4, CHR 0xB8, CHR 0x80] @ '' workload '' @ [CHR 0xE4, CHR 0xB8, CHR 0x8B, CHR 0xE7, CHR 0x9A, CHR 0x84] @ '' H-aligned C++ model summary '' @ [CHR 0xE4, CHR 0xB8, CHR 0x8E] @ '' RTL summary '' @ [CHR 0xE5, CHR 0x81, CHR 0x9A] @ '' quantitative correlation'' @ [CHR 0xE3, CHR 0x80, CHR 0x82],
      [],
      ''## Inputs'',
      [],
      ''- model summary: `'' @ model_summary @ ''`'',
      ''- RTL summary: `'' @ rtl_summary @ ''`'',
      [],
      ''## Error Budget'',
      []]"

definition report_status :: "string \<Rightarrow> nat \<Rightarrow> nat \<Rightarrow> string list" where
  "report_status status failed warnings =
     [[],
      ''## Correlation Summary'',
      [],
      ''- Overall status: `'' @ status @ ''`'',
      ''- Failed rows: `'' @ str_nat failed @ ''`'',
      ''- Warning rows: `'' @ str_nat warnings @ ''`'',
      []]"

definition rtl_report_closing :: "string list" where
  "rtl_report_closing =
     [[],
      ''## Scope Boundary'',
      [],
      ''- Current: local banked memory controller micro-model vs local Verilator RTL reference'' @ [CHR 0xE3, CHR 0x80, CHR 0x82],
      ''- Supported: deterministic trace replay'' @ [CHR 0xE3, CHR 0x80, CHR 0x81] @ ''accepted/rejected request count'' @ [CHR 0xE3, CHR 0x80, CHR 0x81] @ ''latency percentile'' @ [CHR 0xE3, CHR 0x80, CHR 0x81] @ ''throughput'' @ [CHR 0xE3, CHR 0x80, CHR 0x81] @ ''bank conflict ratio '' @ [CHR 0xE5, CHR 0x92, CHR 0x8C] @ '' explicit error budget'' @ [CHR 0xE3, CHR 0x80, CHR 0x82],
      ''- Not Supported: full SoC'' @ [CHR 0xE3, CHR 0x80, CHR 0x81] @ ''AXI / CHI'' @ [CHR 0xE3, CHR 0x80, CHR 0x81] @ ''gem5-Verilator live co-simulation'' @ [CHR 0xE3, CHR 0x80, CHR 0x81] @ ''silicon validation'' @ [CHR 0xE3, CHR 0x80, CHR 0x81] @ ''production signoff'' @ [CHR 0xE3, CHR 0x80, CHR 0x81] @ ''full-system cycle accuracy'' @ [CHR 0xE3, CHR 0x80, CHR 0x82],
      ''- Future Work: '' @ [CHR 0xE5, CHR 0xBC, CHR 0x95, CHR 0xE5, CHR 0x85, CHR 0xA5, CHR 0xE6, CHR 0x9B, CHR 0xB4, CHR 0xE4, CHR 0xB8, CHR 0xB0, CHR 0xE5, CHR 0xAF, CHR 0x8C, CHR 0xE7, CHR 0x9A, CHR 0x84] @ '' reference manifest'' @ [CHR 0xE3, CHR 0x80, CHR 0x81, CHR 0xE6, CHR 0x9B, CHR 0xB4, CHR 0xE5, CHR 0xA4, CHR 0x9A] @ '' workload coverage'' @ [CHR 0xE3, CHR 0x80, CHR 0x81] @ ''CI profile '' @ [CHR 0xE5, CHR 0x92, CHR 0x8C, CHR 0xE5, CHR 0x90, CHR 0x8E, CHR 0xE7, CHR 0xBB, CHR 0xAD] @ '' profiler/counter reference interface'' @ [CHR 0xE3, CHR 0x80, CHR 0x82],
      [],
      ''## Claim Boundary'',
      [],
      [CHR 0xE5, CHR 0xAE, CHR 0x8C, CHR 0xE6, CHR 0x88, CHR 0x90, CHR 0xE6, CHR 0x9C, CHR 0xAC, CHR 0xE6, CHR 0x8A, CHR 0xA5, CHR 0xE5, CHR 0x91, CHR 0x8A, CHR 0xE5, CHR 0x90, CHR 0x8E, CHR 0xEF, CHR 0xBC, CHR 0x8C, CHR 0xE5, CHR 0x8F, CHR 0xAA, CHR 0xE8, CHR 0x83, CHR 0xBD, CHR 0xE8, CHR 0xAF, CHR 0xB4, CHR 0xEF, CHR 0xBC, CHR 0x9A, CHR 0xE5, CHR 0x9C, CHR 0xA8, CHR 0xE5, CHR 0xBD, CHR 0x93, CHR 0xE5, CHR 0x89, CHR 0x8D] @ '' bounded workload'' @ [CHR 0xE3, CHR 0x80, CHR 0x81] @ ''metric definition '' @ [CHR 0xE5, CHR 0x92, CHR 0x8C] @ '' error budget '' @ [CHR 0xE4, CHR 0xB8, CHR 0x8B, CHR 0xEF, CHR 0xBC, CHR 0x8C] @ ''H-aligned C++ model summary '' @ [CHR 0xE4, CHR 0xB8, CHR 0x8E] @ '' local Verilator RTL reference summary '' @ [CHR 0xE5, CHR 0xB7, CHR 0xB2, CHR 0xE5, CHR 0xAE, CHR 0x8C, CHR 0xE6, CHR 0x88, CHR 0x90] @ '' quantitative comparison'' @ [CHR 0xE3, CHR 0x80, CHR 0x82],
      [],
      [CHR 0xE4, CHR 0xB8, CHR 0x8D, CHR 0xE8, CHR 0x83, CHR 0xBD, CHR 0xE8, CHR 0xAF, CHR 0xB4, CHR 0xEF, CHR 0xBC, CHR 0x9A] @ ''silicon validated'' @ [CHR 0xE3, CHR 0x80, CHR 0x81] @ ''production signoff'' @ [CHR 0xE3, CHR 0x80, CHR 0x81] @ ''full-system cycle accurate'' @ [CHR 0xE3, CHR 0x80, CHR 0x81] @ ''full SoC validated'' @ [CHR 0xEF, CHR 0xBC, CHR 0x8C, CHR 0xE4, CHR 0xB9, CHR 0x9F, CHR 0xE4, CHR 0xB8, CHR 0x8D, CHR 0xE8, CHR 0x83, CHR 0xBD, CHR 0xE8, CHR 0xAF, CHR 0xB4, CHR 0xE8, CHR 0xBE, CHR 0xBE, CHR 0xE5, CHR 0x88, CHR 0xB0] @ '' NVIDIA / Apple / ARM production-level validation'' @ [CHR 0xE3, CHR 0x80, CHR 0x82],
      []]"

definition budget_rows :: "string list list" where
  "budget_rows = map (\<lambda>(metric, u, tolerance_pct, rule). [metric, u, fmt3 tolerance_pct, rule]) ERROR_BUDGET"

definition correlation_cells :: "correlation_row \<Rightarrow> string list" where
  "correlation_cells r = [c_workload r, c_metric r, c_unit r, c_model_value r, c_rtl_value r, c_abs_error r,
     c_rel_error_pct r, c_tolerance_pct r, c_status r]"

definition with_status :: "string \<Rightarrow> correlation_row list \<Rightarrow> correlation_row list" where
  "with_status s rows = filter (\<lambda>r. c_status r = s) rows"

definition write_rtl_report :: "string \<Rightarrow> string \<Rightarrow> correlation_row list \<Rightarrow> string" where
  "write_rtl_report model_summary rtl_summary rows =
     (let failed = with_status ''fail'' rows; warnings = with_status ''warning'' rows in
      py_join [CHR 0x0A]
        (report_head model_summary rtl_summary @ markdown_table ERROR_BUDGET_FIELDS budget_rows
         @ report_status (if failed = [] then ''pass'' else ''fail'') (length failed) (length warnings)
         @ markdown_table CORRELATION_FIELDS (map correlation_cells rows) @ rtl_report_closing))"

datatype correlation_effect = WriteCorrelation "string list list" | WriteBudget "string list list" | WriteReport string

definition main_correlate ::
  "string \<times> string list list option \<Rightarrow> string \<times> string list list option \<Rightarrow> correlation_effect list \<times> int result" where
  "main_correlate model_file rtl_file =
     (case bindR (read_rtl_summary (fst model_file) ''model_summary_aligned.csv'' (snd model_file)) (\<lambda>model_rows.
           bindR (read_rtl_summary (fst rtl_file) ''rtl_summary.csv'' (snd rtl_file)) (\<lambda>rtl_rows.
           build_correlation_rows model_rows rtl_rows)) of
        Inl e \<Rightarrow> ([], Inl e)
      | Inr rows \<Rightarrow>
          (let failed = with_status ''fail'' rows in
           ([WriteCorrelation (CORRELATION_FIELDS # map correlation_cells rows),
             WriteBudget (ERROR_BUDGET_FIELDS # budget_rows),
             WriteReport (write_rtl_report (fst model_file) (fst rtl_file) rows)],
            if failed \<noteq> []
            then Inl (CorrelationError (''model-vs-RTL correlation has '' @ str_nat (length failed) @ '' failed row(s)''))
            else Inr 0)))"

section \<open>What the correlation accepts\<close>

text \<open>The budget as a relation between the two values of a metric.\<close>

definition within_budget :: "string \<Rightarrow> pyfloat \<Rightarrow> pyfloat \<Rightarrow> pyfloat \<Rightarrow> bool" where
  "within_budget metric tolerance_pct a b \<longleftrightarrow>
     (if metric \<in> set EXACT_METRICS then f_eq (f_abs (f_sub a b)) f_zero
      else if metric \<in> set TINY_FLOAT_METRICS then f_le (f_abs (f_sub a b)) (flit 1 1000)
      else f_eq b f_zero \<or> (\<exists>q. f_div (f_abs (f_sub a b)) (f_abs b) = Inr q \<and> f_le (f_mul q (flit 100 1)) tolerance_pct))"

definition workload_ok :: "(string \<times> csv_row) list \<Rightarrow> (string \<times> csv_row) list \<Rightarrow> string \<Rightarrow> bool" where
  "workload_ok model_rows rtl_rows w \<longleftrightarrow> (\<exists>m r. map_of model_rows w = Some m \<and> map_of rtl_rows w = Some r \<and>
     (\<forall>(metric, u, tol, rule) \<in> set ERROR_BUDGET. \<exists>a b. cell_float (row_get m metric) = Some a \<and>
        cell_float (row_get r metric) = Some b \<and> within_budget metric tol a b))"

lemma rel_error_total: "\<exists>q. rel_error x b = Inr q"
proof (cases "f_eq b f_zero")
  case False
  have "\<not> f_is_zero (f_abs b)"
    using False by (cases b) (auto simp: f_eq_val f_zero_def split: if_splits)
  then show ?thesis using False f_div_total [of "f_abs b" x] by (auto simp: rel_error_def)
qed (simp add: rel_error_def)

lemma budget_lookup: "t \<in> set ERROR_BUDGET \<Longrightarrow> map_of ERROR_BUDGET (fst t) = Some (snd t)"
proof -
  have "distinct (map fst ERROR_BUDGET)" by code_simp
  then show "t \<in> set ERROR_BUDGET \<Longrightarrow> map_of ERROR_BUDGET (fst t) = Some (snd t)"
    by (metis map_of_is_SomeI prod.collapse)
qed

text \<open>The row of a metric exists when both values are numbers; it fails when they are outside the budget.\<close>

lemma correlate_metric_iff:
  assumes "(metric, u, tol, rule) \<in> set ERROR_BUDGET"
  shows "(\<exists>row. correlate_metric w m r (metric, u, tol, rule) = Inr row \<and> c_status row \<noteq> ''fail'') \<longleftrightarrow>
    (\<exists>a b. cell_float (row_get m metric) = Some a \<and> cell_float (row_get r metric) = Some b \<and> within_budget metric tol a b)"
proof (cases "cell_float (row_get m metric) = None \<or> cell_float (row_get r metric) = None")
  case True
  then show ?thesis by (auto simp: correlate_metric_def parse_value_def bindR_eq_Inr opt_or_raise_eq_Inr Let_def)
next
  case False
  then obtain a b where ab: "cell_float (row_get m metric) = Some a" "cell_float (row_get r metric) = Some b" by auto
  let ?e = "f_abs (f_sub a b)"
  obtain q where q: "rel_error ?e b = Inr q" using rel_error_total by blast
  have look: "map_of ERROR_BUDGET metric = Some (u, tol, rule)" using budget_lookup [OF assms] by simp
  have st: "\<exists>st. status_for_metric metric ?e q b = Inr st \<and> (st \<noteq> ''fail'' \<longleftrightarrow> within_budget metric tol a b)"
    using q unfolding status_for_metric_def look opt_or_raise_def option.case bindR_Inr prod.case within_budget_def rel_error_def
    by (auto simp: bindR_eq_Inr split: if_splits)
  then obtain st where "status_for_metric metric ?e q b = Inr st" "st \<noteq> ''fail'' \<longleftrightarrow> within_budget metric tol a b" by blast
  then show ?thesis using ab q
    by (simp add: correlate_metric_def parse_value_def opt_or_raise_def Let_def)
qed

lemma mapR_filter:
  "(\<exists>ys. mapR f xs = Inr ys \<and> (\<forall>y \<in> set ys. P y)) \<longleftrightarrow> (\<forall>x \<in> set xs. \<exists>y. f x = Inr y \<and> P y)"
proof (induction xs)
  case (Cons x xs)
  show ?case
  proof (cases "f x")
    case (Inr y)
    have "(\<exists>ys. mapR f (x # xs) = Inr ys \<and> (\<forall>y \<in> set ys. P y)) \<longleftrightarrow> P y \<and> (\<exists>ys. mapR f xs = Inr ys \<and> (\<forall>y \<in> set ys. P y))"
      using Inr by (auto simp: bindR_eq_Inr)
    then show ?thesis using Cons.IH Inr by simp
  qed simp
qed simp

lemma correlate_workload_iff:
  "(\<exists>rows. correlate_workload ms rs w = Inr rows \<and> (\<forall>row \<in> set rows. c_status row \<noteq> ''fail'')) \<longleftrightarrow> workload_ok ms rs w"
proof (cases "map_of ms w = None \<or> map_of rs w = None")
  case True
  then show ?thesis by (auto simp: correlate_workload_def row_of_def workload_ok_def bindR_eq_Inr opt_or_raise_eq_Inr)
next
  case False
  then obtain m r where mr: "map_of ms w = Some m" "map_of rs w = Some r" by auto
  have "(\<exists>rows. correlate_workload ms rs w = Inr rows \<and> (\<forall>row \<in> set rows. c_status row \<noteq> ''fail'')) \<longleftrightarrow>
    (\<forall>t \<in> set ERROR_BUDGET. \<exists>row. correlate_metric w m r t = Inr row \<and> c_status row \<noteq> ''fail'')"
    unfolding mapR_filter [symmetric] by (simp add: correlate_workload_def row_of_def mr opt_or_raise_def)
  also have "\<dots> \<longleftrightarrow> workload_ok ms rs w"
    unfolding workload_ok_def mr using correlate_metric_iff by (auto split: prod.splits) (metis+)?
  finally show ?thesis .
qed

lemma build_iff:
  "(\<exists>rows. build_correlation_rows ms rs = Inr rows \<and> with_status ''fail'' rows = []) \<longleftrightarrow>
     set (map fst ms) = set (map fst rs) \<and> (\<forall>w \<in> set (map fst ms). workload_ok ms rs w)"
proof -
  let ?ok = "\<lambda>rows. \<forall>row \<in> set rows. c_status row \<noteq> ''fail''"
  have f: "with_status ''fail'' rows = [] \<longleftrightarrow> ?ok rows" for rows
    by (simp add: with_status_def filter_empty_conv)
  have "(\<exists>rows. build_correlation_rows ms rs = Inr rows \<and> ?ok rows) \<longleftrightarrow>
    set (map fst ms) = set (map fst rs) \<and>
    (\<exists>rss. mapR (correlate_workload ms rs) (py_sorted str_lt (map fst ms)) = Inr rss \<and> (\<forall>rows \<in> set rss. ?ok rows))"
    by (auto simp: build_correlation_rows_def Let_def bindR_eq_Inr raise_if_eq_Inr)
  also have "\<dots> \<longleftrightarrow> set (map fst ms) = set (map fst rs) \<and> (\<forall>w \<in> set (map fst ms). workload_ok ms rs w)"
    unfolding mapR_filter set_py_sorted correlate_workload_iff ..
  finally show ?thesis unfolding f .
qed

text \<open>C15. The correlation passes exactly when it should: \<open>main\<close> returns 0 precisely when both summaries can be read,
  they cover the same workloads, and for every workload and every metric of the error budget both cells are
  numbers within the budget: equal counts, latencies and conflict ratio within 0.001, throughput within 0.1
  percent of the RTL value.  A throughput of zero on the RTL side is only ever a warning, whatever the model
  says; a NaN is never within the budget.\<close>

theorem correlation_zero_iff:
  "snd (main_correlate (mp, mf) (rp, rf)) = Inr 0 \<longleftrightarrow>
     (\<exists>ms rs. read_rtl_summary mp ''model_summary_aligned.csv'' mf = Inr ms \<and> read_rtl_summary rp ''rtl_summary.csv'' rf = Inr rs \<and>
        set (map fst ms) = set (map fst rs) \<and> (\<forall>w \<in> set (map fst ms). workload_ok ms rs w))"
proof -
  have "snd (main_correlate (mp, mf) (rp, rf)) = Inr 0 \<longleftrightarrow>
    (\<exists>ms rs rows. read_rtl_summary mp ''model_summary_aligned.csv'' mf = Inr ms \<and> read_rtl_summary rp ''rtl_summary.csv'' rf = Inr rs \<and>
      build_correlation_rows ms rs = Inr rows \<and> with_status ''fail'' rows = [])"
    unfolding main_correlate_def fst_conv snd_conv
    by (cases "read_rtl_summary mp ''model_summary_aligned.csv'' mf"; cases "read_rtl_summary rp ''rtl_summary.csv'' rf")
      (auto simp: Let_def split: sum.splits if_splits)
  then show ?thesis unfolding build_iff [symmetric] by blast
qed

definition rtl_sample :: "string \<Rightarrow> string list list" where
  "rtl_sample throughput = [RTL_FIELDS,
     [''hotspot'', ''64'', ''60'', ''4'', ''12.5'', ''12'', ''20'', ''24'', ''24'', ''125.0'', ''120'', ''200'', ''240'', ''240'',
      ''0.05'', throughput, ''25.000'']]"

theorem correlation_zero_iff_witness:
  "snd (main_correlate (''m'', Some (rtl_sample ''5.001'')) (''r'', Some (rtl_sample ''5.000''))) = Inr 0"
proof -
  let ?read = "\<lambda>t label f. read_rtl_summary t label (Some f)"
  have m: "?read ''m'' ''model_summary_aligned.csv'' (rtl_sample ''5.001'') = Inr [(''hotspot'', hd (dict_reader (rtl_sample ''5.001'')))]"
    and r: "?read ''r'' ''rtl_summary.csv'' (rtl_sample ''5.000'') = Inr [(''hotspot'', hd (dict_reader (rtl_sample ''5.000'')))]"
    by code_simp+
  have "(case build_correlation_rows [(''hotspot'', hd (dict_reader (rtl_sample ''5.001'')))]
      [(''hotspot'', hd (dict_reader (rtl_sample ''5.000'')))] of Inl _ \<Rightarrow> False | Inr rows \<Rightarrow> with_status ''fail'' rows = [])"
    by code_simp
  then have "\<exists>rows. build_correlation_rows [(''hotspot'', hd (dict_reader (rtl_sample ''5.001'')))]
      [(''hotspot'', hd (dict_reader (rtl_sample ''5.000'')))] = Inr rows \<and> with_status ''fail'' rows = []"
    by (simp only: split: sum.splits) auto
  then show ?thesis unfolding correlation_zero_iff m r build_iff by blast
qed

end
