(* ===== verification/Latency_Rows.thy ===== *)
theory Latency_Rows
  imports Mem_Sweep
begin

text \<open>
  \<open>examples/lt/tools/analyze_latency.py\<close>, first part: loading a latency trace into rows of typed cells,
  the removal of identical rows, the filters of the command line, and the metrics of a set of rows.
  A row is the Python dictionary of its cells, in insertion order; \<open>None\<close> is \<open>VNone\<close>.
\<close>

section \<open>Rows\<close>

datatype cell = VNone | VStr string | VFloat pyfloat | VInt int

type_synonym lat_row = "(string \<times> cell) list"

definition LATENCY_FIELDS :: "string list" where
  "LATENCY_FIELDS =
    [''initiator_id'', ''target_id'', ''command'', ''address'', ''data'', ''start_time_ns'', ''delay_ns'',
     ''end_time_ns'', ''decoded_port'', ''masked_address'', ''data_length'', ''response_status'',
     ''request_time_ns'', ''bus_grant_time_ns'', ''queue_delay_ns'', ''target_service_delay_ns'',
     ''total_delay_ns'', ''target_busy_until_ns'']"

definition OPTIONAL_FIELD_DEFAULTS :: "(string \<times> string) list" where
  "OPTIONAL_FIELD_DEFAULTS =
    [(''bank_id'', ''-1''), (''bank_conflict'', ''0''), (''bank_conflict_delay_ns'', ''0.0'')]"

definition FLOAT_FIELDS :: "string list" where
  "FLOAT_FIELDS =
    [''start_time_ns'', ''delay_ns'', ''end_time_ns'', ''request_time_ns'', ''bus_grant_time_ns'',
     ''queue_delay_ns'', ''target_service_delay_ns'', ''total_delay_ns'', ''target_busy_until_ns'',
     ''bank_conflict_delay_ns'']"

definition LATENCY_INT_FIELDS :: "string list" where
  "LATENCY_INT_FIELDS = [''data_length'', ''decoded_port'', ''bank_id'', ''bank_conflict'']"

definition WORKLOAD_FIELDS :: "string list" where
  "WORKLOAD_FIELDS =
    [''workload_transaction_count'', ''workload_address_stride'', ''workload_target_pattern'',
     ''workload_enable_initiator_101'', ''workload_enable_initiator_102'']"

definition DEDUP_IDENTICAL_FIELDS :: "string list" where
  "DEDUP_IDENTICAL_FIELDS =
    [''initiator_id'', ''target_id'', ''command'', ''address'', ''masked_address'', ''data'', ''start_time_ns'',
     ''delay_ns'', ''end_time_ns'', ''decoded_port'', ''data_length'', ''response_status'', ''request_time_ns'',
     ''bus_grant_time_ns'', ''queue_delay_ns'', ''target_service_delay_ns'', ''total_delay_ns'',
     ''target_busy_until_ns'', ''workload_transaction_count'', ''workload_address_stride'',
     ''workload_target_pattern'', ''workload_enable_initiator_101'', ''workload_enable_initiator_102'',
     ''bank_id'', ''bank_conflict'', ''bank_conflict_delay_ns'']"

text \<open>\<open>row.get(k)\<close> and \<open>row.get(k, "")\<close>.\<close>

definition get :: "lat_row \<Rightarrow> string \<Rightarrow> cell" where
  "get row k = (case map_of row k of None \<Rightarrow> VNone | Some v \<Rightarrow> v)"

definition get_or_empty :: "lat_row \<Rightarrow> string \<Rightarrow> cell" where
  "get_or_empty row k = (case map_of row k of None \<Rightarrow> VStr [] | Some v \<Rightarrow> v)"

fun float_cell :: "cell \<Rightarrow> pyfloat option" where
  "float_cell (VFloat x) = Some x"
| "float_cell _ = None"

definition float_at :: "lat_row \<Rightarrow> string \<Rightarrow> pyfloat option" where
  "float_at row k = float_cell (get row k)"

section \<open>Loading\<close>

text \<open>\<open>float\<close> and \<open>int\<close> of a cell, \<open>None\<close> when that fails; the converted columns are distinct,
  so only texts and missing cells are converted.\<close>

fun to_float_cell :: "cell \<Rightarrow> cell" where
  "to_float_cell (VStr s) = (case parse_float s of None \<Rightarrow> VNone | Some x \<Rightarrow> VFloat x)"
| "to_float_cell v = v"

fun to_int_cell :: "cell \<Rightarrow> cell" where
  "to_int_cell (VStr s) = (case py_int10 s of None \<Rightarrow> VNone | Some n \<Rightarrow> VInt n)"
| "to_int_cell v = v"

definition text_cell :: "string option \<Rightarrow> cell" where
  "text_cell v = (case v of None \<Rightarrow> VNone | Some s \<Rightarrow> VStr s)"

text \<open>The three loops over columns: the defaults of missing or empty cells, and the conversions.\<close>

fun fill_defaults :: "lat_row \<Rightarrow> (string \<times> string) list \<Rightarrow> lat_row" where
  "fill_defaults d [] = d"
| "fill_defaults d ((k, v) # kvs) =
     fill_defaults (if get d k = VNone \<or> get d k = VStr [] then dict_set d k (VStr v) else d) kvs"

fun convert :: "(cell \<Rightarrow> cell) \<Rightarrow> lat_row \<Rightarrow> string list \<Rightarrow> lat_row" where
  "convert f d [] = d"
| "convert f d (k # ks) = convert f (dict_set d k (f (get d k))) ks"

fun load_row :: "int \<times> csv_row \<Rightarrow> lat_row" where
  "load_row (number, r) =
     (let read = foldl (\<lambda>d (k, v). dict_set d k (text_cell v)) [] (cells r);
         filled = fill_defaults (dict_set read ''_row_number'' (VInt number)) OPTIONAL_FIELD_DEFAULTS in
     convert to_int_cell (convert to_float_cell filled FLOAT_FIELDS) LATENCY_INT_FIELDS)"

text \<open>The rows, or the missing columns for which \<open>load_rows\<close> prints an error and exits.\<close>

definition load_rows :: "string list list \<Rightarrow> string list + lat_row list" where
  "load_rows recs =
     (let fieldnames = (case reader_fieldnames recs of None \<Rightarrow> [] | Some h \<Rightarrow> h);
          missing = filter (\<lambda>f. f \<notin> set fieldnames) LATENCY_FIELDS; rows = dict_reader recs in
      if missing \<noteq> [] then Inl missing else Inr (map load_row (zip [2..int (length rows) + 1] rows)))"

section \<open>Identical rows\<close>

text \<open>Equality of the key tuples: floats by value, and no NaN equals another one.\<close>

fun cell_eq :: "cell \<Rightarrow> cell \<Rightarrow> bool" where
  "cell_eq (VFloat x) (VFloat y) = f_eq x y"
| "cell_eq (VFloat x) _ = False"
| "cell_eq _ (VFloat y) = False"
| "cell_eq u v = (u = v)"

definition dedup_key :: "lat_row \<Rightarrow> cell list" where
  "dedup_key row = map (get row) DEDUP_IDENTICAL_FIELDS"

definition key_eq :: "cell list \<Rightarrow> cell list \<Rightarrow> bool" where
  "key_eq = list_all2 cell_eq"

fun dedup_from :: "cell list list \<Rightarrow> lat_row list \<Rightarrow> lat_row list" where
  "dedup_from seen [] = []"
| "dedup_from seen (row # rows) =
     (let key = dedup_key row in
      if list_ex (key_eq key) seen then dedup_from seen rows else row # dedup_from (key # seen) rows)"

definition dedup_identical_rows :: "lat_row list \<Rightarrow> lat_row list" where
  "dedup_identical_rows rows = dedup_from [] rows"

section \<open>Filters\<close>

text \<open>The arguments; a limit comes with the text that \<open>:g\<close> prints for it.\<close>

record lat_args =
  trace_path :: string
  initiators :: "string list"
  excluded_initiators :: "string list"
  targets :: "string list"
  commands :: "string list"
  max_start_time_ns :: "(pyfloat \<times> string) option"
  min_start_time_ns :: "(pyfloat \<times> string) option"
  dedup_identical :: bool
  summary_csv_output :: bool
  fail_on_sanity :: bool

definition in_texts :: "cell \<Rightarrow> string list \<Rightarrow> bool" where
  "in_texts v ss \<longleftrightarrow> v \<in> VStr ` set ss"

text \<open>\<open>str(value)\<close>; the text of a float cell is never needed.\<close>

fun cell_str :: "cell \<Rightarrow> string" where
  "cell_str VNone = ''None''"
| "cell_str (VStr s) = s"
| "cell_str (VInt n) = str_int n"
| "cell_str (VFloat x) = fmt3 x"

definition keep_row :: "lat_args \<Rightarrow> lat_row \<Rightarrow> bool" where
  "keep_row args row \<longleftrightarrow>
     (initiators args \<noteq> [] \<longrightarrow> in_texts (get row ''initiator_id'') (initiators args)) \<and>
     (excluded_initiators args \<noteq> [] \<longrightarrow> \<not> in_texts (get row ''initiator_id'') (excluded_initiators args)) \<and>
     (targets args \<noteq> [] \<longrightarrow> in_texts (get row ''target_id'') (targets args)) \<and>
     (commands args \<noteq> [] \<longrightarrow> py_upper (cell_str (get_or_empty row ''command'')) \<in> py_upper ` set (commands args)) \<and>
     (case min_start_time_ns args of None \<Rightarrow> True
      | Some (lo, _) \<Rightarrow> (case float_at row ''start_time_ns'' of None \<Rightarrow> False | Some t \<Rightarrow> \<not> f_lt t lo)) \<and>
     (case max_start_time_ns args of None \<Rightarrow> True
      | Some (hi, _) \<Rightarrow> (case float_at row ''start_time_ns'' of None \<Rightarrow> False | Some t \<Rightarrow> \<not> f_lt hi t))"

definition filter_rows :: "lat_row list \<Rightarrow> lat_args \<Rightarrow> lat_row list" where
  "filter_rows rows args = filter (keep_row args) rows"

definition active_filters :: "lat_args \<Rightarrow> string" where
  "active_filters args =
     (let clause = (\<lambda>name ss. if ss = [] then [] else [name @ ''['' @ py_join '', '' ss @ '']'']);
          bound = (\<lambda>name l. case l of None \<Rightarrow> [] | Some (_, t) \<Rightarrow> [name @ t]);
          filters = clause ''initiator_id in '' (initiators args)
            @ clause ''initiator_id not in '' (excluded_initiators args)
            @ clause ''target_id in '' (targets args)
            @ clause ''command in '' (map py_upper (commands args))
            @ bound ''start_time_ns >= '' (min_start_time_ns args)
            @ bound ''start_time_ns <= '' (max_start_time_ns args) in
      if filters = [] then ''none'' else py_join ''; '' filters)"

section \<open>Metrics of a set of rows\<close>

definition metric_values :: "lat_row list \<Rightarrow> string \<Rightarrow> pyfloat list" where
  "metric_values rows k = List.map_filter (\<lambda>row. float_at row k) rows"

text \<open>\<open>row.get("queue_delay_ns") or 0.0\<close>.\<close>

definition queue_delay :: "lat_row \<Rightarrow> pyfloat" where
  "queue_delay row = (case float_at row ''queue_delay_ns'' of None \<Rightarrow> f_zero | Some x \<Rightarrow> x)"

definition contended_rows :: "lat_row list \<Rightarrow> lat_row list" where
  "contended_rows rows = filter (\<lambda>row. f_lt f_zero (queue_delay row)) rows"

definition share_of :: "lat_row list \<Rightarrow> lat_row list \<Rightarrow> pyfloat option result" where
  "share_of part rows = (if rows = [] then Inr None
     else bindR (conflict_ratio (int (length part)) (int (length rows))) (\<lambda>x. Inr (Some x)))"

definition contention_ratio :: "lat_row list \<Rightarrow> pyfloat option result" where
  "contention_ratio rows = share_of (contended_rows rows) rows"

definition bank_conflict_rows :: "lat_row list \<Rightarrow> lat_row list" where
  "bank_conflict_rows rows = filter (\<lambda>row. get row ''bank_conflict'' = VInt 1) rows"

definition bank_conflict_ratio :: "lat_row list \<Rightarrow> pyfloat option result" where
  "bank_conflict_ratio rows = share_of (bank_conflict_rows rows) rows"

definition format_na :: "pyfloat option \<Rightarrow> string" where
  "format_na v = (case v of None \<Rightarrow> ''NA'' | Some x \<Rightarrow> fmt3 x)"

definition min_opt :: "pyfloat list \<Rightarrow> pyfloat option" where
  "min_opt xs = (case xs of [] \<Rightarrow> None | y # ys \<Rightarrow> Some (fmin_from y ys))"

definition max_opt :: "pyfloat list \<Rightarrow> pyfloat option" where
  "max_opt xs = (case xs of [] \<Rightarrow> None | y # ys \<Rightarrow> Some (fmax_from y ys))"

text \<open>The text of an average or of a ratio.\<close>

definition avg_text :: "pyfloat list \<Rightarrow> string result" where
  "avg_text xs = bindR (average_opt xs) (\<lambda>a. Inr (format_na a))"

definition ratio_text :: "pyfloat option result \<Rightarrow> string result" where
  "ratio_text r = bindR r (\<lambda>x. Inr (format_na x))"

section \<open>What the removal of identical rows keeps\<close>

lemma cell_eq_trans: "cell_eq u v \<Longrightarrow> cell_eq v w \<Longrightarrow> cell_eq u w"
  by (cases u; cases v; cases w) (auto simp: f_eq_val)

lemma key_eq_trans: "key_eq k l \<Longrightarrow> key_eq l m \<Longrightarrow> key_eq k m"
  unfolding key_eq_def by (rule list_all2_trans [OF cell_eq_trans])

text \<open>\<open>r\<close> repeats a row of \<open>rs\<close>.\<close>

definition repeats :: "lat_row \<Rightarrow> lat_row list \<Rightarrow> bool" where
  "repeats r rs \<longleftrightarrow> (\<exists>s \<in> set rs. key_eq (dedup_key r) (dedup_key s))"

lemma dedup_from_spec:
  assumes "\<And>k. (\<exists>s \<in> set seen. key_eq k s) \<longleftrightarrow> (\<exists>r \<in> set pre. key_eq k (dedup_key r))"
  shows "dedup_from seen rows = map (\<lambda>i. (pre @ rows) ! i)
    (filter (\<lambda>i. \<not> repeats ((pre @ rows) ! i) (take i (pre @ rows))) [length pre..<length pre + length rows])"
  using assms
proof (induction rows arbitrary: seen pre)
  case (Cons row rows)
  let ?key = "dedup_key row"
  let ?seen = "if list_ex (key_eq ?key) seen then seen else ?key # seen"
  have found: "list_ex (key_eq ?key) seen \<longleftrightarrow> repeats row pre"
    using Cons.prems by (simp add: list_ex_iff repeats_def)
  have "(\<exists>s \<in> set ?seen. key_eq k s) \<longleftrightarrow> (\<exists>r \<in> set (pre @ [row]). key_eq k (dedup_key r))" for k
    using Cons.prems key_eq_trans [of k ?key] by (auto simp: list_ex_iff)
  from Cons.IH [OF this] have IH: "dedup_from ?seen rows = map (\<lambda>i. (pre @ row # rows) ! i)
    (filter (\<lambda>i. \<not> repeats ((pre @ row # rows) ! i) (take i (pre @ row # rows))) [Suc (length pre)..<Suc (length pre) + length rows])"
    by simp
  have "[length pre..<length pre + length (row # rows)] = length pre # [Suc (length pre)..<Suc (length pre) + length rows]"
    by (simp add: upt_conv_Cons del: upt_Suc)
  then show ?case using IH found by (cases "repeats row pre") (simp_all add: Let_def del: upt_Suc)
qed simp

text \<open>A NaN in a compared column makes a row unlike every other.\<close>

lemma nan_never_repeats: "VFloat FNan \<in> set (dedup_key r) \<Longrightarrow> \<not> repeats r rows"
proof -
  have "\<not> cell_eq (VFloat FNan) v" for v by (cases v) (simp_all add: f_eq_val)
  then have "VFloat FNan \<in> set k \<Longrightarrow> \<not> key_eq k l" for k l
    unfolding key_eq_def list_all2_conv_all_nth by (metis in_set_conv_nth)
  then show "VFloat FNan \<in> set (dedup_key r) \<Longrightarrow> \<not> repeats r rows" by (auto simp: repeats_def)
qed

text \<open>C22. \<open>--dedup-identical\<close> keeps exactly the rows that have no identical row before them, in order, where rows
  are identical when the 26 compared columns are equal (numbers by value, and a NaN equal to nothing).\<close>

theorem dedup_keeps_first:
  "dedup_identical_rows rows = map (\<lambda>i. rows ! i) (filter (\<lambda>i. \<not> repeats (rows ! i) (take i rows)) [0..<length rows])"
  unfolding dedup_identical_rows_def using dedup_from_spec [of "[]" "[]" rows] by simp

end
