(* ===== verification/Latency_Report.thy ===== *)
theory Latency_Report
  imports Latency_Rows
begin

text \<open>
  \<open>examples/lt/tools/analyze_latency.py\<close>, second part: the tables of the report, the sanity checks and
  \<open>main\<close>.  The output is the list of lines on the standard output; a table is a list of rows of
  texts, each as long as the header row.
\<close>

section \<open>Tables\<close>

text \<open>\<open>len\<close> of a text: the bytes that begin a UTF-8 character.\<close>

definition text_len :: "string \<Rightarrow> nat" where
  "text_len s = length (filter (\<lambda>c. \<not> (128 \<le> ccode c \<and> ccode c < 192)) s)"

definition ljust :: "string \<Rightarrow> nat \<Rightarrow> string" where
  "ljust s width = s @ replicate (width - text_len s) (CHR '' '')"

definition widths :: "string list \<Rightarrow> string list list \<Rightarrow> nat list" where
  "widths headers rows = foldl (map2 max) (map text_len headers) (map (map text_len) rows)"

definition padded_line :: "nat list \<Rightarrow> string list \<Rightarrow> string" where
  "padded_line ws vs = py_join ''  '' (map2 ljust vs ws)"

definition print_table :: "string \<Rightarrow> string list \<Rightarrow> string list list \<Rightarrow> string list" where
  "print_table title headers rows =
     [[], ''== '' @ title @ '' =='']
     @ (if rows = [] then [''(none)'']
        else let ws = widths headers rows in
          [padded_line ws headers, py_join ''  '' (map (\<lambda>w. replicate w (CHR ''-'')) ws)]
          @ map (padded_line ws) rows)"

text \<open>Rows of a name and a computed text.\<close>

definition named_rows :: "(string \<times> string result) list \<Rightarrow> string list list result" where
  "named_rows = mapR (\<lambda>(k, r). bindR r (\<lambda>t. Inr [k, t]))"

definition metric_table :: "string \<Rightarrow> (string \<times> string result) list \<Rightarrow> string list result" where
  "metric_table title kvs = bindR (named_rows kvs) (\<lambda>rows. Inr (print_table title [''metric'', ''value''] rows))"

section \<open>Overview and contention\<close>

definition count_text :: "lat_row list \<Rightarrow> string result" where
  "count_text rows = Inr (str_nat (length rows))"

definition print_overview :: "lat_row list \<Rightarrow> nat \<Rightarrow> nat \<Rightarrow> nat \<Rightarrow> string \<Rightarrow> string list result" where
  "print_overview rows raw_count analyzed_count deduplicated_count filters =
     (let delays = metric_values rows ''delay_ns''; queue_delays = metric_values rows ''queue_delay_ns'';
          service_delays = metric_values rows ''target_service_delay_ns'';
          total_delays = metric_values rows ''total_delay_ns'';
          bank_conflict_delays = metric_values rows ''bank_conflict_delay_ns'';
          first_start = min_opt (metric_values rows ''start_time_ns'');
          last_end = max_opt (metric_values rows ''end_time_ns'');
          observed_time = (case (first_start, last_end) of (Some a, Some b) \<Rightarrow> Some (f_sub b a) | _ \<Rightarrow> None) in
      metric_table ''Overview''
        [(''raw_transactions'', Inr (str_nat raw_count)), (''analyzed_transactions'', Inr (str_nat analyzed_count)),
         (''deduplicated_transactions'', Inr (str_nat deduplicated_count)), (''filtered_transactions'', count_text rows),
         (''active_filters'', Inr filters), (''total_transactions'', count_text rows),
         (''first_start_time_ns'', Inr (format_na first_start)), (''last_end_time_ns'', Inr (format_na last_end)),
         (''total_observed_time_ns'', Inr (format_na observed_time)), (''avg_delay_ns'', avg_text delays),
         (''min_delay_ns'', Inr (format_na (min_opt delays))), (''max_delay_ns'', Inr (format_na (max_opt delays))),
         (''avg_queue_delay_ns'', avg_text queue_delays), (''max_queue_delay_ns'', Inr (format_na (max_opt queue_delays))),
         (''avg_target_service_delay_ns'', avg_text service_delays), (''avg_total_delay_ns'', avg_text total_delays),
         (''max_total_delay_ns'', Inr (format_na (max_opt total_delays))),
         (''contended_transactions'', count_text (contended_rows rows)),
         (''contention_ratio_pct'', ratio_text (contention_ratio rows)),
         (''total_bank_conflicts'', count_text (bank_conflict_rows rows)),
         (''bank_conflict_ratio_pct'', ratio_text (bank_conflict_ratio rows)),
         (''avg_bank_conflict_delay_ns'', avg_text bank_conflict_delays),
         (''max_bank_conflict_delay_ns'', Inr (format_na (max_opt bank_conflict_delays)))])"

text \<open>\<open>max(rows, key=\<dots>)\<close>: the first row with the longest queue delay.\<close>

definition worst_row :: "lat_row list \<Rightarrow> lat_row" where
  "worst_row rows = (case rows of [] \<Rightarrow> [] | r # rs \<Rightarrow> min_from (\<lambda>x y. f_lt (queue_delay y) (queue_delay x)) r rs)"

definition str_at :: "lat_row \<Rightarrow> string \<Rightarrow> string" where
  "str_at row k = cell_str (get_or_empty row k)"

definition num_at :: "lat_row \<Rightarrow> string \<Rightarrow> string" where
  "num_at row k = format_na (float_at row k)"

definition print_contention_summary :: "lat_row list \<Rightarrow> string list result" where
  "print_contention_summary rows =
     (let queue_delays = metric_values rows ''queue_delay_ns''; worst = worst_row rows in
      metric_table ''Contention Summary''
        [(''total_transactions'', count_text rows), (''contended_transactions'', count_text (contended_rows rows)),
         (''contention_ratio_pct'', ratio_text (contention_ratio rows)), (''avg_queue_delay_ns'', avg_text queue_delays),
         (''max_queue_delay_ns'', Inr (format_na (max_opt queue_delays))),
         (''worst_queue_initiator_id'', Inr (str_at worst ''initiator_id'')),
         (''worst_queue_target_id'', Inr (str_at worst ''target_id'')),
         (''worst_queue_command'', Inr (str_at worst ''command'')),
         (''worst_queue_address'', Inr (str_at worst ''address'')),
         (''worst_queue_start_time_ns'', Inr (num_at worst ''start_time_ns'')),
         (''worst_queue_delay_ns'', Inr (num_at worst ''queue_delay_ns'')),
         (''worst_queue_total_delay_ns'', Inr (num_at worst ''total_delay_ns''))])"

definition print_bank_conflict_summary :: "lat_row list \<Rightarrow> string list result" where
  "print_bank_conflict_summary rows =
     (let bank_conflict_delays = metric_values rows ''bank_conflict_delay_ns'' in
      metric_table ''Bank Conflict Summary''
        [(''total_transactions'', count_text rows), (''total_bank_conflicts'', count_text (bank_conflict_rows rows)),
         (''bank_conflict_ratio_pct'', ratio_text (bank_conflict_ratio rows)),
         (''avg_bank_conflict_delay_ns'', avg_text bank_conflict_delays),
         (''max_bank_conflict_delay_ns'', Inr (format_na (max_opt bank_conflict_delays)))])"

definition summary_metrics :: "lat_row list \<Rightarrow> (string \<times> string result) list" where
  "summary_metrics rows =
     (let delays = metric_values rows ''delay_ns''; queue_delays = metric_values rows ''queue_delay_ns'';
          service_delays = metric_values rows ''target_service_delay_ns'';
          bank_conflict_delays = metric_values rows ''bank_conflict_delay_ns'' in
      [(''total_transactions'', count_text rows), (''avg_delay_ns'', avg_text delays),
       (''max_delay_ns'', Inr (format_na (max_opt delays))), (''avg_queue_delay_ns'', avg_text queue_delays),
       (''max_queue_delay_ns'', Inr (format_na (max_opt queue_delays))),
       (''contention_ratio_pct'', ratio_text (contention_ratio rows)),
       (''avg_target_service_delay_ns'', avg_text service_delays),
       (''total_bank_conflicts'', count_text (bank_conflict_rows rows)),
       (''bank_conflict_ratio_pct'', ratio_text (bank_conflict_ratio rows)),
       (''avg_bank_conflict_delay_ns'', avg_text bank_conflict_delays),
       (''max_bank_conflict_delay_ns'', Inr (format_na (max_opt bank_conflict_delays)))])"

definition write_latency_summary :: "lat_row list \<Rightarrow> string list list result" where
  "write_latency_summary rows =
     bindR (named_rows (summary_metrics rows)) (\<lambda>kvs. Inr [map fst (summary_metrics rows), map (\<lambda>kv. kv ! 1) kvs])"

section \<open>Groups\<close>

text \<open>Tuples of texts compare lexicographically.\<close>

fun strs_lt :: "string list \<Rightarrow> string list \<Rightarrow> bool" where
  "strs_lt (x # xs) (y # ys) = (if x = y then strs_lt xs ys else str_lt x y)"
| "strs_lt [] (y # ys) = True"
| "strs_lt _ [] = False"

definition sorted_groups :: "(cell list \<times> 'a list) list \<Rightarrow> (cell list \<times> 'a list) list" where
  "sorted_groups = py_sorted (\<lambda>x y. strs_lt (map cell_str (fst x)) (map cell_str (fst y)))"

definition groups_by :: "lat_row list \<Rightarrow> string list \<Rightarrow> (cell list \<times> lat_row list) list" where
  "groups_by rows keys = sorted_groups (group_by (\<lambda>row. map (get_or_empty row) keys) rows)"

definition group_cells :: "cell list \<times> lat_row list \<Rightarrow> string list result" where
  "group_cells = (\<lambda>(key, group_rows).
     let delays = metric_values group_rows ''delay_ns''; queue_delays = metric_values group_rows ''queue_delay_ns'';
         service_delays = metric_values group_rows ''target_service_delay_ns'';
         total_delays = metric_values group_rows ''total_delay_ns'' in
     bindR (mapR (\<lambda>r. r)
       [count_text group_rows, avg_text delays, Inr (format_na (min_opt delays)), Inr (format_na (max_opt delays)),
        avg_text queue_delays, Inr (format_na (max_opt queue_delays)), avg_text service_delays, avg_text total_delays,
        Inr (format_na (max_opt total_delays)), ratio_text (contention_ratio group_rows)]) (\<lambda>ts.
     Inr (map cell_str key @ ts)))"

definition summarize_numeric :: "lat_row list \<Rightarrow> string list \<Rightarrow> string list list result" where
  "summarize_numeric rows group_keys = mapR group_cells (groups_by rows group_keys)"

definition group_table :: "lat_row list \<Rightarrow> string list \<Rightarrow> string list result" where
  "group_table rows keys = bindR (summarize_numeric rows keys) (\<lambda>cells.
     Inr (print_table (''By '' @ py_join '', '' keys)
       (keys @ [''count'', ''avg_delay_ns'', ''min_delay_ns'', ''max_delay_ns'', ''avg_queue_delay_ns'', ''max_queue_delay_ns'',
          ''avg_service_delay_ns'', ''avg_total_delay_ns'', ''max_total_delay_ns'', ''contention_ratio_pct'']) cells))"

text \<open>Counts of the values of one or several columns.\<close>

definition count_rows :: "lat_row list \<Rightarrow> string list \<Rightarrow> string list list" where
  "count_rows rows keys = map (\<lambda>(key, group). map cell_str key @ [str_nat (length group)]) (groups_by rows keys)"

definition count_by :: "lat_row list \<Rightarrow> string \<Rightarrow> string list list" where
  "count_by rows k = count_rows rows [k]"

definition print_workload_config_hint :: "lat_row list \<Rightarrow> string list" where
  "print_workload_config_hint rows =
     (let present_fields = (case rows of [] \<Rightarrow> [] | r # _ \<Rightarrow> filter (\<lambda>f. f \<in> set (map fst r)) WORKLOAD_FIELDS) in
      if present_fields = []
      then print_table ''Workload Config Hint'' [''status''] [[''no workload config fields in trace'']]
      else print_table ''Workload Config Hint'' (present_fields @ [''count'']) (count_rows rows present_fields))"

definition parse_hex_cell :: "cell \<Rightarrow> int option" where
  "parse_hex_cell v = (case v of VNone \<Rightarrow> None
     | _ \<Rightarrow> let t = py_strip (cell_str v) in if t = [] then None else py_int16 t)"

definition target_addresses :: "lat_row list \<Rightarrow> (cell list \<times> int) list" where
  "target_addresses rows = List.map_filter (\<lambda>row. map_option (\<lambda>a. ([get_or_empty row ''target_id''], a))
     (parse_hex_cell (get row ''address''))) rows"

definition range_cells :: "cell list \<times> (cell list \<times> int) list \<Rightarrow> string list" where
  "range_cells = (\<lambda>(key, group). let addresses = map snd group in
     map cell_str key @ [format_hex (foldl min (hd addresses) (tl addresses)) 16,
       format_hex (foldl max (hd addresses) (tl addresses)) 16, str_nat (length addresses)])"

definition print_address_range_summary :: "lat_row list \<Rightarrow> string list" where
  "print_address_range_summary rows =
     print_table ''Address Range Summary By target_id'' [''target_id'', ''min_address'', ''max_address'', ''count'']
       (map range_cells (sorted_groups (group_by fst (target_addresses rows))))"

section \<open>Sanity checks\<close>

text \<open>A check of float columns fails only where all of them are numbers.\<close>

definition time_reversed :: "lat_row \<Rightarrow> bool" where
  "time_reversed row = (case (float_at row ''end_time_ns'', float_at row ''start_time_ns'') of
     (Some e, Some s) \<Rightarrow> f_lt e s | _ \<Rightarrow> False)"

definition negative_delay :: "lat_row \<Rightarrow> bool" where
  "negative_delay row = (case float_at row ''delay_ns'' of Some d \<Rightarrow> f_lt d f_zero | None \<Rightarrow> False)"

definition differs :: "pyfloat \<Rightarrow> pyfloat \<Rightarrow> bool" where
  "differs x y \<longleftrightarrow> f_lt (flit 1 1000) (f_abs (f_sub x y))"

definition parts_differ :: "lat_row \<Rightarrow> bool" where
  "parts_differ row = (case (float_at row ''total_delay_ns'', float_at row ''queue_delay_ns'',
       float_at row ''target_service_delay_ns'', float_at row ''bank_conflict_delay_ns'') of
     (Some t, Some q, Some s, Some b) \<Rightarrow> differs t (f_add (f_add q s) b) | _ \<Rightarrow> False)"

definition delay_differs :: "lat_row \<Rightarrow> bool" where
  "delay_differs row = (case (float_at row ''delay_ns'', float_at row ''total_delay_ns'') of
     (Some d, Some t) \<Rightarrow> differs d t | _ \<Rightarrow> False)"

definition sanity_checks :: "(string \<times> (lat_row \<Rightarrow> bool)) list" where
  "sanity_checks =
    [(''Sanity: response_status != TLM_OK_RESPONSE'', \<lambda>row. get row ''response_status'' \<noteq> VStr ''TLM_OK_RESPONSE''),
     (''Sanity: data_length != 4'', \<lambda>row. get row ''data_length'' \<noteq> VInt 4),
     (''Sanity: end_time_ns < start_time_ns'', time_reversed),
     (''Sanity: delay_ns < 0'', negative_delay),
     (''Sanity: total_delay_ns != queue_delay_ns + target_service_delay_ns + bank_conflict_delay_ns'', parts_differ),
     (''Sanity: delay_ns != total_delay_ns'', delay_differs)]"

definition sanity_row :: "lat_row \<Rightarrow> string list" where
  "sanity_row row =
     map (str_at row) [''_row_number'', ''initiator_id'', ''target_id'', ''command'', ''address'', ''data_length'']
     @ map (num_at row) [''start_time_ns'', ''end_time_ns'', ''delay_ns'', ''queue_delay_ns'', ''target_service_delay_ns'']
     @ [str_at row ''bank_conflict'', num_at row ''bank_conflict_delay_ns'', num_at row ''total_delay_ns'',
        str_at row ''response_status'']"

definition print_sanity_block :: "string \<Rightarrow> lat_row list \<Rightarrow> string list" where
  "print_sanity_block title rows =
     print_table title
       [''csv_row'', ''initiator_id'', ''target_id'', ''command'', ''address'', ''data_length'', ''start_time_ns'',
        ''end_time_ns'', ''delay_ns'', ''queue_delay_ns'', ''target_service_delay_ns'', ''bank_conflict'',
        ''bank_conflict_delay_ns'', ''total_delay_ns'', ''response_status'']
       (map sanity_row (take 20 rows))
     @ (if 20 < length rows then [''... '' @ str_nat (length rows - 20) @ '' more rows omitted''] else [])"

text \<open>The lines and the number of failing rows, summed over the checks.\<close>

definition print_sanity_checks :: "lat_row list \<Rightarrow> string list \<times> nat" where
  "print_sanity_checks rows =
     foldl (\<lambda>(out, failure_count) (title, fails).
       let failing_rows = filter fails rows in
       if failing_rows \<noteq> []
       then (out @ print_sanity_block title failing_rows, failure_count + length failing_rows)
       else (out @ print_table title [''status''] [[''OK'']], failure_count)) ([], 0) sanity_checks"

section \<open>Timeline\<close>

definition timeline_row :: "lat_row \<Rightarrow> string list" where
  "timeline_row row =
     map (num_at row) [''start_time_ns'', ''end_time_ns'']
     @ map (str_at row) [''initiator_id'', ''target_id'', ''command'', ''address'', ''masked_address'', ''data'']
     @ map (num_at row) [''delay_ns'', ''queue_delay_ns'', ''target_service_delay_ns'']
     @ [str_at row ''bank_id'', str_at row ''bank_conflict'', num_at row ''bank_conflict_delay_ns'',
        num_at row ''total_delay_ns'', str_at row ''response_status'']"

definition print_timeline :: "lat_row list \<Rightarrow> string \<Rightarrow> string list" where
  "print_timeline rows title =
     print_table title
       [''start_time_ns'', ''end_time_ns'', ''initiator_id'', ''target_id'', ''command'', ''address'', ''masked_address'',
        ''data'', ''delay_ns'', ''queue_delay_ns'', ''target_service_delay_ns'', ''bank_id'', ''bank_conflict'',
        ''bank_conflict_delay_ns'', ''total_delay_ns'', ''response_status'']
       (map timeline_row rows)"

definition time_or_inf :: "lat_row \<Rightarrow> string \<Rightarrow> pyfloat" where
  "time_or_inf row k = (case float_at row k of None \<Rightarrow> FInf False | Some x \<Rightarrow> x)"

fun int_of_cell :: "cell \<Rightarrow> int" where
  "int_of_cell (VInt n) = n"
| "int_of_cell _ = 0"

definition timeline_lt :: "lat_row \<Rightarrow> lat_row \<Rightarrow> bool" where
  "timeline_lt x y =
     (let s = time_or_inf x ''start_time_ns''; s' = time_or_inf y ''start_time_ns'';
          e = time_or_inf x ''end_time_ns''; e' = time_or_inf y ''end_time_ns'' in
      if \<not> f_eq s s' then f_lt s s' else if \<not> f_eq e e' then f_lt e e'
      else int_of_cell (get x ''_row_number'') < int_of_cell (get y ''_row_number''))"

section \<open>The run\<close>

definition lat_output :: "lat_args \<Rightarrow> nat \<Rightarrow> nat \<Rightarrow> lat_row list \<Rightarrow> string list result" where
  "lat_output args raw_count analyzed_count rows =
     (let sorted_rows = py_sorted timeline_lt rows in
      bindR (print_overview rows raw_count analyzed_count (raw_count - analyzed_count) (active_filters args)) (\<lambda>overview.
      bindR (print_contention_summary rows) (\<lambda>contention.
      bindR (print_bank_conflict_summary rows) (\<lambda>bank.
      bindR (group_table rows [''initiator_id'']) (\<lambda>by_initiator.
      bindR (group_table rows [''target_id'', ''command'']) (\<lambda>by_target.
      bindR (group_table rows [''initiator_id'', ''target_id'', ''command'']) (\<lambda>by_all.
      Inr ([''Trace: '' @ trace_path args] @ overview @ print_workload_config_hint rows @ contention @ bank
        @ by_initiator @ by_target @ by_all
        @ print_table ''By response_status'' [''response_status'', ''count''] (count_by rows ''response_status'')
        @ print_table ''By decoded_port'' [''decoded_port'', ''count''] (count_by rows ''decoded_port'')
        @ print_address_range_summary rows
        @ print_table ''Data Length Summary'' [''data_length'', ''count''] (count_by rows ''data_length'')
        @ fst (print_sanity_checks rows)
        @ print_timeline (take 10 sorted_rows) ''First 10 Timeline Rows''
        @ print_timeline (drop (length sorted_rows - 10) sorted_rows) ''Last 10 Timeline Rows''))))))))"

definition analyzed_rows :: "lat_args \<Rightarrow> lat_row list \<Rightarrow> lat_row list" where
  "analyzed_rows args raw_rows = (if dedup_identical args then dedup_identical_rows raw_rows else raw_rows)"

text \<open>The lines printed, the summary file, and the exit status.\<close>

definition main_latency ::
  "lat_args \<Rightarrow> string list list option \<Rightarrow> (string list \<times> string list list option \<times> int) result" where
  "main_latency args file =
     (case file of
        None \<Rightarrow> Inr ([], None, 1)
      | Some recs \<Rightarrow> (case load_rows recs of
          Inl missing \<Rightarrow> Inr ([], None, 1)
        | Inr raw_rows \<Rightarrow>
            let analyzed = analyzed_rows args raw_rows; rows = filter_rows analyzed args in
            if rows = [] then Inr ([], None, 1)
            else
              bindR (if summary_csv_output args then bindR (write_latency_summary rows) (\<lambda>s. Inr (Some s)) else Inr None) (\<lambda>summary.
              bindR (lat_output args (length raw_rows) (length analyzed) rows) (\<lambda>out.
              Inr (out, summary, if fail_on_sanity args \<and> snd (print_sanity_checks rows) \<noteq> 0 then 1 else 0)))))"

section \<open>Nothing raises\<close>

text \<open>Averages and ratios of fewer than \<open>2 ^ 46\<close> rows are always computed.\<close>

lemma metric_values_length: "length (metric_values rows k) \<le> length rows"
  by (simp add: metric_values_def List.map_filter_def)

lemma avg_text_total: "length rows < 2 ^ 46 \<Longrightarrow> \<exists>t. avg_text (metric_values rows k) = Inr t"
proof -
  assume n: "length rows < 2 ^ 46"
  let ?xs = "metric_values rows k"
  have "length ?xs < 2 ^ 53" using metric_values_length [of rows k] n by simp
  then obtain a where "average ?xs = Inr a" using average_total by blast
  then show ?thesis
    by (cases "?xs = []") (auto simp: avg_text_def average_opt_def average_def bindR_eq_Inr)
qed

lemma share_total: "length part \<le> length rows \<Longrightarrow> length rows < 2 ^ 46 \<Longrightarrow> \<exists>t. ratio_text (share_of part rows) = Inr t"
proof (cases "rows = []")
  case False
  assume a: "length part \<le> length rows" "length rows < 2 ^ 46"
  then have "int (length rows) < int (2 ^ 46)" by (simp only: of_nat_less_iff)
  then have "int (length rows) < 2 ^ 46" "1 \<le> int (length rows)" "int (length part) \<le> int (length rows)"
    using a(1) False by (cases rows; simp)+
  from conflict_ratio_range [OF _ this(3,2,1)] show ?thesis using False by (auto simp: share_of_def ratio_text_def)
qed (simp add: share_of_def ratio_text_def)

lemma contention_total: "length rows < 2 ^ 46 \<Longrightarrow> \<exists>t. ratio_text (contention_ratio rows) = Inr t"
  unfolding contention_ratio_def by (rule share_total) (simp_all add: contended_rows_def)

lemma conflict_total: "length rows < 2 ^ 46 \<Longrightarrow> \<exists>t. ratio_text (bank_conflict_ratio rows) = Inr t"
  unfolding bank_conflict_ratio_def by (rule share_total) (simp_all add: bank_conflict_rows_def)

lemma named_rows_total: "(\<And>r. r \<in> set (map snd kvs) \<Longrightarrow> \<exists>t. r = Inr t) \<Longrightarrow> \<exists>rows. named_rows kvs = Inr rows"
  unfolding named_rows_def by (rule mapR_total) (force simp: bindR_eq_Inr)

lemma metric_table_total: "(\<And>r. r \<in> set (map snd kvs) \<Longrightarrow> \<exists>t. r = Inr t) \<Longrightarrow> \<exists>out. metric_table title kvs = Inr out"
  using named_rows_total [of kvs] by (auto simp: metric_table_def)

lemmas text_total = avg_text_total contention_total conflict_total

lemma overview_total: "length rows < 2 ^ 46 \<Longrightarrow> \<exists>out. print_overview rows n1 n2 n3 f = Inr out"
  unfolding print_overview_def Let_def
  by (rule metric_table_total) (auto simp: count_text_def intro: text_total)

lemma contention_summary_total: "length rows < 2 ^ 46 \<Longrightarrow> \<exists>out. print_contention_summary rows = Inr out"
  unfolding print_contention_summary_def Let_def
  by (rule metric_table_total) (auto simp: count_text_def intro: text_total)

lemma bank_summary_total: "length rows < 2 ^ 46 \<Longrightarrow> \<exists>out. print_bank_conflict_summary rows = Inr out"
  unfolding print_bank_conflict_summary_def Let_def
  by (rule metric_table_total) (auto simp: count_text_def intro: text_total)

lemma latency_summary_total: "length rows < 2 ^ 46 \<Longrightarrow> \<exists>s. write_latency_summary rows = Inr s"
proof -
  assume n: "length rows < 2 ^ 46"
  have "\<exists>kvs. named_rows (summary_metrics rows) = Inr kvs"
    unfolding summary_metrics_def Let_def
    by (rule named_rows_total) (use n in \<open>auto simp: count_text_def intro: text_total\<close>)
  then show ?thesis by (auto simp: write_latency_summary_def)
qed

lemma group_by_length: "(k, g) \<in> set (group_by key xs) \<Longrightarrow> length g \<le> length xs"
proof -
  assume "(k, g) \<in> set (group_by key xs)"
  then have "map_of (group_by key xs) k = Some g" by (rule map_of_is_SomeI [OF distinct_keys_group_by])
  then have "g = filter (\<lambda>x. key x = k) xs" by (simp add: map_of_group_by split: if_splits)
  then show ?thesis by simp
qed

lemma bindR_mapR_total:
  "(\<And>x. x \<in> set xs \<Longrightarrow> \<exists>y. f x = Inr y) \<Longrightarrow> \<exists>z. bindR (mapR f xs) (\<lambda>ys. Inr (g ys)) = Inr z"
  using mapR_total [of xs f] by auto

lemma group_cells_total: "length g < 2 ^ 46 \<Longrightarrow> \<exists>cells. group_cells (k, g) = Inr cells"
  unfolding group_cells_def prod.case Let_def
  by (rule bindR_mapR_total) (auto simp: count_text_def intro: text_total)

lemma group_table_total: "length rows < 2 ^ 46 \<Longrightarrow> \<exists>out. group_table rows keys = Inr out"
proof -
  assume n: "length rows < 2 ^ 46"
  have "\<exists>cells. summarize_numeric rows keys = Inr cells"
    unfolding summarize_numeric_def
  proof (rule mapR_total)
    fix kg assume "kg \<in> set (groups_by rows keys)"
    then have "kg \<in> set (group_by (\<lambda>row. map (get_or_empty row) keys) rows)" by (simp add: groups_by_def sorted_groups_def)
    then have "length (snd kg) \<le> length rows" using group_by_length by (metis prod.collapse)
    then show "\<exists>cells. group_cells kg = Inr cells" using group_cells_total [of "snd kg" "fst kg"] n by simp
  qed
  then show ?thesis by (auto simp: group_table_def)
qed

lemma lat_output_total: "length rows < 2 ^ 46 \<Longrightarrow> \<exists>out. lat_output args n m rows = Inr out"
  unfolding lat_output_def Let_def bindR_eq_Inr
  using overview_total contention_summary_total bank_summary_total group_table_total by metis

section \<open>The exit status\<close>

definition sane :: "lat_row \<Rightarrow> bool" where
  "sane row \<longleftrightarrow> get row ''response_status'' = VStr ''TLM_OK_RESPONSE'' \<and> get row ''data_length'' = VInt 4 \<and>
     \<not> time_reversed row \<and> \<not> negative_delay row \<and> \<not> parts_differ row \<and> \<not> delay_differs row"

lemma sanity_count:
  "snd (foldl (\<lambda>(out, n) (title, fails).
       let failing_rows = filter fails rows in
       if failing_rows \<noteq> [] then (out @ print_sanity_block title failing_rows, n + length failing_rows)
       else (out @ print_table title [''status''] [[''OK'']], n)) s checks) =
   snd s + sum_list (map (\<lambda>c. length (filter (snd c) rows)) checks)"
proof (induction checks arbitrary: s)
  case (Cons c checks)
  show ?case
    unfolding foldl_Cons Cons.IH by (cases s; cases c) (simp add: Let_def)
qed simp

lemma sanity_zero: "snd (print_sanity_checks rows) = 0 \<longleftrightarrow> (\<forall>row \<in> set rows. sane row)"
  unfolding print_sanity_checks_def sanity_count
  by (auto simp: sanity_checks_def sane_def filter_empty_conv)

lemma dedup_length: "length (dedup_from seen rows) \<le> length rows"
  by (induction rows arbitrary: seen) (auto simp: Let_def intro: le_SucI)

lemma load_rows_length: "load_rows recs = Inr raw \<Longrightarrow> length raw \<le> length recs"
proof -
  assume "load_rows recs = Inr raw"
  then have "length raw \<le> length (dict_reader recs)" by (auto simp: load_rows_def Let_def split: if_splits)
  also have "\<dots> \<le> length recs" by (cases recs) (auto simp: dict_reader_def intro: le_SucI)
  finally show ?thesis .
qed

definition remaining :: "lat_args \<Rightarrow> lat_row list \<Rightarrow> lat_row list" where
  "remaining args raw = filter_rows (analyzed_rows args raw) args"

lemma remaining_length: "length (remaining args raw) \<le> length raw"
proof -
  have "length (analyzed_rows args raw) \<le> length raw"
    using dedup_length by (simp add: analyzed_rows_def dedup_identical_rows_def)
  then show ?thesis unfolding remaining_def filter_rows_def by (meson length_filter_le order_trans)
qed

text \<open>C19. The analyser never raises, and its exit status means what it says: for a trace file of fewer than \<open>2 ^ 46\<close>
  records \<open>main\<close> always returns, and it returns 0 exactly when the required columns are present, some row
  remains after the removal of duplicates and the filters, and, under \<open>--fail-on-sanity\<close>, every remaining
  row is sane: an OK response, a data length of 4, no reversed times, no negative delay, and delays that
  add up within 0.001 wherever they are numbers.\<close>

theorem latency_exit_status:
  assumes "length recs < 2 ^ 46"
  shows "\<exists>out summary code. main_latency args (Some recs) = Inr (out, summary, code) \<and>
    (code = 0 \<longleftrightarrow> (\<exists>raw. load_rows recs = Inr raw \<and> remaining args raw \<noteq> [] \<and>
       (fail_on_sanity args \<longrightarrow> (\<forall>row \<in> set (remaining args raw). sane row))))"
proof (cases "load_rows recs")
  case (Inr raw)
  have n: "length (remaining args raw) < 2 ^ 46"
    using remaining_length [of args raw] load_rows_length [OF Inr] assms by linarith
  obtain s where s: "write_latency_summary (remaining args raw) = Inr s" using latency_summary_total [OF n] by blast
  obtain out where "lat_output args (length raw) (length (analyzed_rows args raw)) (remaining args raw) = Inr out"
    using lat_output_total [OF n] by blast
  then show ?thesis
    unfolding main_latency_def option.case Inr sum.case Let_def remaining_def [symmetric]
    by (simp add: s sanity_zero)
qed (simp add: main_latency_def)

definition lat_sample :: "string list list" where
  "lat_sample = [LATENCY_FIELDS,
     [''101'', ''201'', ''WRITE'', ''0x10'', ''0xAB'', ''0'', ''100.0'', ''100'', ''0'', ''0x10'', ''4'', ''TLM_OK_RESPONSE'',
      ''0'', ''0'', ''0'', ''100'', ''100.0005'', ''100'']]"

definition sample_args :: lat_args where
  "sample_args = \<lparr>trace_path = ''trace.csv'', initiators = [''101''], excluded_initiators = [], targets = [], commands = [''write''],
     max_start_time_ns = None, min_start_time_ns = Some (flit 0 1, ''0''), dedup_identical = True,
     summary_csv_output = True, fail_on_sanity = True\<rparr>"

lemma sample_selected:
  "case load_rows lat_sample of Inl _ \<Rightarrow> False
   | Inr raw \<Rightarrow> remaining sample_args raw \<noteq> [] \<and> list_all sane (remaining sample_args raw)"
  by code_simp

theorem latency_exit_status_witness:
  "\<exists>out summary. main_latency sample_args (Some lat_sample) = Inr (out, summary, 0)"
proof -
  have n: "length lat_sample < 2 ^ 46" by (simp add: lat_sample_def)
  obtain raw where "load_rows lat_sample = Inr raw" "remaining sample_args raw \<noteq> []" "\<forall>row \<in> set (remaining sample_args raw). sane row"
    using sample_selected by (auto simp: list_all_iff split: sum.splits)
  with latency_exit_status [OF n, of sample_args] show ?thesis by auto
qed

section \<open>The tables line up\<close>

lemma text_len_append [simp]: "text_len (s @ t) = text_len s + text_len t"
  by (simp add: text_len_def)

lemma text_len_blanks: "text_len (replicate n (CHR '' '')) = n" "text_len (replicate n (CHR ''-'')) = n"
  by (simp_all add: text_len_def ccode_def)

lemma text_len_ljust: "text_len s \<le> w \<Longrightarrow> text_len (ljust s w) = w"
  by (simp add: ljust_def text_len_blanks)

lemma text_len_Nil [simp]: "text_len [] = 0"
  by (simp add: text_len_def)

lemma text_len_join_sep: "text_len (py_join sep ss) = sum_list (map text_len ss) + text_len sep * (length ss - 1)"
  by (induction sep ss rule: py_join.induct) simp_all

lemma text_len_join: "text_len (py_join ''  '' ss) = sum_list (map text_len ss) + 2 * (length ss - 1)"
  unfolding text_len_join_sep by (simp add: text_len_def ccode_def)

text \<open>Every column is as wide as its widest cell.\<close>

lemma map2_max_le: "length xs = length ys \<Longrightarrow> list_all2 (\<le>) xs (map2 max xs ys) \<and> list_all2 (\<le>) ys (map2 max xs (ys :: nat list))"
  by (induction xs ys rule: list_induct2) simp_all

lemma foldl_max_le:
  "\<forall>r \<in> set rs. length r = length ws \<Longrightarrow>
     length (foldl (map2 max) ws rs) = length ws \<and> list_all2 (\<le>) ws (foldl (map2 max) ws rs) \<and>
     (\<forall>r \<in> set rs. list_all2 (\<le>) r (foldl (map2 max) ws (rs :: nat list list)))"
proof (induction rs arbitrary: ws)
  case (Cons r rs)
  let ?m = "map2 max ws r"
  have l: "length r = length ws" "length ?m = length ws" using Cons.prems by simp_all
  have m: "list_all2 (\<le>) ws ?m" "list_all2 (\<le>) r ?m" using map2_max_le [OF l(1) [symmetric]] by simp_all
  have "\<forall>r \<in> set rs. length r = length ?m" using Cons.prems l by simp
  note IH = Cons.IH [OF this]
  have t: "list_all2 (\<le>) a (foldl (map2 max) ?m rs)" if "list_all2 (\<le>) a ?m" for a
    using list_all2_trans [OF _ that conjunct1 [OF conjunct2 [OF IH]]] order_trans by blast
  show ?case using IH t [OF m(1)] t [OF m(2)] l by simp
qed (simp add: list_all2_refl)

lemma padded_line_width:
  "list_all2 (\<le>) (map text_len vs) ws \<Longrightarrow> text_len (padded_line ws vs) = sum_list ws + 2 * (length ws - 1)"
proof -
  assume a: "list_all2 (\<le>) (map text_len vs) ws"
  then have l: "length vs = length ws" by (auto dest: list_all2_lengthD)
  have "map text_len (map2 ljust vs ws) = ws"
    using a l by (intro nth_equalityI) (auto simp: list_all2_conv_all_nth text_len_ljust)
  then show ?thesis unfolding padded_line_def text_len_join using l by simp
qed

lemma table_widths:
  assumes "\<forall>row \<in> set rows. length row = length headers" and "rows \<noteq> []" and "l \<in> set (drop 2 (print_table title headers rows))"
  shows "text_len l = sum_list (widths headers rows) + 2 * (length headers - 1)"
proof -
  let ?ws = "widths headers rows"
  have "\<forall>r \<in> set (map (map text_len) rows). length r = length (map text_len headers)" using assms(1) by simp
  note w = foldl_max_le [OF this, folded widths_def]
  have len: "length ?ws = length headers" using w by simp
  have "text_len (py_join ''  '' (map (\<lambda>w. replicate w (CHR ''-'')) ?ws)) = sum_list ?ws + 2 * (length ?ws - 1)"
    by (simp add: text_len_join comp_def text_len_blanks)
  moreover have "text_len (padded_line ?ws vs) = sum_list ?ws + 2 * (length ?ws - 1)" if "vs \<in> insert headers (set rows)" for vs
    using padded_line_width [of vs ?ws] w that by auto
  ultimately show ?thesis using assms(2,3) len by (auto simp: print_table_def Let_def)
qed

text \<open>C40. Every printed table lines up: the header, the divider and all rows of a table whose rows are as long as its
  header have the same number of characters.\<close>

theorem tables_line_up:
  assumes "\<forall>row \<in> set rows. length row = length headers" and "rows \<noteq> []"
    and "l \<in> set (drop 2 (print_table title headers rows))" and "l' \<in> set (drop 2 (print_table title headers rows))"
  shows "text_len l = text_len l'"
  using table_widths [OF assms(1,2)] assms(3,4) by simp

theorem tables_line_up_witness:
  "text_len ''status  n    '' = text_len ''ok      count'' \<and>
   print_table ''T'' [''status'', ''n''] [[''ok'', ''count'']] = [[], ''== T =='', ''status  n    '', ''------  -----'', ''ok      count'']"
proof
  show t: "print_table ''T'' [''status'', ''n''] [[''ok'', ''count'']] = [[], ''== T =='', ''status  n    '', ''------  -----'', ''ok      count'']"
    by code_simp
  show "text_len ''status  n    '' = text_len ''ok      count''"
    by (rule tables_line_up [of "[[''ok'', ''count'']]" "[''status'', ''n'']" _ "''T''"], unfold t) simp_all
qed

end
