(* ===== verification/Workload_Sweep.thy ===== *)
theory Workload_Sweep
  imports Latency_Report
begin

text \<open>
  \<open>examples/lt/tools/run_workload_sweep.py\<close>, first part: the cases, the metrics read back from the latency
  analyser, the validation of a case's trace, and the run of a case.  The analyser that a case runs as a
  subprocess is the model of \<open>analyze_latency.py\<close>; Renode and the file system are parameters.
\<close>

section \<open>Cases\<close>

record wl_case =
  case_name :: string
  burst_count :: int
  address_stride :: int
  enable_initiator_101 :: int
  enable_initiator_102 :: int
  target_pattern :: string

definition WORKLOAD_CASES :: "wl_case list" where
  "WORKLOAD_CASES =
    [\<lparr>case_name = ''baseline_dual_initiator_current_default'', burst_count = 64, address_stride = 4,
      enable_initiator_101 = 1, enable_initiator_102 = 1, target_pattern = ''both''\<rparr>,
     \<lparr>case_name = ''single_initiator_101_current_default'', burst_count = 64, address_stride = 4,
      enable_initiator_101 = 1, enable_initiator_102 = 0, target_pattern = ''both''\<rparr>,
     \<lparr>case_name = ''dual_initiator_target201_hotspot'', burst_count = 64, address_stride = 4,
      enable_initiator_101 = 1, enable_initiator_102 = 1, target_pattern = ''target201''\<rparr>,
     \<lparr>case_name = ''dual_initiator_target202_hotspot'', burst_count = 64, address_stride = 4,
      enable_initiator_101 = 1, enable_initiator_102 = 1, target_pattern = ''target202''\<rparr>,
     \<lparr>case_name = ''dual_initiator_stride_16_current_default'', burst_count = 64, address_stride = 16,
      enable_initiator_101 = 1, enable_initiator_102 = 1, target_pattern = ''both''\<rparr>]"

definition WORKLOAD_METRICS :: "string list" where
  "WORKLOAD_METRICS =
    [''total_transactions'', ''avg_delay_ns'', ''max_delay_ns'', ''avg_queue_delay_ns'', ''max_queue_delay_ns'',
     ''contention_ratio_pct'', ''avg_target_service_delay_ns'', ''total_bank_conflicts'',
     ''bank_conflict_ratio_pct'', ''avg_bank_conflict_delay_ns'', ''max_bank_conflict_delay_ns'']"

definition config_text :: "wl_case \<Rightarrow> string" where
  "config_text c = py_join [CHR 0x0A]
     [''# Generated by examples/lt/tools/run_workload_sweep.py'',
      ''LT_BURST_COUNT='' @ str_int (burst_count c), ''LT_ADDRESS_STRIDE='' @ str_int (address_stride c),
      ''LT_ENABLE_INITIATOR_101='' @ str_int (enable_initiator_101 c),
      ''LT_ENABLE_INITIATOR_102='' @ str_int (enable_initiator_102 c), ''LT_TARGET_PATTERN='' @ target_pattern c, []]"

section \<open>The metrics of the analyser\<close>

text \<open>The first record of the file as metrics; a ValueError otherwise.\<close>

definition read_summary_metrics :: "string \<Rightarrow> string list list option \<Rightarrow> (string \<times> string) list result" where
  "read_summary_metrics path file =
     bindR (opt_or_raise file (ValueError (''summary metrics not found: '' @ path))) (\<lambda>recs.
     let rows = dict_reader recs in
     bindR (raise_if (rows = []) (ValueError (''summary metrics is empty: '' @ path))) (\<lambda>_.
     let metrics = hd rows; missing_fields = filter (\<lambda>f. f \<notin> set (map fst (cells metrics))) WORKLOAD_METRICS;
         empty_fields = filter (\<lambda>f. row_get_or metrics f = []) WORKLOAD_METRICS in
     bindR (raise_if (missing_fields \<noteq> [])
       (ValueError (''summary metrics is missing fields: '' @ py_join '', '' missing_fields))) (\<lambda>_.
     bindR (raise_if (empty_fields \<noteq> [])
       (ValueError (''summary metrics has empty fields: '' @ py_join '', '' empty_fields))) (\<lambda>_.
     Inr (map (\<lambda>f. (f, row_get_or metrics f)) WORKLOAD_METRICS)))))"

section \<open>Validation of a trace\<close>

definition expected_trace_target_pattern :: "wl_case \<Rightarrow> string" where
  "expected_trace_target_pattern c =
     (if target_pattern c = ''target201'' then ''target201_only''
      else if target_pattern c = ''target202'' then ''target202_only'' else ''current_default'')"

text \<open>The group of a row: initiator, target and command, each \<open>None\<close> where the cell is missing.\<close>

type_synonym group_key = "string option list"

definition group_key_of :: "csv_row \<Rightarrow> group_key" where
  "group_key_of row = map (row_get row) [''initiator_id'', ''target_id'', ''command'']"

text \<open>
  Python compares tuples at the first place where they differ, and \<open>None\<close> with a text raises.  Sorting
  distinct keys compares every two neighbours of the result, so it raises exactly when two keys of the
  list cannot be compared.
\<close>

fun incomparable :: "group_key \<Rightarrow> group_key \<Rightarrow> bool" where
  "incomparable (x # xs) (y # ys) = (if x = y then incomparable xs ys else x = None \<or> y = None)"
| "incomparable _ _ = False"

definition sorted_keys :: "(group_key \<times> 'a) list \<Rightarrow> (group_key \<times> 'a) list result" where
  "sorted_keys gs =
     (if list_ex (\<lambda>g. list_ex (\<lambda>h. incomparable (fst g) (fst h)) gs) gs then Inl TypeError
      else Inr (py_sorted (\<lambda>g h. strs_lt (map str_opt (fst g)) (map str_opt (fst h))) gs))"

definition group_stride_errors :: "int \<Rightarrow> group_key \<times> int list \<Rightarrow> string list" where
  "group_stride_errors s = (\<lambda>(key, addresses).
     case filter (\<lambda>d. d \<noteq> s) (steps (sorted_set addresses)) of
       [] \<Rightarrow> []
     | bad # _ \<Rightarrow> [''address_stride mismatch for initiator='' @ str_opt (key ! 0) @ '' target='' @ str_opt (key ! 1) @
         '' command='' @ str_opt (key ! 2) @ '': expected '' @ str_int s @ '', saw '' @ str_int bad])"

definition address_groups :: "csv_row list \<Rightarrow> (group_key \<times> int list) list" where
  "address_groups rows =
     map (\<lambda>(key, group). (key, map snd group))
       (group_by fst (List.map_filter (\<lambda>row. map_option (\<lambda>a. (group_key_of row, a)) (parse_hex (row_get row ''address''))) rows))"

definition invalid_addresses :: "csv_row list \<Rightarrow> string list" where
  "invalid_addresses rows =
     map (\<lambda>row. ''invalid address '' @ str_opt (row_get row ''address''))
       (filter (\<lambda>row. parse_hex (row_get row ''address'') = None) rows)"

definition validate_stride :: "csv_row list \<Rightarrow> int \<Rightarrow> string list result" where
  "validate_stride systemc_rows s =
     (if s \<le> 0 then Inr [''address_stride must be > 0'']
      else bindR (sorted_keys (address_groups systemc_rows)) (\<lambda>groups.
        Inr (invalid_addresses systemc_rows @ concat (map (group_stride_errors s) groups))))"

definition field_errors :: "csv_row list \<Rightarrow> string \<times> string \<Rightarrow> string list" where
  "field_errors rows = (\<lambda>(k, expected). let observed = observed_values rows k in
     if observed = [] then [''trace missing '' @ k]
     else if set observed \<noteq> {expected}
     then [k @ '' expected '' @ expected @ '', saw '' @ py_join ''/'' (py_sorted str_lt observed)] else [])"

definition validate_workload_fields :: "csv_row list \<Rightarrow> wl_case \<Rightarrow> string list" where
  "validate_workload_fields systemc_rows c = concat (map (field_errors systemc_rows)
     [(''workload_transaction_count'', str_int (burst_count c)),
      (''workload_address_stride'', str_int (address_stride c)),
      (''workload_target_pattern'', expected_trace_target_pattern c),
      (''workload_enable_initiator_101'', str_int (enable_initiator_101 c)),
      (''workload_enable_initiator_102'', str_int (enable_initiator_102 c))])"

text \<open>The targets other than the wanted one; a missing cell among them makes \<open>sorted\<close> or \<open>join\<close> raise.\<close>

definition target_errors :: "csv_row list \<Rightarrow> string \<Rightarrow> string list result" where
  "target_errors rows wanted =
     (let unexpected = remdups (filter (\<lambda>t. t \<noteq> Some wanted) (map (\<lambda>row. row_get row ''target_id'') rows)) in
      if unexpected = [] then Inr []
      else if None \<in> set unexpected then Inl TypeError
      else Inr [''target'' @ wanted @ '' case contains SystemC target_id '' @ py_join ''/'' (py_sorted str_lt (map the unexpected))])"

definition systemc_rows_of :: "csv_row list \<Rightarrow> csv_row list" where
  "systemc_rows_of rows = filter (\<lambda>row. row_get row ''initiator_id'' \<in> {Some ''101'', Some ''102''}) rows"

definition disabled_errors :: "csv_row list \<Rightarrow> string \<times> int \<Rightarrow> string list" where
  "disabled_errors rows = (\<lambda>(initiator, enabled).
     if enabled = 0 \<and> list_ex (\<lambda>row. row_get row ''initiator_id'' = Some initiator) rows
     then [''disabled initiator '' @ initiator @ '' appears in trace''] else [])"

definition validate_workload_trace :: "wl_case \<Rightarrow> string list list \<Rightarrow> string list result" where
  "validate_workload_trace c recs =
     (let systemc_rows = systemc_rows_of (dict_reader recs);
          none = (if (enable_initiator_101 c \<noteq> 0 \<or> enable_initiator_102 c \<noteq> 0) \<and> systemc_rows = []
                  then [''trace has no SystemC traffic_generator rows''] else []);
          disabled = concat (map (disabled_errors systemc_rows)
            [(''101'', enable_initiator_101 c), (''102'', enable_initiator_102 c)]) in
      bindR (if target_pattern c = ''target201'' then target_errors systemc_rows ''201''
             else if target_pattern c = ''target202'' then target_errors systemc_rows ''202'' else Inr []) (\<lambda>targets.
      bindR (validate_stride systemc_rows (address_stride c)) (\<lambda>strides.
      Inr (none @ disabled @ targets @ strides @ validate_workload_fields systemc_rows c))))"

section \<open>Running a case\<close>

record wl_row =
  wr_case :: wl_case
  wr_status :: string
  wr_metrics :: "(string \<times> string) list"
  wr_error :: string

definition base_row :: "wl_case \<Rightarrow> wl_row" where
  "base_row c = \<lparr>wr_case = c, wr_status = ''PASS'', wr_metrics = map (\<lambda>f. (f, [])) WORKLOAD_METRICS, wr_error = []\<rparr>"

definition wl_failed :: "wl_row \<Rightarrow> string \<Rightarrow> wl_row" where
  "wl_failed row e = row\<lparr>wr_status := ''FAIL'', wr_error := e\<rparr>"

record wl_env =
  wl_config_error :: "wl_case \<Rightarrow> string option"
  wl_renode_status :: "wl_case \<Rightarrow> int"
  wl_remove_error :: "wl_case \<Rightarrow> string"
  wl_trace :: "wl_case \<Rightarrow> string list list option"
  wl_trace_name :: string
  wl_case_path :: "wl_case \<Rightarrow> string \<Rightarrow> string"

datatype wl_effect =
    WlResetCaseDir string
  | WlWriteConfig string
  | WlRunTest string
  | WlRemoveConfig
  | WlCopyTrace string "string list list"
  | WlAnalysis string "string list"
  | WlMetrics string "string list list"
  | WlSummary "string list list"
  | WlReport string

text \<open>The command line of the analyser.\<close>

definition analyzer_args :: "wl_env \<Rightarrow> wl_case \<Rightarrow> lat_args" where
  "analyzer_args env c = \<lparr>trace_path = wl_case_path env c ''latency_trace.csv'', initiators = [''101'', ''102''],
     excluded_initiators = [], targets = [], commands = [], max_start_time_ns = None, min_start_time_ns = None,
     dedup_identical = True, summary_csv_output = True, fail_on_sanity = True\<rparr>"

text \<open>The analyser's lines, its summary file and its exit status; an exception is status 1.\<close>

definition run_analyzer :: "wl_env \<Rightarrow> wl_case \<Rightarrow> string list list \<Rightarrow> string list \<times> string list list option \<times> int" where
  "run_analyzer env c recs =
     (case main_latency (analyzer_args env c) (Some recs) of Inl e \<Rightarrow> ([], None, 1) | Inr r \<Rightarrow> r)"

text \<open>The verdict on a copied trace after the analyser has succeeded.\<close>

definition judge_trace :: "wl_env \<Rightarrow> wl_case \<Rightarrow> string list list \<Rightarrow> string list list option \<Rightarrow> wl_row result" where
  "judge_trace env c recs summary =
     bindR (case read_summary_metrics (wl_case_path env c ''summary_metrics.csv'') summary of
         Inr metrics \<Rightarrow> Inr ((base_row c)\<lparr>wr_metrics := metrics\<rparr>)
       | Inl e \<Rightarrow> (case e of ValueError m \<Rightarrow> Inr (wl_failed (base_row c) m) | _ \<Rightarrow> Inl e)) (\<lambda>row.
     bindR (validate_workload_trace c recs) (\<lambda>errors.
     Inr (if errors \<noteq> [] then wl_failed row (py_join ''; '' (take 4 errors)) else row)))"

definition run_workload_case :: "wl_env \<Rightarrow> wl_case \<Rightarrow> wl_effect list \<times> wl_row result" where
  "run_workload_case env c =
     (let row = base_row c; reset = [WlResetCaseDir (case_name c)] in
      case wl_config_error env c of
        Some e \<Rightarrow> (reset, Inr (wl_failed row (''failed to write workload config: '' @ e)))
      | None \<Rightarrow>
          let ran = reset @ [WlWriteConfig (config_text c), WlRunTest (case_name c), WlRemoveConfig] in
          if wl_remove_error env c \<noteq> []
          then (ran, Inr (wl_failed row (''failed to remove workload config: '' @ wl_remove_error env c)))
          else if wl_renode_status env c \<noteq> 0
          then (ran, Inr (wl_failed row (''renode-test exited with '' @ str_int (wl_renode_status env c))))
          else case wl_trace env c of
            None \<Rightarrow> (ran, Inr (wl_failed row (''trace not found: '' @ wl_trace_name env)))
          | Some recs \<Rightarrow>
              let (out, summary, analyze_status) = run_analyzer env c recs;
                  analyzed = ran @ [WlCopyTrace (case_name c) recs]
                    @ (case summary of None \<Rightarrow> [] | Some s \<Rightarrow> [WlMetrics (case_name c) s]) @ [WlAnalysis (case_name c) out] in
              if analyze_status \<noteq> 0
              then (analyzed, Inr (wl_failed row (''analyze_latency.py exited with '' @ str_int analyze_status)))
              else (analyzed, judge_trace env c recs summary))"

section \<open>The analyser's summary is always readable\<close>

lemma fmt3_not_Nil: "fmt3 x \<noteq> []"
  by (cases x) (auto simp: fmt3_def split: prod.splits)

lemma dec_digits_not_Nil: "dec_digits n \<noteq> []"
  by (subst dec_digits.simps) simp

lemma format_na_not_Nil: "format_na v \<noteq> []"
  by (cases v) (simp_all add: format_na_def fmt3_not_Nil)

lemma str_nat_not_Nil: "str_nat n \<noteq> []"
  by (simp add: str_nat_def str_int_def dec_digits_not_Nil)

lemma named_rows_values:
  "named_rows kvs = Inr rows \<Longrightarrow> list_all2 (\<lambda>kv row. \<exists>t. snd kv = Inr t \<and> row = [fst kv, t]) kvs rows"
  unfolding named_rows_def mapR_eq_Inr by (erule list_all2_mono) (auto simp: bindR_eq_Inr)

lemma metric_texts_not_Nil: "kv \<in> set (summary_metrics rows) \<Longrightarrow> snd kv = Inr t \<Longrightarrow> t \<noteq> []"
  by (auto simp: summary_metrics_def Let_def count_text_def avg_text_def ratio_text_def bindR_eq_Inr
      str_nat_not_Nil format_na_not_Nil)

lemma metric_names: "map fst (summary_metrics rows) = WORKLOAD_METRICS"
  by (simp add: summary_metrics_def Let_def WORKLOAD_METRICS_def)

lemma latency_summary_shape:
  assumes "write_latency_summary rows = Inr s"
  shows "\<exists>vs. s = [WORKLOAD_METRICS, vs] \<and> length vs = length WORKLOAD_METRICS \<and> [] \<notin> set vs"
proof -
  obtain kvs where k: "named_rows (summary_metrics rows) = Inr kvs" "s = [WORKLOAD_METRICS, map (\<lambda>kv. kv ! 1) kvs]"
    using assms by (auto simp: write_latency_summary_def bindR_eq_Inr metric_names)
  note all = named_rows_values [OF k(1)]
  then have l: "length kvs = length (summary_metrics rows)" by (auto dest: list_all2_lengthD)
  have "kvs ! i ! 1 \<noteq> []" if "i < length kvs" for i
    using list_all2_nthD2 [OF all that] metric_texts_not_Nil [of "summary_metrics rows ! i" rows] that l by auto
  then have "[] \<notin> set (map (\<lambda>kv. kv ! 1) kvs)" by (auto simp: in_set_conv_nth simp del: One_nat_def) metis
  moreover have "length kvs = length WORKLOAD_METRICS" using l metric_names [of rows] by (metis length_map)
  ultimately show ?thesis using k(2) by simp
qed

lemma workload_metrics_distinct: "distinct WORKLOAD_METRICS" "WORKLOAD_METRICS \<noteq> []"
  by code_simp+

lemma summary_readable:
  assumes "write_latency_summary rows = Inr s"
  shows "read_summary_metrics path (Some s) = Inr (zip (hd s) (s ! 1))"
proof -
  obtain vs where s: "s = [WORKLOAD_METRICS, vs]" "length vs = length WORKLOAD_METRICS" "[] \<notin> set vs"
    using latency_summary_shape [OF assms] by blast
  let ?r = "dict_row WORKLOAD_METRICS vs"
  have vs: "vs \<noteq> []" using s(2) workload_metrics_distinct(2) by (metis length_0_conv)
  have get: "row_get_or ?r (WORKLOAD_METRICS ! i) = vs ! i" if "i < length WORKLOAD_METRICS" for i
    using row_get_dict_row [OF workload_metrics_distinct(1) that, of vs] that s(2) by (simp add: row_get_or_def)
  have keys: "map fst (cells ?r) = WORKLOAD_METRICS" using s(2) by (simp add: dict_row_def)
  have full: "map (row_get_or ?r) WORKLOAD_METRICS = vs"
    by (rule nth_equalityI) (simp_all add: s(2) get)
  have "filter (\<lambda>f. row_get_or ?r f = []) WORKLOAD_METRICS = []"
    unfolding filter_empty_conv using s(3) full by (metis image_eqI list.set_map)
  moreover have "map (\<lambda>f. (f, row_get_or ?r f)) WORKLOAD_METRICS = zip WORKLOAD_METRICS vs"
    using arg_cong [OF full, of "zip WORKLOAD_METRICS"] by (simp add: zip_map2 zip_same_conv_map comp_def)
  moreover have "filter (\<lambda>f. f \<notin> set (map fst (cells ?r))) WORKLOAD_METRICS = []"
    unfolding keys by (simp add: filter_empty_conv)
  moreover have "dict_reader s = [?r]" unfolding s(1) using vs by (simp add: dict_reader_def)
  ultimately show ?thesis
    unfolding read_summary_metrics_def opt_or_raise_def option.case bindR_Inr Let_def by (simp only: list.sel) (simp add: raise_if_def s(1))
qed

lemma latency_success:
  assumes "main_latency args (Some recs) = Inr (out, summary, 0)" and "summary_csv_output args"
  shows "\<exists>rows s. write_latency_summary rows = Inr s \<and> summary = Some s"
proof -
  obtain raw where "load_rows recs = Inr raw"
    using assms(1) by (cases "load_rows recs") (auto simp: main_latency_def)
  then show ?thesis using assms by (auto simp: main_latency_def Let_def bindR_eq_Inr split: if_splits)
qed

lemma analyzer_success:
  assumes "run_analyzer env c recs = (out, summary, 0)"
  shows "\<exists>s. summary = Some s \<and> main_latency (analyzer_args env c) (Some recs) = Inr (out, Some s, 0) \<and>
    read_summary_metrics path summary = Inr (zip (hd s) (s ! 1))"
proof -
  have m: "main_latency (analyzer_args env c) (Some recs) = Inr (out, summary, 0)"
    using assms by (auto simp: run_analyzer_def split: sum.splits)
  then show ?thesis using latency_success [OF m] summary_readable by (auto simp: analyzer_args_def)
qed

section \<open>When a case passes\<close>

lemma wl_failed_status [simp]: "wr_status (wl_failed row e) = ''FAIL''"
  by (simp add: wl_failed_def)

lemma judge_pass:
  assumes "read_summary_metrics (wl_case_path env c ''summary_metrics.csv'') summary = Inr ms"
  shows "judge_trace env c recs summary = Inr row \<and> wr_status row = ''PASS'' \<longleftrightarrow>
    validate_workload_trace c recs = Inr [] \<and> row = (base_row c)\<lparr>wr_metrics := ms\<rparr>"
  unfolding judge_trace_def assms sum.case bindR_Inr
  by (auto simp: bindR_eq_Inr base_row_def split: if_splits)

definition case_passes :: "wl_env \<Rightarrow> wl_case \<Rightarrow> string list list \<Rightarrow> string list list \<Rightarrow> bool" where
  "case_passes env c recs s \<longleftrightarrow>
     wl_config_error env c = None \<and> wl_remove_error env c = [] \<and> wl_renode_status env c = 0 \<and> wl_trace env c = Some recs \<and>
     (\<exists>out. main_latency (analyzer_args env c) (Some recs) = Inr (out, Some s, 0)) \<and> validate_workload_trace c recs = Inr []"

lemma workload_case_pass:
  "snd (run_workload_case env c) = Inr row \<and> wr_status row = ''PASS'' \<longleftrightarrow>
     (\<exists>recs s. case_passes env c recs s \<and> row = (base_row c)\<lparr>wr_metrics := zip (hd s) (s ! 1)\<rparr>)"
proof (cases "wl_config_error env c = None \<and> wl_remove_error env c = [] \<and> wl_renode_status env c = 0 \<and> wl_trace env c \<noteq> None")
  case False
  then show ?thesis
    unfolding run_workload_case_def case_passes_def by (auto simp: Let_def split: option.splits)
next
  case True
  then obtain recs where t: "wl_trace env c = Some recs" by auto
  obtain out summary code where r: "run_analyzer env c recs = (out, summary, code)" by (metis prod_cases3)
  have run: "snd (run_workload_case env c) =
      (if code \<noteq> 0 then Inr (wl_failed (base_row c) (''analyze_latency.py exited with '' @ str_int code)) else judge_trace env c recs summary)"
    using True by (simp add: run_workload_case_def t r Let_def)
  show ?thesis
  proof (cases "code = 0")
    case False
    then have "main_latency (analyzer_args env c) (Some recs) \<noteq> Inr (o', Some s, 0)" for o' s
      using r by (auto simp: run_analyzer_def)
    then show ?thesis using False by (auto simp: run case_passes_def t)
  next
    case c0: True
    then obtain s where s: "summary = Some s" "main_latency (analyzer_args env c) (Some recs) = Inr (out, Some s, 0)"
      "read_summary_metrics (wl_case_path env c ''summary_metrics.csv'') summary = Inr (zip (hd s) (s ! 1))"
      using analyzer_success r by blast
    show ?thesis unfolding run using c0 True judge_pass [OF s(3), of recs row]
      by (auto simp: case_passes_def t s(2))
  qed
qed

text \<open>C20. The sweep and the analyser fit together: a case passes exactly when its workload ran, the latency analyser
  accepts the trace (status 0 under \<open>--dedup-identical --fail-on-sanity\<close> for the two initiators) and the
  validation finds nothing; its row then carries the analyser's summary, column by column.  In particular
  reading the summary back never fails after a successful analysis.\<close>

theorem workload_case_pass_exact:
  "snd (run_workload_case env c) = Inr row \<and> wr_status row = ''PASS'' \<longleftrightarrow>
     (\<exists>recs s. case_passes env c recs s \<and> row = (base_row c)\<lparr>wr_metrics := zip (hd s) (s ! 1)\<rparr>)"
  by (rule workload_case_pass)

end
