(* ===== verification/Workload_Sweep_Run.thy ===== *)
theory Workload_Sweep_Run
  imports Workload_Sweep
begin

text \<open>
  \<open>examples/lt/tools/run_workload_sweep.py\<close>, second part: the sweep summary, the comparison with the baseline
  case and \<open>main\<close>.
\<close>

section \<open>Rows as text\<close>

definition SWEEP_FIELDS :: "string list" where
  "SWEEP_FIELDS =
    [''case_name'', ''status'', ''burst_count'', ''address_stride'', ''enable_initiator_101'', ''enable_initiator_102'',
     ''target_pattern'', ''total_transactions'', ''avg_delay_ns'', ''max_delay_ns'', ''avg_queue_delay_ns'',
     ''max_queue_delay_ns'', ''contention_ratio_pct'', ''avg_target_service_delay_ns'', ''total_bank_conflicts'',
     ''bank_conflict_ratio_pct'', ''avg_bank_conflict_delay_ns'', ''max_bank_conflict_delay_ns'', ''error'']"

definition wl_cells :: "wl_row \<Rightarrow> (string \<times> string) list" where
  "wl_cells row =
     (let c = wr_case row in
      [(''case_name'', case_name c), (''status'', wr_status row), (''burst_count'', str_int (burst_count c)),
       (''address_stride'', str_int (address_stride c)), (''enable_initiator_101'', str_int (enable_initiator_101 c)),
       (''enable_initiator_102'', str_int (enable_initiator_102 c)), (''target_pattern'', target_pattern c),
       (''error'', wr_error row)] @ wr_metrics row)"

definition wl_text :: "wl_row \<Rightarrow> string \<Rightarrow> string" where
  "wl_text row k = (case map_of (wl_cells row) k of None \<Rightarrow> [] | Some s \<Rightarrow> s)"

definition write_sweep_summary :: "wl_row list \<Rightarrow> string list list" where
  "write_sweep_summary rows = SWEEP_FIELDS # map (\<lambda>row. map (wl_text row) SWEEP_FIELDS) rows"

section \<open>The comparison\<close>

definition BASELINE_CASE :: string where
  "BASELINE_CASE = ''baseline_dual_initiator_current_default''"

definition COMPARISON_CASES :: "string list" where
  "COMPARISON_CASES =
    [''single_initiator_101_current_default'', ''dual_initiator_target201_hotspot'',
     ''dual_initiator_target202_hotspot'', ''dual_initiator_stride_16_current_default'']"

definition BASELINE_REPORT_METRICS :: "string list" where
  "BASELINE_REPORT_METRICS =
    [''total_transactions'', ''avg_delay_ns'', ''max_delay_ns'', ''avg_queue_delay_ns'', ''contention_ratio_pct'',
     ''bank_conflict_ratio_pct'', ''avg_bank_conflict_delay_ns'']"

definition CASE_COMPARISON_METRICS :: "string list" where
  "CASE_COMPARISON_METRICS =
    [''avg_delay_ns'', ''max_delay_ns'', ''avg_queue_delay_ns'', ''contention_ratio_pct'', ''bank_conflict_ratio_pct'',
     ''avg_bank_conflict_delay_ns'']"

definition NS_METRICS :: "string list" where
  "NS_METRICS =
    [''avg_delay_ns'', ''max_delay_ns'', ''avg_queue_delay_ns'', ''max_queue_delay_ns'',
     ''avg_target_service_delay_ns'', ''avg_bank_conflict_delay_ns'', ''max_bank_conflict_delay_ns'']"

definition PCT_METRICS :: "string list" where
  "PCT_METRICS = [''contention_ratio_pct'', ''bank_conflict_ratio_pct'']"

definition CASE_INTERPRETATIONS :: "(string \<times> string) list" where
  "CASE_INTERPRETATIONS =
    [(''single_initiator_101_current_default'',
      ''Disabling initiator 102 removes shared-target contention from the '' @
      ''SystemC workload, so queue delay should drop.''),
     (''dual_initiator_target201_hotspot'',
      ''Concentrating traffic on the slower target 201 raises average '' @ ''latency and target service cost.''),
     (''dual_initiator_target202_hotspot'',
      ''Concentrating traffic on the faster target 202 keeps average latency '' @ ''lower than the target 201 hotspot.''),
     (''dual_initiator_stride_16_current_default'',
      ''Stride 16 maps accesses to the same bank more often, raising bank '' @
      ''conflict ratio and increasing avg_delay_ns.'')]"

definition wl_metric_float :: "wl_row \<Rightarrow> string \<Rightarrow> pyfloat option" where
  "wl_metric_float row k = parse_float (wl_text row k)"

text \<open>\<open>int(float(value))\<close> falls back to the text on a ValueError; an infinity raises OverflowError.\<close>

definition format_metric_value :: "wl_row \<Rightarrow> string \<Rightarrow> string result" where
  "format_metric_value row k =
     (let v = wl_text row k in
      if v = [] then Inr ''N/A''
      else if k = ''total_transactions'' then
        (case parse_float v of None \<Rightarrow> Inr v
         | Some x \<Rightarrow> (case trunc_to_int x of Inr n \<Rightarrow> Inr (str_int n)
             | Inl e \<Rightarrow> (case e of ValueError m \<Rightarrow> Inr v | _ \<Rightarrow> Inl e)))
      else if k \<in> set NS_METRICS \<or> k \<in> set PCT_METRICS then
        Inr (case wl_metric_float row k of None \<Rightarrow> ''N/A'' | Some x \<Rightarrow> fmt3 x)
      else Inr v)"

definition format_delta :: "pyfloat option \<Rightarrow> string" where
  "format_delta v = (case v of None \<Rightarrow> ''N/A'' | Some x \<Rightarrow> fmt3_signed x)"

definition delta_percent :: "pyfloat \<Rightarrow> pyfloat \<Rightarrow> pyfloat option result" where
  "delta_percent d baseline_value =
     (if f_eq baseline_value f_zero then Inr None
      else bindR (f_div d baseline_value) (\<lambda>q. Inr (Some (f_mul q (flit 100 1)))))"

definition comparison_row :: "wl_row \<Rightarrow> wl_row \<Rightarrow> string \<Rightarrow> string list result" where
  "comparison_row baseline c metric =
     bindR (case (wl_metric_float baseline metric, wl_metric_float c metric) of
         (Some b, Some v) \<Rightarrow> bindR (delta_percent (f_sub v b) b) (\<lambda>p. Inr (Some (f_sub v b), p))
       | _ \<Rightarrow> Inr (None, None)) (\<lambda>(d, p).
     bindR (format_metric_value baseline metric) (\<lambda>b. bindR (format_metric_value c metric) (\<lambda>v.
     Inr [metric, b, v, format_delta d, format_delta p])))"

definition comparison_rows :: "wl_row \<Rightarrow> wl_row \<Rightarrow> string list list result" where
  "comparison_rows baseline c = mapR (comparison_row baseline c) CASE_COMPARISON_METRICS"

definition wl_passed :: "wl_row option \<Rightarrow> bool" where
  "wl_passed row \<longleftrightarrow> (case row of None \<Rightarrow> False | Some r \<Rightarrow> wr_status r = ''PASS'')"

text \<open>\<open>rows_by_case.get(name)\<close>: the last row of the case.\<close>

definition row_of_case :: "wl_row list \<Rightarrow> string \<Rightarrow> wl_row option" where
  "row_of_case rows name = find (\<lambda>r. case_name (wr_case r) = name) (rev rows)"

definition case_section :: "wl_row list \<Rightarrow> wl_row \<Rightarrow> string \<Rightarrow> string list result" where
  "case_section rows baseline name =
     bindR (case row_of_case rows name of
         None \<Rightarrow> Inr [''Case is missing from `summary.csv`.'', []]
       | Some c \<Rightarrow>
           if wr_status c \<noteq> ''PASS''
           then Inr ([''Case failed; comparison is unavailable.'']
             @ (if wr_error c = [] then [] else [''Error: `'' @ wr_error c @ ''`'']) @ [[]])
           else bindR (comparison_rows baseline c) (\<lambda>cells.
             Inr (markdown_table [''metric'', ''baseline'', ''case'', ''delta'', ''delta_pct''] cells @ [[]]))) (\<lambda>ls.
     Inr ([''### `'' @ name @ ''`'', []] @ ls))"

definition interpretation_line :: "wl_row list \<Rightarrow> string \<Rightarrow> string" where
  "interpretation_line rows name =
     (if wl_passed (row_of_case rows name)
      then ''- `'' @ name @ ''`: '' @ (case map_of CASE_INTERPRETATIONS name of None \<Rightarrow> [] | Some t \<Rightarrow> t)
      else ''- `'' @ name @ ''`: case failed or is missing; interpretation '' @ ''is unavailable.'')"

definition workload_report_lines :: "wl_row list \<Rightarrow> string list result" where
  "workload_report_lines rows =
     (let head = [''# LT Workload Sweep Comparison'', [], ''Generated from `summary.csv` by `run_workload_sweep.py`.'', [],
        ''## Baseline'', []] in
      case row_of_case rows BASELINE_CASE of
        None \<Rightarrow> Inr (head @ [''Baseline case is missing or failed; comparison is unavailable.'', []])
      | Some baseline \<Rightarrow>
          if wr_status baseline \<noteq> ''PASS''
          then Inr (head @ [''Baseline case is missing or failed; comparison is unavailable.'']
            @ (if wr_error baseline = [] then [] else [[], ''Error: `'' @ wr_error baseline @ ''`'']) @ [[]])
          else
            bindR (mapR (\<lambda>metric. bindR (format_metric_value baseline metric) (\<lambda>v. Inr [metric, v])) BASELINE_REPORT_METRICS) (\<lambda>values.
            bindR (mapR (case_section rows baseline) COMPARISON_CASES) (\<lambda>sections.
            Inr (head @ markdown_table [''metric'', ''value''] values @ [[], ''## Case Comparison'', []] @ concat sections
              @ [''## Interpretation'', []] @ map (interpretation_line rows) COMPARISON_CASES @ [[]]))))"

section \<open>The run\<close>

record wl_state =
  ws_rows :: "wl_row list"
  ws_failed :: bool
  ws_effects :: "wl_effect list"

definition wl_after :: "wl_effect list \<Rightarrow> wl_row \<Rightarrow> wl_state \<Rightarrow> wl_state" where
  "wl_after effects row st =
     st\<lparr>ws_rows := ws_rows st @ [row], ws_failed := (ws_failed st \<or> wr_status row \<noteq> ''PASS''),
        ws_effects := ws_effects st @ effects @ [WlSummary (write_sweep_summary (ws_rows st @ [row]))]\<rparr>"

fun workload_cases :: "wl_env \<Rightarrow> bool \<Rightarrow> wl_case list \<Rightarrow> wl_state \<Rightarrow> wl_state \<times> unit result" where
  "workload_cases env keep_going [] st = (st, Inr ())"
| "workload_cases env keep_going (c # cs) st =
     (case run_workload_case env c of
        (effects, Inl e) \<Rightarrow> (st\<lparr>ws_effects := ws_effects st @ effects\<rparr>, Inl e)
      | (effects, Inr row) \<Rightarrow>
          let st' = wl_after effects row st in
          if wr_status row \<noteq> ''PASS'' \<and> \<not> keep_going then (st', Inr ()) else workload_cases env keep_going cs st')"

definition finish_workloads :: "wl_state \<Rightarrow> wl_effect list \<times> int result" where
  "finish_workloads st =
     (case workload_report_lines (ws_rows st) of
        Inl e \<Rightarrow> (ws_effects st, Inl e)
      | Inr lines \<Rightarrow> (ws_effects st @ [WlReport (py_join [CHR 0x0A] lines)], Inr (if ws_failed st then 1 else 0)))"

definition wl_start :: wl_state where
  "wl_start = \<lparr>ws_rows = [], ws_failed = False, ws_effects = [WlRemoveConfig]\<rparr>"

definition main_workload :: "wl_env \<Rightarrow> bool \<Rightarrow> wl_effect list \<times> int result" where
  "main_workload env keep_going =
     (case workload_cases env keep_going WORKLOAD_CASES wl_start of
        (st, Inl e) \<Rightarrow> (ws_effects st, Inl e)
      | (st, Inr _) \<Rightarrow> finish_workloads st)"

section \<open>The report\<close>

lemma f_is_zero_f_eq: "f_is_zero x \<Longrightarrow> f_eq x f_zero"
  by (cases x) (simp_all add: f_eq_val f_zero_def mag_def)

lemma delta_percent_total: "\<exists>p. delta_percent d b = Inr p"
  using f_div_total [of b d] f_is_zero_f_eq [of b] by (cases "f_is_zero b") (auto simp: delta_percent_def)

lemma format_metric_total: "k \<noteq> ''total_transactions'' \<Longrightarrow> \<exists>t. format_metric_value row k = Inr t"
  by (simp add: format_metric_value_def Let_def)

lemma comparison_row_total:
  assumes "k \<noteq> ''total_transactions''"
  shows "\<exists>cs. comparison_row baseline c k = Inr cs"
proof -
  obtain b v where t: "format_metric_value baseline k = Inr b" "format_metric_value c k = Inr v"
    using format_metric_total [OF assms] by metis
  show ?thesis
  proof (cases "wl_metric_float baseline k")
    case None
    then show ?thesis by (simp add: comparison_row_def t)
  next
    case (Some x)
    then show ?thesis
      using delta_percent_total [of _ x] by (cases "wl_metric_float c k") (auto simp: comparison_row_def t, metis bindR_Inr old.prod.case)
  qed
qed

lemma comparison_rows_total: "\<exists>cs. comparison_rows baseline c = Inr cs"
proof -
  have "''total_transactions'' \<notin> set CASE_COMPARISON_METRICS" by code_simp
  then show ?thesis unfolding comparison_rows_def using comparison_row_total by (intro mapR_total) metis
qed

lemma case_section_total: "\<exists>ls. case_section rows baseline name = Inr ls"
proof (cases "row_of_case rows name")
  case None
  then show ?thesis by (simp add: case_section_def)
next
  case (Some c)
  obtain cells where "comparison_rows baseline c = Inr cells" using comparison_rows_total by blast
  then show ?thesis using Some by (cases "wr_status c = ''PASS''") (simp_all add: case_section_def)
qed

text \<open>With a passing baseline, only the count of its transactions can fail to print.\<close>

lemma report_total:
  assumes "row_of_case rows BASELINE_CASE = Some b" and "wr_status b = ''PASS''"
  shows "(\<exists>ls. workload_report_lines rows = Inr ls) \<longleftrightarrow> (\<exists>t. format_metric_value b ''total_transactions'' = Inr t)"
    (is "?l \<longleftrightarrow> ?r")
proof -
  let ?f = "\<lambda>metric. bindR (format_metric_value b metric) (\<lambda>v. Inr [metric, v])"
  have mem: "''total_transactions'' \<in> set BASELINE_REPORT_METRICS" by code_simp
  obtain sections where s: "mapR (case_section rows b) COMPARISON_CASES = Inr sections"
    using mapR_total [of COMPARISON_CASES "case_section rows b"] case_section_total by blast
  have "?l \<longleftrightarrow> (\<exists>vs. mapR ?f BASELINE_REPORT_METRICS = Inr vs)"
    unfolding workload_report_lines_def assms(1) option.case Let_def by (simp add: assms(2) s bindR_eq_Inr)
  also have "\<dots> \<longleftrightarrow> ?r"
  proof
    assume "\<exists>vs. mapR ?f BASELINE_REPORT_METRICS = Inr vs"
    then show ?r using mapR_src [OF _ mem] by (fastforce simp: bindR_eq_Inr)
  next
    assume r: ?r
    show "\<exists>vs. mapR ?f BASELINE_REPORT_METRICS = Inr vs"
    proof (rule mapR_total)
      fix k
      show "\<exists>y. ?f k = Inr y"
        using r format_metric_total [of k b] by (cases "k = ''total_transactions''") auto
    qed
  qed
  finally show ?thesis .
qed

text \<open>The only count that cannot be printed is that of a passing baseline which reads as an infinite number.\<close>

definition count_unprintable :: "wl_row list \<Rightarrow> bool" where
  "count_unprintable rows \<longleftrightarrow> (\<exists>b e. row_of_case rows BASELINE_CASE = Some b \<and> wr_status b = ''PASS'' \<and>
     format_metric_value b ''total_transactions'' = Inl e)"

lemma int_by_error: "int_by g x = Inl e \<Longrightarrow> e = OverflowError \<or> (\<exists>m. e = ValueError m)"
  by (cases x) (auto split: prod.splits)

lemma format_metric_error: "format_metric_value row k = Inl e \<Longrightarrow> k = ''total_transactions'' \<and> e = OverflowError"
  by (auto simp: format_metric_value_def Let_def trunc_to_int_def split: if_splits option.splits sum.splits exn.splits
      dest!: int_by_error)

text \<open>For any rows, failed ones included, the report is written or that one count overflows.\<close>

lemma report_outcome:
  "if count_unprintable rows then workload_report_lines rows = Inl OverflowError
   else \<exists>ls. workload_report_lines rows = Inr ls"
proof (cases "\<exists>b. row_of_case rows BASELINE_CASE = Some b \<and> wr_status b = ''PASS''")
  case False
  then have "\<exists>ls. workload_report_lines rows = Inr ls"
    unfolding workload_report_lines_def by (auto simp: Let_def split: option.splits)
  then show ?thesis using False by (auto simp: count_unprintable_def)
next
  case True
  then obtain b where b: "row_of_case rows BASELINE_CASE = Some b" "wr_status b = ''PASS''" by blast
  have iff: "count_unprintable rows \<longleftrightarrow> \<not> (\<exists>t. format_metric_value b ''total_transactions'' = Inr t)"
    using b by (cases "format_metric_value b ''total_transactions''") (auto simp: count_unprintable_def)
  show ?thesis
  proof (cases "count_unprintable rows")
    case False
    then show ?thesis using report_total [OF b] iff by simp
  next
    case un: True
    then obtain e where e: "workload_report_lines rows = Inl e"
      using report_total [OF b] iff by (cases "workload_report_lines rows") auto
    obtain sections where s: "mapR (case_section rows b) COMPARISON_CASES = Inr sections"
      using mapR_total [of COMPARISON_CASES "case_section rows b"] case_section_total by blast
    have "mapR (\<lambda>metric. bindR (format_metric_value b metric) (\<lambda>v. Inr [metric, v])) BASELINE_REPORT_METRICS = Inl e"
      using e unfolding workload_report_lines_def b(1) option.case Let_def by (simp add: b(2) s bindR_eq_Inl)
    then have "e = OverflowError" using mapR_Inl by (fastforce simp: bindR_eq_Inl dest: format_metric_error)
    then show ?thesis using e un by simp
  qed
qed

section \<open>The loop over the cases\<close>

definition passing_row :: "wl_env \<Rightarrow> wl_case \<Rightarrow> wl_row \<Rightarrow> bool" where
  "passing_row env c row \<longleftrightarrow>
     (\<exists>recs s. case_passes env c recs s \<and> row = (base_row c)\<lparr>wr_metrics := zip (hd s) (s ! 1)\<rparr>)"

lemma passing_row_iff: "passing_row env c row \<longleftrightarrow> (\<exists>effects. run_workload_case env c = (effects, Inr row)) \<and> wr_status row = ''PASS''"
  unfolding passing_row_def workload_case_pass [symmetric] by (cases "run_workload_case env c") auto

lemma wl_after_simps [simp]:
  "ws_rows (wl_after effects row st) = ws_rows st @ [row]"
  "ws_failed (wl_after effects row st) \<longleftrightarrow> ws_failed st \<or> wr_status row \<noteq> ''PASS''"
  by (simp_all add: wl_after_def)

lemma workload_cases_pass:
  "list_all2 (passing_row env) cs rows \<Longrightarrow> \<exists>st'. workload_cases env kg cs st = (st', Inr ()) \<and>
     ws_rows st' = ws_rows st @ rows \<and> ws_failed st' = ws_failed st"
proof (induction cs arbitrary: rows st)
  case (Cons c cs)
  then obtain row rows' where r: "rows = row # rows'" "passing_row env c row" "list_all2 (passing_row env) cs rows'"
    by (auto simp: list_all2_Cons1)
  then obtain effects where e: "run_workload_case env c = (effects, Inr row)" "wr_status row = ''PASS''"
    by (auto simp: passing_row_iff)
  show ?case using Cons.IH [OF r(3), of "wl_after effects row st"] by (auto simp: e r(1) Let_def)
qed simp

lemma workload_cases_failed: "workload_cases env kg cs st = (st', r) \<Longrightarrow> ws_failed st \<Longrightarrow> ws_failed st'"
  by (induction cs arbitrary: st) (auto simp: Let_def split: prod.splits sum.splits if_splits)

lemma workload_cases_ok:
  "workload_cases env kg cs st = (st', Inr ()) \<Longrightarrow> \<not> ws_failed st' \<Longrightarrow> \<exists>rows. list_all2 (passing_row env) cs rows"
proof (induction cs arbitrary: st)
  case (Cons c cs)
  obtain effects row where r: "run_workload_case env c = (effects, Inr row)"
    using Cons.prems(1) by (auto split: prod.splits sum.splits)
  have "wr_status row = ''PASS''"
  proof (rule ccontr)
    assume "wr_status row \<noteq> ''PASS''"
    then show False
      using Cons.prems workload_cases_failed [of env kg cs "wl_after effects row st" st'] by (auto simp: r Let_def split: if_splits)
  qed
  then show ?case using Cons by (auto simp: r Let_def list_all2_Cons1 passing_row_iff)
next
  case Nil
  show ?case by (intro exI [of _ "[]"]) simp
qed

lemma workload_cases_flag:
  "workload_cases env kg cs st = (st', r) \<Longrightarrow> ws_failed st = (\<exists>row \<in> set (ws_rows st). wr_status row \<noteq> ''PASS'') \<Longrightarrow>
     ws_failed st' = (\<exists>row \<in> set (ws_rows st'). wr_status row \<noteq> ''PASS'')"
proof (induction cs arbitrary: st)
  case (Cons c cs)
  show ?case
  proof (cases "run_workload_case env c")
    case (Pair effects res)
    show ?thesis
    proof (cases res)
      case (Inl e)
      then show ?thesis using Cons.prems Pair by auto
    next
      case (Inr row)
      have flag: "ws_failed (wl_after effects row st) = (\<exists>r \<in> set (ws_rows (wl_after effects row st)). wr_status r \<noteq> ''PASS'')"
        using Cons.prems(2) by auto
      show ?thesis using Cons.IH [OF _ flag] Cons.prems(1) flag Pair Inr by (auto simp: Let_def split: if_splits)
    qed
  qed
qed simp

section \<open>What the status of the sweep means\<close>

lemma find_last: "\<forall>x \<in> set xs. \<not> P x \<Longrightarrow> P y \<Longrightarrow> find P (xs @ [y]) = Some y"
  by (induction xs) auto

lemma baseline_first: "list_all2 (passing_row env) WORKLOAD_CASES rows \<Longrightarrow> row_of_case rows BASELINE_CASE = Some (hd rows)"
proof -
  assume a: "list_all2 (passing_row env) WORKLOAD_CASES rows"
  have n: "map (\<lambda>r. case_name (wr_case r)) rows = map case_name WORKLOAD_CASES"
    using a by (induction rule: list_all2_induct) (auto simp: passing_row_def base_row_def)
  have d: "distinct (map case_name WORKLOAD_CASES)" "hd (map case_name WORKLOAD_CASES) = BASELINE_CASE" "WORKLOAD_CASES \<noteq> []"
    by code_simp+
  obtain r rs where r: "rows = r # rs" using a d(3) by (cases rows) auto
  have "case_name (wr_case r) = BASELINE_CASE" using arg_cong [OF n, of hd] d(2) by (simp add: r)
  moreover have "\<forall>x \<in> set rs. case_name (wr_case x) \<noteq> BASELINE_CASE"
    using d(1) calculation unfolding n [symmetric] r by force
  ultimately have "find (\<lambda>x. case_name (wr_case x) = BASELINE_CASE) (rev rs @ [r]) = Some r"
    by (intro find_last) auto
  then show ?thesis by (simp add: row_of_case_def r)
qed

lemma first_passes: "list_all2 (passing_row env) WORKLOAD_CASES rows \<Longrightarrow> wr_status (hd rows) = ''PASS''"
  by (auto simp: WORKLOAD_CASES_def list_all2_Cons1 passing_row_def base_row_def)

lemma sweep_success:
  "snd (main_workload env keep_going) = Inr 0 \<longleftrightarrow>
     (\<exists>rows t. list_all2 (passing_row env) WORKLOAD_CASES rows \<and> format_metric_value (hd rows) ''total_transactions'' = Inr t)"
  (is "?l \<longleftrightarrow> ?r")
proof
  assume ?l
  then obtain st where st: "workload_cases env keep_going WORKLOAD_CASES wl_start = (st, Inr ())" "snd (finish_workloads st) = Inr 0"
    by (auto simp: main_workload_def split: prod.splits sum.splits)
  then obtain ls where ok: "\<not> ws_failed st" "workload_report_lines (ws_rows st) = Inr ls"
    by (auto simp: finish_workloads_def split: sum.splits if_splits)
  then obtain rows where rows: "list_all2 (passing_row env) WORKLOAD_CASES rows" using workload_cases_ok [OF st(1)] by blast
  have "ws_rows st = rows" using workload_cases_pass [OF rows, of keep_going wl_start] st(1) by (simp add: wl_start_def)
  then show ?r using ok rows report_total [OF baseline_first [OF rows] first_passes [OF rows]] by blast
next
  assume ?r
  then obtain rows t where rows: "list_all2 (passing_row env) WORKLOAD_CASES rows"
    and t: "format_metric_value (hd rows) ''total_transactions'' = Inr t" by blast
  obtain st where st: "workload_cases env keep_going WORKLOAD_CASES wl_start = (st, Inr ())" "ws_rows st = rows" "\<not> ws_failed st"
    using workload_cases_pass [OF rows, of keep_going wl_start] by (auto simp: wl_start_def)
  obtain ls where "workload_report_lines rows = Inr ls"
    using report_total [OF baseline_first [OF rows] first_passes [OF rows]] t by blast
  then show ?l by (simp add: main_workload_def finish_workloads_def st)
qed

text \<open>How a sweep ends, once its loop over the cases has ended in the state \<open>st\<close>.\<close>

definition sweep_ends :: "wl_state \<Rightarrow> wl_effect list \<times> int result \<Rightarrow> bool" where
  "sweep_ends st outcome \<longleftrightarrow>
     (if count_unprintable (ws_rows st) then outcome = (ws_effects st, Inl OverflowError)
      else \<exists>lines. workload_report_lines (ws_rows st) = Inr lines \<and>
        outcome = (ws_effects st @ [WlReport (py_join [CHR 0x0A] lines)],
          Inr (if list_all (\<lambda>row. wr_status row = ''PASS'') (ws_rows st) then 0 else 1)))"

text \<open>C21. The sweep reports success exactly when every case passes: the workload of each ran, the analyser accepted
  its trace and its validation found nothing, and the baseline's number of transactions can be printed (an
  infinite one could not).  It does not matter whether the sweep keeps going after failures.  And the report
  itself never raises otherwise: an exception of a case ends the sweep as it is; when the loop over the cases ends
  without one, with failed rows or not, the report is the last file written and the status is 0 if all rows
  passed and 1 if not, unless the count of a passing baseline overflows.\<close>

theorem workload_sweep_status:
  "(snd (main_workload env keep_going) = Inr 0 \<longleftrightarrow>
     (\<exists>rows t. list_all2 (passing_row env) WORKLOAD_CASES rows \<and> format_metric_value (hd rows) ''total_transactions'' = Inr t)) \<and>
   (case workload_cases env keep_going WORKLOAD_CASES wl_start of
      (st, Inl e) \<Rightarrow> main_workload env keep_going = (ws_effects st, Inl e)
    | (st, Inr _) \<Rightarrow> sweep_ends st (main_workload env keep_going))"
proof
  show "case workload_cases env keep_going WORKLOAD_CASES wl_start of
      (st, Inl e) \<Rightarrow> main_workload env keep_going = (ws_effects st, Inl e)
    | (st, Inr _) \<Rightarrow> sweep_ends st (main_workload env keep_going)"
  proof (cases "workload_cases env keep_going WORKLOAD_CASES wl_start")
    case (Pair st res)
    show ?thesis
    proof (cases res)
      case (Inl e)
      then show ?thesis using Pair by (simp add: main_workload_def)
    next
      case (Inr u)
      have "ws_failed st = (\<exists>row \<in> set (ws_rows st). wr_status row \<noteq> ''PASS'')"
        using workload_cases_flag [OF Pair] by (simp add: wl_start_def)
      moreover have "main_workload env keep_going = finish_workloads st" using Pair Inr by (simp add: main_workload_def)
      ultimately have "sweep_ends st (main_workload env keep_going)"
        using report_outcome [of "ws_rows st"]
        by (auto simp: sweep_ends_def finish_workloads_def list_all_iff split: if_splits)
      then show ?thesis using Pair Inr by simp
    qed
  qed
qed (rule sweep_success)

section \<open>A sweep that succeeds\<close>

text \<open>A sane and valid trace makes its case pass.\<close>

lemma sane_case_passes:
  assumes "wl_config_error env c = None" "wl_remove_error env c = []" "wl_renode_status env c = 0" "wl_trace env c = Some recs"
    and raw: "load_rows recs = Inr raw" "remaining (analyzer_args env c) raw \<noteq> []" "\<forall>row \<in> set (remaining (analyzer_args env c) raw). sane row"
    and "length recs < 2 ^ 46" "validate_workload_trace c recs = Inr []"
  shows "\<exists>s. write_latency_summary (remaining (analyzer_args env c) raw) = Inr s \<and>
    passing_row env c ((base_row c)\<lparr>wr_metrics := zip (hd s) (s ! 1)\<rparr>)"
proof -
  let ?rows = "remaining (analyzer_args env c) raw"
  have n: "length ?rows < 2 ^ 46"
    using remaining_length [of "analyzer_args env c" raw] load_rows_length [OF raw(1)] assms(8) by linarith
  obtain s where s: "write_latency_summary ?rows = Inr s" using latency_summary_total [OF n] by blast
  obtain out where "lat_output (analyzer_args env c) (length raw) (length (analyzed_rows (analyzer_args env c) raw)) ?rows = Inr out"
    using lat_output_total [OF n] by blast
  moreover have "summary_csv_output (analyzer_args env c)" by (simp add: analyzer_args_def)
  ultimately have "main_latency (analyzer_args env c) (Some recs) = Inr (out, Some s, 0)"
    unfolding main_latency_def option.case raw(1) sum.case Let_def remaining_def [symmetric]
    using raw(2,3) s by (simp add: sanity_zero)
  then show ?thesis using assms s unfolding passing_row_def case_passes_def by blast
qed

definition wl_sample :: "wl_case \<Rightarrow> string list list" where
  "wl_sample c =
     [LATENCY_FIELDS @ [''workload_transaction_count'', ''workload_address_stride'', ''workload_target_pattern'',
        ''workload_enable_initiator_101'', ''workload_enable_initiator_102''],
      [''101'', if target_pattern c = ''target202'' then ''202'' else ''201'', ''WRITE'', ''0x10'', ''0xAB'', ''0'', ''100.0'', ''100'',
       ''0'', ''0x10'', ''4'', ''TLM_OK_RESPONSE'', ''0'', ''0'', ''0'', ''100'', ''100.0005'', ''100'',
       str_int (burst_count c), str_int (address_stride c), expected_trace_target_pattern c,
       str_int (enable_initiator_101 c), str_int (enable_initiator_102 c)]]"

definition sample_workloads :: wl_env where
  "sample_workloads = \<lparr>wl_config_error = (\<lambda>c. None), wl_renode_status = (\<lambda>c. 0), wl_remove_error = (\<lambda>c. []),
     wl_trace = (\<lambda>c. Some (wl_sample c)), wl_trace_name = ''latency_trace.csv'', wl_case_path = (\<lambda>c f. f)\<rparr>"

lemma workload_sample_valid: "\<forall>c \<in> set WORKLOAD_CASES. validate_workload_trace c (wl_sample c) = Inr []"
  unfolding list_all_iff [symmetric] by code_simp

lemma workload_sample_sane:
  "\<forall>c \<in> set WORKLOAD_CASES. case load_rows (wl_sample c) of Inl _ \<Rightarrow> False
     | Inr raw \<Rightarrow> remaining (analyzer_args sample_workloads c) raw \<noteq> [] \<and>
         list_all sane (remaining (analyzer_args sample_workloads c) raw)"
  unfolding list_all_iff [symmetric] by code_simp

lemma workload_sample_count:
  "case load_rows (wl_sample (hd WORKLOAD_CASES)) of Inl _ \<Rightarrow> False
     | Inr raw \<Rightarrow> (case write_latency_summary (remaining (analyzer_args sample_workloads (hd WORKLOAD_CASES)) raw) of Inl _ \<Rightarrow> False
       | Inr s \<Rightarrow> format_metric_value ((base_row (hd WORKLOAD_CASES))\<lparr>wr_metrics := zip (hd s) (s ! 1)\<rparr>) ''total_transactions'' = Inr ''1'')"
  by code_simp

lemma sample_passing_row:
  assumes "c \<in> set WORKLOAD_CASES"
  shows "\<exists>row. passing_row sample_workloads c row \<and>
    (c = hd WORKLOAD_CASES \<longrightarrow> format_metric_value row ''total_transactions'' = Inr ''1'')"
proof -
  obtain raw where raw: "load_rows (wl_sample c) = Inr raw" "remaining (analyzer_args sample_workloads c) raw \<noteq> []"
      "\<forall>row \<in> set (remaining (analyzer_args sample_workloads c) raw). sane row"
    using bspec [OF workload_sample_sane assms] by (auto simp: list_all_iff split: sum.splits)
  have n: "length (wl_sample c) < 2 ^ 46" by (simp add: wl_sample_def)
  have "wl_config_error sample_workloads c = None" "wl_remove_error sample_workloads c = []"
      "wl_renode_status sample_workloads c = 0" "wl_trace sample_workloads c = Some (wl_sample c)"
    by (simp_all add: sample_workloads_def)
  from sane_case_passes [OF this raw n bspec [OF workload_sample_valid assms]] show ?thesis using raw(1) workload_sample_count by auto
qed

theorem workload_sweep_status_witness: "snd (main_workload sample_workloads False) = Inr 0"
proof -
  obtain f where f: "\<forall>c \<in> set WORKLOAD_CASES. passing_row sample_workloads c (f c) \<and>
      (c = hd WORKLOAD_CASES \<longrightarrow> format_metric_value (f c) ''total_transactions'' = Inr ''1'')"
    using sample_passing_row by metis
  have "list_all2 (passing_row sample_workloads) WORKLOAD_CASES (map f WORKLOAD_CASES)"
    unfolding list_all2_map2 list_all2_same using f by blast
  moreover have "format_metric_value (hd (map f WORKLOAD_CASES)) ''total_transactions'' = Inr ''1''"
  proof -
    have "WORKLOAD_CASES \<noteq> []" by (simp add: WORKLOAD_CASES_def)
    then show ?thesis using bspec [OF f hd_in_set] by (simp add: list.map_sel)
  qed
  ultimately show ?thesis using workload_sweep_status [of sample_workloads False] by blast
qed

end
