(* ===== verification/Spec2Isabelle.thy ===== *)
theory Spec2Isabelle
  imports Trace_Summary Gem5_Convert K_Acceptance At5_Full_Sample Mem_Sweep_Run Replay_Compare Rtl_Correlation Workload_Sweep_Run
begin

text \<open>
  Verification of the performance-lab tools of the repository: the Python programs under
  \<open>examples/lt/tools\<close> and \<open>examples/at/tools\<close> that generate, replay, measure and compare memory-access
  traces and write the reports on them.  The simulators themselves (SystemC, Renode, gem5, Verilator) are
  run as subprocesses by the tools; what they print is a parameter of the model.

  Conventions.  A Python exception is \<open>Inl e\<close> and a result \<open>Inr x\<close> (\<open>Prelude\<close>).  A text is the list of its
  UTF-8 bytes; case mapping and white space are those of ASCII.  A CSV file is the list of records that
  \<open>csv.reader\<close> yields, \<open>None\<close> for a file that does not exist; \<open>csv.DictReader\<close> is modelled on top (missing cells
  are \<open>None\<close>, a later duplicate column wins, a longer record has the extra key).  A Python float is a
  \<open>pyfloat\<close>: NaN, a signed infinity, or sign, integer significand and binary exponent, computed exactly and
  rounded half to even to 53 bits with gradual underflow and overflow to infinity; \<open>sum\<close> is the compensated
  sum of Python 3.12, \<open>round\<close>, \<open>int\<close>, \<open>float\<close> and the \<open>.3f\<close> format are exact; \<open>x ** 2\<close>
  is the rounded square, which C's \<open>pow\<close> may miss in the last bit.  Integers are unbounded, as
  in Python.  \<open>sorted\<close> and \<open>min\<close> are stable and proved in the locale \<open>weak_order\<close>; where a NaN breaks the order,
  the insertion sort of the model and the one of CPython may differ, and the properties exclude it.

  Theories, in the order they build on each other:

  \<^item> \<open>Prelude\<close>, \<open>Rounding\<close>, \<open>Py_Text\<close>, \<open>Py_Float\<close>, \<open>Csv_Table\<close>, \<open>Py_Repr\<close>, \<open>Tool_Common\<close>: the fragment of Python the tools
    use.  The locale \<open>rounding\<close> of \<open>Rounding\<close> is interpreted for binary64, \<open>weak_order\<close> for floats, texts, rows and
    keys; the laws (monotone and exact rounding, parse of a printed float, digits round trip, dictionary
    reader) are what the component proofs rest on.
  \<^item> \<open>Trace_Replay\<close>, \<open>Trace_Summary\<close>: \<open>run_trace_replay_lab.py\<close>.  Loading (\<open>normalize_row\<close>, \<open>check_unique\<close>, \<open>load_trace\<close>),
    the replay loop over the last bank of each port (\<open>replay_from\<close>), statistics, their validation, the report
    and \<open>main_replay\<close> with its file-system effects.  The lemmas show that loading is sound, complete, sorted and
    reports the first error, that the replay refines the declarative relation \<open>conflicts\<close>, and that a summary
    never fails the tool's own validation and prints the correctly rounded averages.
  \<^item> \<open>Gem5_Convert\<close>: \<open>convert_gem5_se_trace.py\<close>; with the loader above it gives the composition \<open>converted_trace_loads\<close>
    in this theory: which converted traces the replay loads, and that it loads them row by row.
  \<^item> \<open>K_Workloads\<close>, \<open>K_Features\<close>, \<open>K_Attribution\<close>, \<open>L_Recommend\<close>, \<open>K_Reports\<close>, \<open>K_Acceptance\<close>:
    \<open>demo_project_k_workload_bottleneck_lab.py\<close>, Projects K and L.  Synthetic workloads, trace features (reuse
    distances, entropy with the logarithm as a parameter), the bottleneck rules and the sensitivity sweep,
    the recommendation of a design point, the reports, and the acceptance checks, which are proved to pass on
    everything the lab itself writes.
  \<^item> \<open>At5_Model\<close>, \<open>At5_Policy\<close>, \<open>At5_Report\<close>, \<open>At5_Run\<close>, with the samples \<open>At5_Sample\<close> and \<open>At5_Full_Sample\<close>:
    \<open>demo_at5_backpressure_qos_collapse.py\<close>.  The validation of a trace against the case, the system metrics,
    the choice of a policy, the report and its claim scan, and the loop over cases and policies with
    \<open>--keep-going\<close>; the SystemC binary is a function from its arguments to an exit code and a trace, and
    \<open>is_protected_path\<close> a parameter.
  \<^item> \<open>Mem_Sweep\<close>, \<open>Mem_Sweep_Run\<close>: \<open>run_memory_access_pattern_sweep.py\<close>.  Metrics and validation of a case, the
    combined trace, the comparison report, the loop and \<open>main_sweep\<close>; the record \<open>sweep_env\<close> holds what Renode and
    the file system answer.  The stride check is shown equivalent to being an arithmetic progression, and
    the exit status to the three cases passing.
  \<^item> \<open>Replay_Compare\<close>: \<open>compare_python_cpp_replay_outputs.py\<close>, with an exact description of what it accepts and the
    composition with the replay tool: a summary the replay writes is always accepted against itself.
  \<^item> \<open>Rtl_Correlation\<close>: \<open>correlate_model_rtl_summaries.py\<close>; the exit status is equivalent to the error budget.
  \<^item> \<open>Latency_Rows\<close>, \<open>Latency_Report\<close>: \<open>analyze_latency.py\<close>; the removal of duplicates, the filters, the tables and
    the exit status, which exists for every trace.
  \<^item> \<open>Workload_Sweep\<close>, \<open>Workload_Sweep_Run\<close>: \<open>run_workload_sweep.py\<close> on top of the analyser: a case passes exactly when
    its run, the analyser and the validation accept it, and the summary the analyser writes always reads back;
    the sweep returns 0 exactly when all five cases pass, and its report is written
    whatever the cases did, except for one count that overflows.  \<open>wl_env\<close> holds what Renode and the file system answer.

  Bounds.  The statistics are claimed for fewer than \<open>2 ^ 46\<close> rows (features for fewer than \<open>2 ^ 40\<close>), so that every
  count and every sum of latencies is an integer below \<open>2 ^ 53\<close>, which floats hold exactly; the window of a
  replay is a difference of printed times, which lie on a grid of \<open>2 ^ - 62\<close>, so the throughput never divides
  by zero.  No definition uses fuel: every loop of the tools runs over a list or a shrinking number.

  Not modelled.  \<open>argparse\<close>, path resolution, \<open>cmake\<close> and subprocess calls, console output of the drivers, and
  write errors.  The labs AT-1 to AT-4 and \<open>analyze_phase_trace.py\<close> compute in \<open>decimal.Decimal\<close>, for which
  there is no model here; \<open>run_arbitration_sweep.py\<close>, \<open>gem5_stats_correlation.py\<close>,
  \<open>normalize_profiler_counters.py\<close>, \<open>build_accuracy_validation_packet.py\<close>, the \<open>demo_\<close> drivers and
  \<open>tools/\<close> run the tools above or rearrange their tables.  The C++ models are another language of the
  repository and outside the scope.
\<close>

section \<open>From gem5 markers to the replay\<close>

lemma parse_float_nonempty: "parse_float t = Some y \<Longrightarrow> py_strip t \<noteq> []"
  by (auto simp: parse_float_def split_sign_def dec_literal_def frac_split_def py_lower_def)

lemma parse_number_strip: "parse_float t = Some y \<Longrightarrow> parse_number (py_strip t) f n = Inr y"
  using parse_float_nonempty [of t y] by (simp add: parse_number_def parse_float_def)

lemma py_int0_nonempty: "py_int0 t = Some y \<Longrightarrow> py_strip t \<noteq> []"
  by (auto simp: py_int0_def split_sign_def prefix_base_def split: if_splits)

lemma parse_int_value_strip: "py_int0 t = Some y \<Longrightarrow> parse_int_value (py_strip t) f n = Inr y"
  using py_int0_nonempty [of t y] by (simp add: parse_int_value_def py_int0_def)

lemma norm_fields:
  "field_of (dict_row NORMALIZED_FIELDS (norm_cells r)) ''workload_name'' = py_strip (n_workload_name r)"
  "field_of (dict_row NORMALIZED_FIELDS (norm_cells r)) ''txn_id'' = py_strip (n_txn_id r)"
  "field_of (dict_row NORMALIZED_FIELDS (norm_cells r)) ''timestamp_ns'' = py_strip (n_timestamp_ns r)"
  "field_of (dict_row NORMALIZED_FIELDS (norm_cells r)) ''initiator_id'' = py_strip (n_initiator_id r)"
  "field_of (dict_row NORMALIZED_FIELDS (norm_cells r)) ''command'' = py_strip (n_command r)"
  "field_of (dict_row NORMALIZED_FIELDS (norm_cells r)) ''address'' = py_strip (n_address r)"
  "field_of (dict_row NORMALIZED_FIELDS (norm_cells r)) ''size_bytes'' = py_strip (n_size_bytes r)"
  by (simp_all add: field_of_def row_get_or_def row_get_def dict_row_def NORMALIZED_FIELDS_def norm_cells_def)

lemma mvp_texts:
  "py_strip ''101'' = MVP_INITIATOR_ID" "py_upper (py_strip ''READ'') = MVP_COMMAND"
  "py_int0 (str_int 4) = Some MVP_SIZE_BYTES"
  by code_simp+

text \<open>A row the converter wrote passes every check of the loader's row loop.\<close>

lemma normalize_row_converted:
  assumes "n_workload_name r = w" and "py_strip w \<noteq> []" and "n_txn_id r = str_int k" and "0 \<le> k"
    and "parse_float (n_timestamp_ns r) = Some ts" and "\<not> f_lt ts f_zero"
    and "n_initiator_id r = ''101''" and "n_command r = ''READ''" and "n_size_bytes r = str_int 4"
    and "n_address r = format_hex a 8" and "0 \<le> a" and "a < 2 ^ 29"
  shows "\<exists>t. normalize_row path n (dict_row NORMALIZED_FIELDS (norm_cells r)) = Inr t \<and>
    workload_name t = py_strip w \<and> txn_id t = str_int k \<and> address_value t = a \<and> timestamp_ns_value t = ts"
proof -
  have "py_strip (str_int k) = str_int k"
    using str_int_digits [OF assms(4)] digit_not_space by (intro py_strip_word) blast
  moreover have "drop_bit 28 a = 0 \<or> drop_bit 28 a = 1"
  proof -
    have "a div 268435456 \<le> 1" using zdiv_mono1 [of a 536870911 268435456] assms(12) by simp
    moreover have "0 \<le> a div 268435456" using assms(11) by (simp add: pos_imp_zdiv_nonneg_iff)
    ultimately have "a div 268435456 = 0 \<or> a div 268435456 = 1" by linarith
    then show ?thesis by (simp add: drop_bit_eq_div)
  qed
  moreover have "parse_int_value (py_strip (n_address r)) ''address'' n = Inr a"
    using assms(10) py_int0_format_hex [OF assms(11)] by (simp add: parse_int_value_strip)
  moreover have "parse_int_value (py_strip (n_size_bytes r)) ''size_bytes'' n = Inr MVP_SIZE_BYTES"
    using assms(9) mvp_texts(3) by (simp add: parse_int_value_strip)
  ultimately show ?thesis
    using assms(6,11) unfolding normalize_row_def norm_fields parse_number_strip [OF assms(5)] assms(1,3,7,8) mvp_texts
    by (auto simp: raise_if_def Let_def assms(2) simp del: drop_bit_eq_div)
qed

text \<open>The issue times the converter computes from a step that is not negative; NaN and infinity stay such.\<close>

lemma converted_finite_time:
  assumes "wf_float step" and "is_finite step" and "f_le f_zero step" and "float_of_int (int i) = Inr idx"
  shows "wf_float (f_mul idx step) \<and> f_le f_zero (f_mul idx step)"
proof -
  obtain s m e where x: "step = Fin s m e" using assms(2) by (cases step) auto
  have "rounds_to False (of_int (int i)) (mk_float False (int i) 1)"
    using mk_float_rounds [of "int i" 1 False] by simp
  then obtain n f where idx: "idx = Fin False n f" "0 \<le> n"
    using assms(4) by (cases "mk_float False (int i) 1")
      (auto simp: rounds_to_def float_of_int_def of_frac_def split: if_splits)
  have m: "0 \<le> m" using assms(1) x by simp
  have r: "rounds_to s (mag n f * mag m e) (f_mul idx step)"
    using f_mul_rounds [OF idx(2) m, of False s f e] idx x by simp
  have "f_le f_zero (f_mul idx step)"
  proof (cases s)
    case True
    then have "mag m e \<le> 0" using assms(3) x by (auto simp: f_cmp f_zero_def)
    then have "m = 0" using m mag_pos [of m e] by fastforce
    then have z: "rounds_to True (of_int 0) (f_mul idx step)" using r True by simp
    obtain m' e' where "f_mul idx step = Fin True m' e'" "mag m' e' = 0" using rounds_int [OF z] by auto
    then show ?thesis by (simp add: f_cmp f_zero_def)
  qed (use r rounds_nonneg in simp)
  then show ?thesis using wf_rounds [OF r] by blast
qed

lemma converted_time:
  assumes "wf_float step" and "\<not> f_lt step f_zero" and "float_of_int (int i) = Inr idx"
  shows "wf_float (f_mul idx step) \<and> \<not> f_lt (f_mul idx step) f_zero"
proof (cases "is_finite step")
  case True
  then have "f_le f_zero step" using assms(2) by (intro not_below_zero) auto
  then show ?thesis using converted_finite_time [OF assms(1) True _ assms(3)] not_below_zeroI by blast
next
  case False
  have "rounds_to False (of_int (int i)) (mk_float False (int i) 1)"
    using mk_float_rounds [of "int i" 1 False] by simp
  then obtain n f where "idx = Fin False n f"
    using assms(3) by (cases "mk_float False (int i) 1")
      (auto simp: rounds_to_def float_of_int_def of_frac_def split: if_splits)
  then show ?thesis using False assms(2) by (cases step) (auto simp: f_cmp f_zero_def split: if_splits)
qed

text \<open>What the loader makes of a converted row that it accepts.\<close>

lemma normalized_converted_row:
  assumes "normalize_row path n (dict_row NORMALIZED_FIELDS (norm_cells r)) = Inr t"
    and "n_txn_id r = str_int k" and "0 \<le> k" and "n_address r = format_hex a 8" and "0 \<le> a"
  shows "py_strip (n_workload_name r) \<noteq> []" and "a < 2 ^ 29" and "txn_id t = str_int k" and "address_value t = a"
    and "target_id t = 201 + a div 2 ^ 28" and "masked_address t = a mod 2 ^ 28"
proof -
  have k: "py_strip (str_int k) = str_int k"
    using str_int_digits [OF assms(3)] digit_not_space by (intro py_strip_word) blast
  note v = normalize_row_valid(1) [OF assms(1), unfolded valid_row_def]
  have f: "workload_name t = py_strip (n_workload_name r)" "txn_id t = py_strip (n_txn_id r)" "address t = py_strip (n_address r)"
    using assms(1) unfolding normalize_row_def norm_fields by (auto simp: Let_def result_simps)
  have "py_int0 (py_strip (format_hex a 8)) = Some a"
    using py_int0_format_hex [OF assms(5)] by (simp add: py_int0_def strip_strip)
  then show a: "address_value t = a" using v f(3) assms(4) by simp
  show "py_strip (n_workload_name r) \<noteq> []" "txn_id t = str_int k" using v f(1,2) assms(2) k by auto
  obtain p where p: "decoded_port t = p" "p = 0 \<or> p = 1" by (metis v empty_iff insert_iff)
  have m: "masked_address t \<in> {0..<2 ^ 28}" "a = p * 2 ^ 28 + masked_address t" "target_id t = 201 + p"
    using v a p(1) by auto
  then have "a div 2 ^ 28 = p" "a mod 2 ^ 28 = masked_address t" by auto
  then show "target_id t = 201 + a div 2 ^ 28" "masked_address t = a mod 2 ^ 28" using m(3) by simp_all
  show "a < 2 ^ 29" using m(1,2) p(2) by auto
qed

lemma remdups_same: "remdups (replicate (Suc n) x) = [x]"
  by (induction n) auto

lemma distinct_txn_ids: "distinct (map (\<lambda>i. str_int (int i + 1)) [0..<n])"
  by (auto simp: distinct_map inj_on_def dest!: str_int_inj [rotated 2])

lemma load_traceI:
  assumes "reader_fieldnames recs = Some h" and "filter (\<lambda>f. f \<notin> set h) REQUIRED_FIELDS = []"
    and "mapR (\<lambda>(n, row). normalize_row path (int n) row)
      (zip [2..<2 + length (dict_reader recs)] (dict_reader recs)) = Inr rs"
    and "rs \<noteq> []" and "length (remdups (map workload_name rs)) = 1" and "check_unique path [] rs = Inr ()"
  shows "load_trace path (Some recs) = Inr (py_sorted row_lt rs)"
  using assms(4,5) unfolding load_trace_def Let_def opt_or_raise_def option.case bindR_Inr assms(1-3,6)
  by (simp add: raise_if_def assms(3,6) del: upt_Suc)

lemma normalized_dicts: "dict_reader (normalized_csv rows) = map (\<lambda>r. dict_row NORMALIZED_FIELDS (norm_cells r)) rows"
proof -
  have "norm_cells r \<noteq> []" for r by (simp add: norm_cells_def)
  then show ?thesis by (simp add: dict_reader_def normalized_csv_def filter_map comp_def)
qed

text \<open>
  What a converted trace needs for the loader: a label that is not blank and addresses that decode to one of the
  two targets.
\<close>

definition replayable :: "conv_args \<Rightarrow> marker_event list \<Rightarrow> bool" where
  "replayable args sel \<longleftrightarrow> py_strip (workload_label args sel) \<noteq> [] \<and> (\<forall>i < length sel. norm_address args sel i < 2 ^ 29)"

lemma converted_trace_accepted:
  assumes "normalize_events events args = Inr rows"
    and "arg_initiator_id args = ''101''" and "py_upper (arg_command_filter args) = ''READ''"
    and "arg_size_bytes args = 4" and "wf_float (arg_timestamp_step_ns args)"
    and "\<not> f_lt (arg_timestamp_step_ns args) f_zero" and "replayable args (selected args events)"
  shows "\<exists>trace. load_trace path (Some (normalized_csv rows)) = Inr trace"
proof -
  let ?sel = "selected args events"
  let ?w = "workload_label args ?sel"
  note inv = normalize_events_Inr [OF assms(1)]
  let ?ds = "dict_reader (normalized_csv rows)"
  have ds: "?ds = map (\<lambda>r. dict_row NORMALIZED_FIELDS (norm_cells r)) rows"
    by (rule normalized_dicts)
  have w: "py_strip ?w \<noteq> []" and bound: "\<forall>i < length ?sel. norm_address args ?sel i < 2 ^ 29"
    using assms(7) by (simp_all add: replayable_def)
  have "\<exists>t. normalize_row path (int i + 2) (?ds ! i) = Inr t \<and> workload_name t = py_strip ?w \<and>
      txn_id t = str_int (int i + 1)"
    if i: "i < length rows" for i
  proof -
    note ev = normalize_event_Inr [OF inv(4) [OF i [unfolded inv(3)]]]
    obtain idx where "float_of_int (int i) = Inr idx"
      "conv_format_time (f_mul idx (arg_timestamp_step_ns args)) = Inr (n_timestamp_ns (rows ! i))"
      using ev(8) by blast
    then obtain ts where ts: "parse_float (n_timestamp_ns (rows ! i)) = Some ts" "\<not> f_lt ts f_zero"
      using converted_time [OF assms(5,6)] parse_conv_time_any by blast
    have "norm_address args ?sel i < 2 ^ 29" using bound i inv(3) by simp
    from normalize_row_converted [OF ev(3) w ev(4) _ ts _ _ _ ev(2) ev(1) this, of path "int i + 2"]
    show ?thesis using ev(5-7) assms(2-4) i ds by auto
  qed
  then obtain t where t: "\<And>i. i < length rows \<Longrightarrow> normalize_row path (int i + 2) (?ds ! i) = Inr (t i) \<and>
      workload_name (t i) = py_strip ?w \<and> txn_id (t i) = str_int (int i + 1)" by metis
  let ?ts = "map t [0..<length rows]"
  have len: "length ?ds = length rows" by (simp add: ds)
  have mp: "mapR (\<lambda>(n, row). normalize_row path (int n) row) (zip [2..<2 + length ?ds] ?ds) = Inr ?ts"
    using t len by (auto simp: mapR_eq_Inr list_all2_conv_all_nth add.commute simp del: upt_Suc)
  have ts: "?ts \<noteq> []" using inv(1,3) by simp
  have "map workload_name ?ts = replicate (length rows) (py_strip ?w)"
    using t by (intro nth_equalityI) simp_all
  then have rd: "remdups (map workload_name ?ts) = [py_strip ?w]" using inv(1,3) remdups_same by (metis Suc_pred length_greater_0_conv)
  have ids: "map txn_id ?ts = map (\<lambda>i. str_int (int i + 1)) [0..<length rows]"
    using t by (intro nth_equalityI) simp_all
  then have un: "check_unique path [] ?ts = Inr ()" by (simp only: check_unique_Inr distinct_txn_ids) simp
  have fl: "filter (\<lambda>f. f \<notin> set NORMALIZED_FIELDS) REQUIRED_FIELDS = []" by code_simp
  have hd: "reader_fieldnames (normalized_csv rows) = Some NORMALIZED_FIELDS"
    by (simp add: reader_fieldnames_def normalized_csv_def)
  have "length (remdups (map workload_name ?ts)) = 1" unfolding rd by simp
  from load_traceI [OF hd fl mp ts this un] show ?thesis by blast
qed

text \<open>The row that a selected marker becomes: its id, its normalised address, the target and the masked address.\<close>

definition loaded_as :: "conv_args \<Rightarrow> marker_event list \<Rightarrow> nat \<Rightarrow> string \<times> int \<times> int \<times> int" where
  "loaded_as args sel i =
     (str_int (int i + 1), norm_address args sel i, 201 + norm_address args sel i div 2 ^ 28, norm_address args sel i mod 2 ^ 28)"

lemma converted_trace_content:
  assumes "normalize_events events args = Inr rows" and "load_trace path (Some (normalized_csv rows)) = Inr trace"
  defines "sel \<equiv> selected args events"
  shows "replayable args sel \<and> mset (map (\<lambda>r. (txn_id r, address_value r, target_id r, masked_address r)) trace) =
    mset (map (loaded_as args sel) [0..<length sel])"
proof -
  note inv = normalize_events_Inr [OF assms(1), folded sel_def]
  have ds: "dict_reader (normalized_csv rows) = map (\<lambda>r. dict_row NORMALIZED_FIELDS (norm_cells r)) rows"
    by (rule normalized_dicts)
  obtain rs where rs: "trace = py_sorted row_lt rs" "length rs = length rows"
      "\<forall>i < length rs. normalize_row path (int i + 2) (dict_row NORMALIZED_FIELDS (norm_cells (rows ! i))) = Inr (rs ! i)"
  proof (rule load_trace_Inr [OF assms(2)])
    fix recs rs
    assume "Some (normalized_csv rows) = Some recs" "trace = py_sorted row_lt rs" "length rs = length (dict_reader recs)"
      "\<forall>i < length rs. normalize_row path (int i + 2) (dict_reader recs ! i) = Inr (rs ! i)"
    moreover from this have "dict_reader recs = map (\<lambda>r. dict_row NORMALIZED_FIELDS (norm_cells r)) rows" using ds by simp
    ultimately show thesis by (intro that [of rs]) simp_all
  qed
  have row: "py_strip (workload_label args sel) \<noteq> [] \<and> norm_address args sel i < 2 ^ 29 \<and>
      (txn_id (rs ! i), address_value (rs ! i), target_id (rs ! i), masked_address (rs ! i)) = loaded_as args sel i"
    if i: "i < length sel" for i
  proof -
    note ev = normalize_event_Inr [OF inv(4) [OF i]]
    have n: "normalize_row path (int i + 2) (dict_row NORMALIZED_FIELDS (norm_cells (rows ! i))) = Inr (rs ! i)"
      using rs(2,3) i inv(3) by simp
    show ?thesis using normalized_converted_row [OF n ev(4) _ ev(2) ev(1)] ev(3) by (simp add: loaded_as_def)
  qed
  let ?f = "\<lambda>r. (txn_id r, address_value r, target_id r, masked_address r)"
  have "map ?f rs = map (loaded_as args sel) [0..<length sel]"
    using row rs(2) inv(3) by (intro nth_equalityI) simp_all
  moreover have "mset (map ?f trace) = mset (map ?f rs)" unfolding rs(1) mset_map mset_py_sorted ..
  ultimately have "mset (map ?f trace) = mset (map (loaded_as args sel) [0..<length sel])" by (simp only:)
  moreover have "0 < length sel" using inv(1) by simp
  then have "replayable args sel" using row unfolding replayable_def by blast
  ultimately show ?thesis by (intro conjI)
qed

text \<open>C9. The two tools fit.  Take any markers that the converter accepts with the replay's initiator, command and access
  size and a time step that is not negative (it may be NaN or infinite).  \<open>load_trace\<close> reads the written
  file back exactly when the label is not blank and every normalised address is below \<open>2 ^ 29\<close>; then
  nothing is lost or changed: there is one row per selected marker, with the ids 1, 2, \<dots>, the normalised address, the
  target that its bit 28 selects and the address masked to 28 bits.\<close>

theorem converted_trace_loads:
  assumes "normalize_events events args = Inr rows"
    and "arg_initiator_id args = ''101''" and "py_upper (arg_command_filter args) = ''READ''"
    and "arg_size_bytes args = 4" and "wf_float (arg_timestamp_step_ns args)"
    and "\<not> f_lt (arg_timestamp_step_ns args) f_zero"
  shows "case load_trace path (Some (normalized_csv rows)) of
      Inl e \<Rightarrow> \<not> replayable args (selected args events)
    | Inr trace \<Rightarrow> replayable args (selected args events) \<and>
        mset (map (\<lambda>r. (txn_id r, address_value r, target_id r, masked_address r)) trace) =
        mset (map (loaded_as args (selected args events)) [0..<length (selected args events)])"
proof (cases "load_trace path (Some (normalized_csv rows))")
  case (Inl e)
  then have "\<not> replayable args (selected args events)" using converted_trace_accepted [OF assms, of path] by fastforce
  then show ?thesis using Inl by simp
next
  case (Inr trace)
  then show ?thesis using converted_trace_content [OF assms(1) Inr] by simp
qed

definition default_args :: conv_args where
  "default_args = \<lparr>arg_workload_name = None, arg_initiator_id = ''101'', arg_timestamp_step_ns = flit 100 1,
     arg_size_bytes = 4, arg_command_filter = ''READ'', arg_zero_based = True, arg_source = ''gem5_se_simout''\<rparr>"

definition marker_lines :: "string list" where
  "marker_lines = [''gem5 Simulator System'',
     ''PROJECT_C_MEM workload=stride_scan seq=1 command=READ address=0x1000 size=4 pc=0x400'',
     ''PROJECT_C_MEM workload=stride_scan seq=2 command=write address=0x1004 size=4'',
     ''PROJECT_C_MEM workload=stride_scan seq=3 command=read address=0x10001010 size=4 symbol=main'']"

theorem converted_trace_loads_witness:
  "\<exists>events rows trace. load_marker_events ''simout'' (Some marker_lines) = Inr events \<and>
     normalize_events events default_args = Inr rows \<and>
     load_trace ''t'' (Some (normalized_csv rows)) = Inr trace \<and>
     mset (map (\<lambda>r. (txn_id r, address_value r, target_id r, masked_address r)) trace) =
       mset [(''1'', 0, 201, 0), (''2'', 0x10000010, 202, 16)]"
proof -
  define evs where "evs = projr (load_marker_events ''simout'' (Some marker_lines))"
  have ev: "load_marker_events ''simout'' (Some marker_lines) = Inr evs"
  proof -
    have "\<not> isl (load_marker_events ''simout'' (Some marker_lines))" by code_simp
    then show ?thesis unfolding evs_def by simp
  qed
  define rows where "rows = projr (normalize_events evs default_args)"
  have r: "normalize_events evs default_args = Inr rows"
  proof -
    have "\<not> isl (normalize_events evs default_args)" unfolding evs_def by code_simp
    then show ?thesis unfolding rows_def by simp
  qed
  let ?sel = "selected default_args evs"
  have n: "length ?sel = 2" "map (loaded_as default_args ?sel) [0..<2] = [(''1'', 0, 201, 0), (''2'', 0x10000010, 202, 16)]"
    unfolding evs_def by code_simp+
  have a: "norm_address default_args ?sel 0 = 0" "norm_address default_args ?sel 1 = 0x10000010"
    and h: "py_strip (workload_label default_args ?sel) \<noteq> []"
    unfolding evs_def by code_simp+
  have ok: "replayable default_args ?sel" using n(1) a h by (auto simp: replayable_def less_2_cases_iff)
  have d: "arg_initiator_id default_args = ''101''" "py_upper (arg_command_filter default_args) = ''READ''"
    "arg_size_bytes default_args = 4" "\<not> f_lt (arg_timestamp_step_ns default_args) f_zero"
    by code_simp+
  have w: "wf_float (arg_timestamp_step_ns default_args)" by (simp add: default_args_def wf_flit)
  from converted_trace_loads [OF r d(1-3) w d(4), of "''t''"] show ?thesis
    using ev r ok n by (cases "load_trace ''t'' (Some (normalized_csv rows))") auto
qed

end
